(* ===== verification/Prelude.thy ===== *)
theory Prelude
  imports Main "HOL-Library.Word"
begin

text \<open>
  Shared vocabulary of the development: Python exceptions as values, the error monad, bytes,
  big-endian integers (\<open>int.to_bytes\<close>, \<open>int.from_bytes\<close>, \<open>int.bit_length\<close>), hexadecimal text
  (\<open>bytes.hex\<close>, \<open>bytes.fromhex\<close>), and the \<open>fixed_codec\<close> interface of fixed-width encodings.
  Everything here is the part of Python's built-in types the sources use.
\<close>

section \<open>Exceptions as values\<close>

text \<open>
  A raised exception is the left summand. A message is kept without the values an f-string
  interpolates into it, so that each \<open>raise\<close> of the sources is told apart by its text.
  \<open>LibraryError\<close> is an exception raised inside a third-party function.
\<close>

datatype py_error =
    TypeError string
  | ValueError string
  | OverflowError string
  | KeyError string
  | IndexError string
  | AttributeError string
  | RuntimeError string
  | NotImplementedError string
  | OSError string
  | SystemExit int
  | LibraryError string

type_synonym 'a result = "py_error + 'a"

named_theorems err_simps \<open>rewrite rules of the error monad\<close>

definition bindE :: "'e + 'a \<Rightarrow> ('a \<Rightarrow> 'e + 'b) \<Rightarrow> 'e + 'b" where
  "bindE m f = (case m of Inl e \<Rightarrow> Inl e | Inr a \<Rightarrow> f a)"

lemma bindE_simps [simp, err_simps]:
  "bindE (Inl e) f = Inl e"
  "bindE (Inr a) f = f a"
  by (simp_all add: bindE_def)

lemma bindE_Inr_conv [err_simps]: "bindE m f = Inr b \<longleftrightarrow> (\<exists>a. m = Inr a \<and> f a = Inr b)"
  by (cases m) auto

lemma Inr_bindE_conv: "Inr b = bindE m f \<longleftrightarrow> (\<exists>a. m = Inr a \<and> f a = Inr b)"
  by (cases m) auto

lemma bindE_Inl_conv: "bindE m f = Inl e \<longleftrightarrow> m = Inl e \<or> (\<exists>a. m = Inr a \<and> f a = Inl e)"
  by (cases m) auto

lemma bindE_assoc: "bindE (bindE m f) g = bindE m (\<lambda>a. bindE (f a) g)"
  by (cases m) simp_all

lemma bindE_cong [fundef_cong]:
  "m = m' \<Longrightarrow> (\<And>a. m' = Inr a \<Longrightarrow> f a = g a) \<Longrightarrow> bindE m f = bindE m' g"
  by (cases m') auto

text \<open>A comprehension \<open>tuple(f(x) for x in xs)\<close>: the first element that raises stops it.\<close>

fun mapE :: "('a \<Rightarrow> 'e + 'b) \<Rightarrow> 'a list \<Rightarrow> 'e + 'b list" where
  "mapE f [] = Inr []"
| "mapE f (x # xs) = bindE (f x) (\<lambda>y. bindE (mapE f xs) (\<lambda>ys. Inr (y # ys)))"

lemma mapE_Inr_conv [err_simps]: "mapE f xs = Inr ys \<longleftrightarrow> map f xs = map Inr ys"
  by (induction xs arbitrary: ys) (auto simp: err_simps map_eq_Cons_conv Cons_eq_map_conv)

lemma mapE_cong [fundef_cong]:
  "xs = ys \<Longrightarrow> (\<And>x. x \<in> set ys \<Longrightarrow> f x = g x) \<Longrightarrow> mapE f xs = mapE g ys"
  by (induction xs arbitrary: ys) (auto intro: bindE_cong)

lemma mapE_total: "mapE (\<lambda>x. Inr (g x)) xs = Inr (map g xs)"
  by (induction xs) auto

lemma mapE_length: "mapE f xs = Inr ys \<Longrightarrow> length ys = length xs"
  by (metis length_map mapE_Inr_conv)

lemma mapE_set: "mapE f xs = Inr ys \<Longrightarrow> y \<in> set ys \<Longrightarrow> \<exists>x \<in> set xs. f x = Inr y"
  by (induction xs arbitrary: ys) (auto simp: bindE_Inr_conv)

section \<open>Bytes and big-endian integers\<close>

type_synonym byte = "8 word"
type_synonym bytes = "byte list"

text \<open>The last \<open>k\<close> base-256 digits of \<open>n\<close>, most significant first.\<close>

fun nat_to_be :: "nat \<Rightarrow> nat \<Rightarrow> bytes" where
  "nat_to_be 0 n = []"
| "nat_to_be (Suc k) n = nat_to_be k (n div 256) @ [word_of_nat (n mod 256)]"

definition be_to_nat :: "bytes \<Rightarrow> nat" where
  "be_to_nat bs = foldl (\<lambda>a b. a * 256 + unat b) 0 bs"

lemma be_to_nat_Nil [simp]: "be_to_nat [] = 0"
  by (simp add: be_to_nat_def)

lemma be_to_nat_snoc [simp]: "be_to_nat (bs @ [b]) = be_to_nat bs * 256 + unat b"
  by (simp add: be_to_nat_def)

lemma length_nat_to_be [simp]: "length (nat_to_be k n) = k"
  by (induction k arbitrary: n) auto

lemma unat_byte_less: "unat (b :: byte) < 256"
  using unsigned_less [of b, where 'a = nat] by simp

lemma be_to_nat_nat_to_be: "be_to_nat (nat_to_be k n) = n mod 256 ^ k"
proof (induction k arbitrary: n)
  case 0
  then show ?case by simp
next
  case (Suc k)
  have "unat (word_of_nat (n mod 256) :: byte) = n mod 256"
    by (simp add: unat_of_nat)
  then show ?case
    using Suc by (simp add: mod_mult2_eq mult.commute)
qed

lemma nat_to_be_be_to_nat: "nat_to_be (length bs) (be_to_nat bs) = bs"
proof (induction bs rule: rev_induct)
  case Nil
  then show ?case by simp
next
  case (snoc b bs)
  have "unat b < 256" by (rule unat_byte_less)
  then show ?case using snoc by (simp add: unat_of_nat)
qed

lemma be_to_nat_less: "be_to_nat bs < 256 ^ length bs"
proof -
  have "be_to_nat bs = be_to_nat (nat_to_be (length bs) (be_to_nat bs))"
    by (simp add: nat_to_be_be_to_nat)
  also have "\<dots> = be_to_nat bs mod 256 ^ length bs" by (rule be_to_nat_nat_to_be)
  also have "\<dots> < 256 ^ length bs" by simp
  finally show ?thesis .
qed

lemma unat_byte_of_nat: "n < 256 \<Longrightarrow> unat (word_of_nat n :: byte) = n"
  by (simp add: unat_of_nat)

text \<open>\<open>int.to_bytes(k, "big")\<close> and \<open>int.from_bytes(b, "big")\<close>.\<close>

definition int_to_bytes :: "nat \<Rightarrow> int \<Rightarrow> bytes result" where
  "int_to_bytes k n =
     (if n < 0 then Inl (OverflowError ''can't convert negative int to unsigned'')
      else if 256 ^ k \<le> n then Inl (OverflowError ''int too big to convert'')
      else Inr (nat_to_be k (nat n)))"

definition int_from_bytes :: "bytes \<Rightarrow> int" where
  "int_from_bytes bs = int (be_to_nat bs)"

text \<open>\<open>bytes([v])\<close>.\<close>

definition byte_of_int :: "int \<Rightarrow> bytes result" where
  "byte_of_int v =
     (if 0 \<le> v \<and> v < 256 then Inr [word_of_int v]
      else Inl (ValueError ''bytes must be in range(0, 256)''))"

lemma int_to_bytes_ok: "0 \<le> n \<Longrightarrow> n < 256 ^ k \<Longrightarrow> int_to_bytes k n = Inr (nat_to_be k (nat n))"
  by (simp add: int_to_bytes_def)

lemma int_to_bytes_Inr_conv:
  "int_to_bytes k n = Inr b \<longleftrightarrow> 0 \<le> n \<and> n < 256 ^ k \<and> b = nat_to_be k (nat n)"
  by (auto simp: int_to_bytes_def)

lemma int_from_bytes_nonneg [simp]: "0 \<le> int_from_bytes bs"
  by (simp add: int_from_bytes_def)

lemma int_from_bytes_less: "int_from_bytes bs < 256 ^ length bs"
  using be_to_nat_less [of bs] by (simp add: int_from_bytes_def flip: of_nat_less_iff)

lemma int_from_to_bytes: "int_to_bytes k n = Inr b \<Longrightarrow> int_from_bytes b = n"
proof -
  assume "int_to_bytes k n = Inr b"
  then have n: "0 \<le> n" "n < 256 ^ k" and b: "b = nat_to_be k (nat n)"
    by (auto simp: int_to_bytes_Inr_conv)
  from n have "nat n < 256 ^ k" by (simp add: nat_less_iff)
  with n b show ?thesis by (simp add: int_from_bytes_def be_to_nat_nat_to_be)
qed

lemma int_to_from_bytes: "int_to_bytes (length bs) (int_from_bytes bs) = Inr bs"
  using int_from_bytes_less [of bs]
  by (simp add: int_to_bytes_def nat_to_be_be_to_nat)
     (simp add: int_from_bytes_def nat_to_be_be_to_nat)

lemma int_to_bytes_length: "int_to_bytes k n = Inr b \<Longrightarrow> length b = k"
  by (auto simp: int_to_bytes_Inr_conv)

subsection \<open>Minimal big-endian form\<close>

fun nat_bits :: "nat \<Rightarrow> nat" where
  "nat_bits n = (if n = 0 then 0 else Suc (nat_bits (n div 2)))"

declare nat_bits.simps [simp del]

lemma nat_bits_0 [simp]: "nat_bits 0 = 0"
  by (simp add: nat_bits.simps)

definition bit_length :: "int \<Rightarrow> nat" where
  "bit_length n = nat_bits (nat \<bar>n\<bar>)"

lemma nat_bits_upper: "n < 2 ^ nat_bits n"
proof (induction n rule: nat_bits.induct)
  case (1 n)
  show ?case
  proof (cases "n = 0")
    case True
    then show ?thesis by simp
  next
    case False
    with 1 have "n div 2 < 2 ^ nat_bits (n div 2)" by simp
    then have "n < 2 * 2 ^ nat_bits (n div 2)" by linarith
    with False show ?thesis by (subst nat_bits.simps) simp
  qed
qed

lemma nat_bits_lower: "n \<noteq> 0 \<Longrightarrow> 2 ^ (nat_bits n - 1) \<le> n"
proof (induction n rule: nat_bits.induct)
  case (1 n)
  show ?case
  proof (cases "n div 2 = 0")
    case True
    with 1 show ?thesis by (subst nat_bits.simps) (simp add: nat_bits.simps)
  next
    case False
    with 1 have IH: "2 ^ (nat_bits (n div 2) - 1) \<le> n div 2" by simp
    from False have "nat_bits (n div 2) \<noteq> 0" by (subst nat_bits.simps) simp
    then have "(2::nat) ^ nat_bits (n div 2) = 2 * 2 ^ (nat_bits (n div 2) - 1)"
      by (cases "nat_bits (n div 2)") auto
    with IH have "2 ^ nat_bits (n div 2) \<le> n" by linarith
    with 1 show ?thesis by (subst nat_bits.simps) simp
  qed
qed

lemma two_eight: "(2::nat) ^ (8 * k) = 256 ^ k"
  by (simp add: power_mult)

lemma byte_count_upper: "n < 256 ^ ((nat_bits n + 7) div 8)"
proof -
  have "nat_bits n \<le> 8 * ((nat_bits n + 7) div 8)" by linarith
  then have "(2::nat) ^ nat_bits n \<le> 2 ^ (8 * ((nat_bits n + 7) div 8))"
    by (rule power_increasing) simp
  with nat_bits_upper [of n] show ?thesis by (simp add: two_eight)
qed

lemma byte_count_lower: "n \<noteq> 0 \<Longrightarrow> 256 ^ ((nat_bits n + 7) div 8 - 1) \<le> n"
proof -
  assume n: "n \<noteq> 0"
  have "8 * ((nat_bits n + 7) div 8 - 1) \<le> nat_bits n - 1" by linarith
  then have "(2::nat) ^ (8 * ((nat_bits n + 7) div 8 - 1)) \<le> 2 ^ (nat_bits n - 1)"
    by (rule power_increasing) simp
  with nat_bits_lower [OF n] show ?thesis by (simp add: two_eight)
qed

text \<open>A leading zero byte makes the number small: the minimal form has none.\<close>

lemma be_to_nat_Cons: "be_to_nat (b # bs) = unat b * 256 ^ length bs + be_to_nat bs"
proof (induction bs rule: rev_induct)
  case Nil
  then show ?case by (simp add: be_to_nat_def)
next
  case (snoc c bs)
  have "be_to_nat (b # bs @ [c]) = be_to_nat (b # bs) * 256 + unat c"
    using be_to_nat_snoc [of "b # bs" c] by simp
  with snoc show ?case by (simp add: algebra_simps)
qed

lemma be_to_nat_leading_zero: "be_to_nat (0 # bs) < 256 ^ length bs"
  using be_to_nat_less [of bs] by (simp add: be_to_nat_Cons)

text \<open>
  The minimal big-endian form: \<open>n.to_bytes((n.bit_length() + 7) // 8, "big")\<close>, empty for
  zero, without a leading zero byte otherwise.
\<close>

definition min_be :: "nat \<Rightarrow> bytes" where
  "min_be n = nat_to_be ((nat_bits n + 7) div 8) n"

lemma be_to_nat_min_be [simp]: "be_to_nat (min_be n) = n"
  using byte_count_upper [of n] by (simp add: min_be_def be_to_nat_nat_to_be)

lemma min_be_inj [simp]: "min_be m = min_be n \<longleftrightarrow> m = n"
  by (metis be_to_nat_min_be)

lemma min_be_0 [simp]: "min_be 0 = []"
  by (simp add: min_be_def nat_bits.simps)

lemma min_be_Nil_iff [simp]: "min_be n = [] \<longleftrightarrow> n = 0"
  by (metis be_to_nat_min_be be_to_nat_Nil min_be_0)

lemma length_min_be_lower: "n \<noteq> 0 \<Longrightarrow> 256 ^ (length (min_be n) - 1) \<le> n"
  using byte_count_lower [of n] by (simp add: min_be_def)

lemma length_min_be_le: "n < 256 ^ k \<Longrightarrow> length (min_be n) \<le> k"
proof (cases "n = 0")
  case True
  then show ?thesis by simp
next
  case False
  assume "n < 256 ^ k"
  with length_min_be_lower [OF False] have "(256::nat) ^ (length (min_be n) - 1) < 256 ^ k"
    by linarith
  then have "length (min_be n) - 1 < k" by (rule power_less_imp_less_exp [rotated]) simp
  then show ?thesis by linarith
qed

lemma hd_min_be: "n \<noteq> 0 \<Longrightarrow> hd (min_be n) \<noteq> 0"
proof
  assume n: "n \<noteq> 0" and z: "hd (min_be n) = 0"
  from n obtain b bs where m: "min_be n = b # bs" by (cases "min_be n") auto
  with z have "be_to_nat (min_be n) < 256 ^ length bs"
    using be_to_nat_leading_zero [of bs] by simp
  moreover have "256 ^ length bs \<le> n" using length_min_be_lower [OF n] m by simp
  ultimately show False by simp
qed

section \<open>Hexadecimal text\<close>

definition hex_chars :: string where
  "hex_chars = ''0123456789abcdef''"

definition hex_digit :: "nat \<Rightarrow> char" where
  "hex_digit n = hex_chars ! n"

text \<open>\<open>bytes.hex()\<close>: two lower-case digits per byte.\<close>

fun bytes_hex :: "bytes \<Rightarrow> string" where
  "bytes_hex [] = []"
| "bytes_hex (b # bs) = hex_digit (unat b div 16) # hex_digit (unat b mod 16) # bytes_hex bs"

definition hex_val :: "char \<Rightarrow> nat option" where
  "hex_val c =
     (let n = of_char c :: nat in
      if 48 \<le> n \<and> n \<le> 57 then Some (n - 48)
      else if 97 \<le> n \<and> n \<le> 102 then Some (n - 87)
      else if 65 \<le> n \<and> n \<le> 70 then Some (n - 55)
      else None)"

definition is_ascii_space :: "char \<Rightarrow> bool" where
  "is_ascii_space c = (let n = of_char c :: nat in n = 32 \<or> (9 \<le> n \<and> n \<le> 13))"

text \<open>\<open>bytes.fromhex(s)\<close>: pairs of digits, with ASCII white space allowed between pairs.\<close>

fun bytes_fromhex :: "string \<Rightarrow> bytes result" where
  "bytes_fromhex [] = Inr []"
| "bytes_fromhex [c] =
     (if is_ascii_space c then Inr [] else Inl (ValueError ''non-hexadecimal number found''))"
| "bytes_fromhex (c # d # s) =
     (if is_ascii_space c then bytes_fromhex (d # s)
      else case (hex_val c, hex_val d) of
             (Some h, Some l) \<Rightarrow>
               bindE (bytes_fromhex s) (\<lambda>bs. Inr (word_of_nat (16 * h + l) # bs))
           | _ \<Rightarrow> Inl (ValueError ''non-hexadecimal number found''))"

lemma nat_less_16_cases:
  "n < (16::nat) \<Longrightarrow> n \<in> {0, 1, 2, 3, 4, 5, 6, 7, 8, 9, 10, 11, 12, 13, 14, 15}"
  by (simp add: numeral_eq_Suc less_Suc_eq)

lemma hex_val_digit [simp]: "n < 16 \<Longrightarrow> hex_val (hex_digit n) = Some n"
  by (drule nat_less_16_cases) (auto simp: hex_digit_def hex_chars_def hex_val_def)

lemma hex_digit_not_space [simp]: "n < 16 \<Longrightarrow> \<not> is_ascii_space (hex_digit n)"
  by (drule nat_less_16_cases) (auto simp: hex_digit_def hex_chars_def is_ascii_space_def)

lemma byte_nibbles [simp]:
  "unat (b :: byte) div 16 < 16"
  "unat b mod 16 < 16"
  using unat_byte_less [of b] by simp_all

lemma bytes_fromhex_hex [simp]: "bytes_fromhex (bytes_hex bs) = Inr bs"
proof (induction bs)
  case Nil
  then show ?case by simp
next
  case (Cons b bs)
  have "16 * (unat b div 16) + unat b mod 16 = unat b" by simp
  then show ?case using Cons by simp
qed

lemma length_bytes_hex [simp]: "length (bytes_hex bs) = 2 * length bs"
  by (induction bs) auto

lemma bytes_hex_inj: "bytes_hex a = bytes_hex b \<longleftrightarrow> a = b"
  by (metis bytes_fromhex_hex sum.inject(2))

section \<open>Fixed-width encodings\<close>

text \<open>
  The contract of an encoder with a fixed width and its parser: parsing an encoding gives
  the value back, and a successful parse is the encoding of its result. Every proof about a
  layout that concatenates such encodings rests on these laws.
\<close>

locale fixed_codec =
  fixes enc :: "'a \<Rightarrow> bytes result"
    and dec :: "bytes \<Rightarrow> 'a result"
    and ok :: "'a \<Rightarrow> bool"
    and width :: nat
  assumes enc_total: "ok x \<Longrightarrow> \<exists>b. enc x = Inr b \<and> length b = width"
    and dec_enc: "ok x \<Longrightarrow> enc x = Inr b \<Longrightarrow> dec b = Inr x"
    and dec_ok: "dec b = Inr x \<Longrightarrow> ok x \<and> enc x = Inr b"
begin

lemma enc_width: "ok x \<Longrightarrow> enc x = Inr b \<Longrightarrow> length b = width"
  using enc_total [of x] by auto

lemma enc_inj: "ok x \<Longrightarrow> ok y \<Longrightarrow> enc x = enc y \<Longrightarrow> x = y"
proof -
  assume x: "ok x" and y: "ok y" and eq: "enc x = enc y"
  from enc_total [OF x] obtain b where b: "enc x = Inr b" by blast
  from dec_enc [OF x b] dec_enc [OF y] b eq show "x = y" by simp
qed

text \<open>A fixed width splits a concatenation at a known place.\<close>

lemma enc_append_inj:
  assumes "ok x" "ok y" "enc x = Inr a" "enc y = Inr b" "a @ s = b @ t"
  shows "x = y \<and> s = t"
proof -
  from assms have "length a = length b" by (simp add: enc_width)
  with assms(5) have "a = b" "s = t" by auto
  with assms enc_inj show ?thesis by simp
qed

lemma dec_inj: "dec a = Inr x \<Longrightarrow> dec b = Inr x \<Longrightarrow> a = b"
  using dec_ok by (metis sum.inject(2))

lemma dec_width: "dec b = Inr x \<Longrightarrow> length b = width"
  using dec_ok enc_width by blast

end

text \<open>A 32-byte big-endian word: what a signature scalar is on the wire.\<close>

definition word32_dec :: "bytes \<Rightarrow> int result" where
  "word32_dec b =
     (if length b = 32 then Inr (int_from_bytes b) else Inl (ValueError ''not 32 bytes''))"

interpretation word32: fixed_codec "int_to_bytes 32" word32_dec "\<lambda>n. 0 \<le> n \<and> n < 256 ^ 32" 32
proof unfold_locales
  fix n :: int assume "0 \<le> n \<and> n < 256 ^ 32"
  then show "\<exists>b. int_to_bytes 32 n = Inr b \<and> length b = 32"
    using int_to_bytes_ok [of n 32] by simp
next
  fix n b assume "int_to_bytes 32 n = Inr b"
  then show "word32_dec b = Inr n"
    by (simp add: word32_dec_def int_from_to_bytes int_to_bytes_length)
next
  fix b n assume "word32_dec b = Inr n"
  then have b: "length b = 32" and n: "n = int_from_bytes b"
    by (auto simp: word32_dec_def split: if_splits)
  show "(0 \<le> n \<and> n < 256 ^ 32) \<and> int_to_bytes 32 n = Inr b"
    using int_to_from_bytes [of b] int_from_bytes_less [of b] b n by simp
qed

end
