(* ===== verification/Types.thy ===== *)
theory Types
  imports External
begin

text \<open>
  \<open>tempo/types.py\<close>: the coercions every constructor of the package runs its arguments
  through. A \<open>bytes_like\<close> is the run-time type of the argument; \<open>BOther\<close> is any value that
  is neither a string nor bytes-like, with the name of its type. An \<open>Address\<close>, a \<open>Hash32\<close>
  and a \<open>Selector\<close> are bytes (\<open>NewType\<close> changes nothing at run time).
\<close>

datatype bytes_like =
    BStr string
  | BBytes bytes
  | BBytearray bytes
  | BMemoryview bytes
  | BOther string

section \<open>The coercions\<close>

definition type_error :: "'a result" where
  "type_error = Inl (TypeError ''expected str, bytes, bytearray, or memoryview'')"

definition as_bytes :: "ext \<Rightarrow> bytes_like \<Rightarrow> bytes result" where
  "as_bytes E v =
     (case v of
        BStr s \<Rightarrow> if s = '''' \<or> s = ''0x'' then Inr [] else to_bytes_hexstr E s
      | BBytes b \<Rightarrow> Inr b
      | BBytearray b \<Rightarrow> Inr b
      | BMemoryview b \<Rightarrow> Inr b
      | BOther t \<Rightarrow> type_error)"

definition address_of_bytes :: "bytes \<Rightarrow> bytes result" where
  "address_of_bytes b =
     (if length b \<notin> {0, 20} then Inl (ValueError ''address must be 20 bytes (or empty)'')
      else Inr b)"

definition as_address :: "ext \<Rightarrow> bytes_like \<Rightarrow> bytes result" where
  "as_address E v =
     (case v of
        BStr s \<Rightarrow>
          if s = '''' \<or> s = ''0x'' then Inr []
          else bindE (to_bytes_hexstr E s) address_of_bytes
      | BBytes b \<Rightarrow> address_of_bytes b
      | BBytearray b \<Rightarrow> address_of_bytes b
      | BMemoryview b \<Rightarrow> address_of_bytes b
      | BOther t \<Rightarrow> type_error)"

definition as_optional_address :: "ext \<Rightarrow> bytes_like option \<Rightarrow> bytes option result" where
  "as_optional_address E v =
     (case v of
        None \<Rightarrow> Inr None
      | Some w \<Rightarrow>
          bindE (as_bytes E w) (\<lambda>b.
            if b = [] then Inr None
            else bindE (as_address E (BBytes b)) (\<lambda>a. Inr (Some a))))"

definition hash32_of_bytes :: "bytes \<Rightarrow> bytes result" where
  "hash32_of_bytes b =
     (if length b \<noteq> 32 then Inl (ValueError ''hash32 must be 32 bytes'') else Inr b)"

text \<open>Unlike \<open>as_bytes\<close>, the empty string has no branch of its own here.\<close>

definition as_hash32 :: "ext \<Rightarrow> bytes_like \<Rightarrow> bytes result" where
  "as_hash32 E v =
     (case v of
        BStr s \<Rightarrow> bindE (to_bytes_hexstr E s) hash32_of_bytes
      | BBytes b \<Rightarrow> hash32_of_bytes b
      | BBytearray b \<Rightarrow> hash32_of_bytes b
      | BMemoryview b \<Rightarrow> hash32_of_bytes b
      | BOther t \<Rightarrow> type_error)"

definition as_selector :: "ext \<Rightarrow> bytes_like \<Rightarrow> bytes result" where
  "as_selector E v =
     bindE (as_bytes E v) (\<lambda>b.
       if length b \<noteq> 4 then Inl (ValueError ''selector must be exactly 4 bytes'') else Inr b)"

definition validate_nonempty_address :: "bytes \<Rightarrow> unit result" where
  "validate_nonempty_address a =
     (if length a \<noteq> 20 then Inl (ValueError ''address must be exactly 20 bytes'') else Inr ())"

definition to_checksum_str :: "ext \<Rightarrow> bytes_like \<Rightarrow> string result" where
  "to_checksum_str E v =
     bindE (as_bytes E v) (\<lambda>raw.
       if raw = [] then Inr (''0x'' @ concat (replicate 20 ''00''))
       else to_checksum_address E raw)"

section \<open>Facts the constructors use\<close>

lemma as_bytes_BBytes [simp]: "as_bytes E (BBytes b) = Inr b"
  by (simp add: as_bytes_def)

lemma as_address_BBytes: "as_address E (BBytes b) = address_of_bytes b"
  by (simp add: as_address_def)

lemma address_of_bytes_ok [simp]: "length b = 20 \<Longrightarrow> address_of_bytes b = Inr b"
  by (simp add: address_of_bytes_def)

lemma address_of_bytes_Inr_conv [err_simps]:
  "address_of_bytes b = Inr a \<longleftrightarrow> a = b \<and> length b \<in> {0, 20}"
  by (auto simp: address_of_bytes_def)

lemma as_address_20 [simp]: "length b = 20 \<Longrightarrow> as_address E (BBytes b) = Inr b"
  by (simp add: as_address_BBytes)

text \<open>An address is what \<open>as_bytes\<close> gives, and it has 0 or 20 bytes.\<close>

lemma as_address_via_as_bytes: "as_address E v = bindE (as_bytes E v) address_of_bytes"
  by (cases v) (auto simp: as_address_def as_bytes_def address_of_bytes_def type_error_def)

lemma as_address_length: "as_address E v = Inr a \<Longrightarrow> length a \<in> {0, 20}"
  by (auto simp: as_address_via_as_bytes err_simps)

lemma validate_nonempty_address_conv [simp]:
  "validate_nonempty_address a = Inr u \<longleftrightarrow> length a = 20"
  by (simp add: validate_nonempty_address_def)

text \<open>The value of an optional address field: absent, or 20 bytes.\<close>

definition address_opt_ok :: "bytes option \<Rightarrow> bool" where
  "address_opt_ok a \<longleftrightarrow> (case a of None \<Rightarrow> True | Some b \<Rightarrow> length b = 20)"

lemma address_opt_ok_simps [simp]:
  "address_opt_ok None"
  "address_opt_ok (Some b) \<longleftrightarrow> length b = 20"
  by (simp_all add: address_opt_ok_def)

lemma as_optional_address_ok:
  "as_optional_address E v = Inr a \<Longrightarrow> address_opt_ok a"
  by (auto simp: as_optional_address_def as_address_BBytes err_simps split: option.splits if_splits)

lemma as_optional_address_idem:
  "address_opt_ok a \<Longrightarrow> as_optional_address E (map_option BBytes a) = Inr a"
  by (cases a) (auto simp: as_optional_address_def as_address_BBytes address_of_bytes_def)

lemma as_optional_address_None [simp]: "as_optional_address E None = Inr None"
  by (simp add: as_optional_address_def)

lemma as_optional_address_20 [simp]:
  "length b = 20 \<Longrightarrow> as_optional_address E (Some (BBytes b)) = Inr (Some b)"
  using as_optional_address_idem [of "Some b" E] by simp

end
