(* ===== verification/Models.thy ===== *)
theory Models
  imports Types
begin

text \<open>
  \<open>tempo/models.py\<close>, the parts a transaction is made of: \<open>Call\<close>, \<open>AccessListItem\<close> and the
  secp256k1 \<open>Signature\<close>. A class declared with \<open>attrs.define(frozen=True)\<close> is a record of its
  fields; its constructor \<open><class>_init\<close> runs the declared converters in field order, then the
  validators, then \<open>__attrs_post_init__\<close>, and raises what they raise. A frozen instance can
  only come from its constructor, so the predicates \<open><class>_ok\<close>, which every constructor
  establishes, hold of every instance the program can meet.
\<close>

section \<open>Call\<close>

record call =
  call_to :: bytes
  call_value :: int
  call_data :: bytes

definition call_init :: "ext \<Rightarrow> bytes_like \<Rightarrow> int \<Rightarrow> bytes_like \<Rightarrow> call result" where
  "call_init E to val dat =
     bindE (as_address E to) (\<lambda>a.
     bindE (as_bytes E dat) (\<lambda>d.
       if val < 0 then Inl (ValueError ''call.value must be >= 0'')
       else Inr \<lparr>call_to = a, call_value = val, call_data = d\<rparr>))"

definition call_create :: "ext \<Rightarrow> bytes_like \<Rightarrow> int \<Rightarrow> bytes_like \<Rightarrow> call result" where
  "call_create E to val dat = call_init E to val dat"

definition call_as_rlp_list :: "call \<Rightarrow> rlp" where
  "call_as_rlp_list c = RList [RBytes (call_to c), RInt (call_value c), RBytes (call_data c)]"

definition call_ok :: "call \<Rightarrow> bool" where
  "call_ok c \<longleftrightarrow> length (call_to c) \<in> {0, 20} \<and> 0 \<le> call_value c"

lemma call_init_ok: "call_init E to val dat = Inr c \<Longrightarrow> call_ok c"
  by (auto simp: call_init_def call_ok_def err_simps split: if_splits dest: as_address_length)

section \<open>AccessListItem\<close>

record access_list_item =
  al_address :: bytes
  al_storage_keys :: "bytes list"

fun validate_storage_keys :: "bytes list \<Rightarrow> unit result" where
  "validate_storage_keys [] = Inr ()"
| "validate_storage_keys (k # ks) =
     (if length k \<noteq> 32 then Inl (ValueError ''storage key must be 32 bytes'')
      else validate_storage_keys ks)"

definition access_list_item_init :: "ext \<Rightarrow> bytes_like \<Rightarrow> bytes list \<Rightarrow> access_list_item result" where
  "access_list_item_init E address keys =
     bindE (as_address E address) (\<lambda>a.
       if length a \<noteq> 20 then Inl (ValueError ''access list address must be 20 bytes'')
       else bindE (validate_storage_keys keys) (\<lambda>_.
         Inr \<lparr>al_address = a, al_storage_keys = keys\<rparr>))"

definition access_list_item_create ::
    "ext \<Rightarrow> bytes_like \<Rightarrow> bytes_like list \<Rightarrow> access_list_item result" where
  "access_list_item_create E address keys =
     bindE (mapE (as_hash32 E) keys) (\<lambda>ks. access_list_item_init E address ks)"

definition access_list_item_as_rlp_list :: "access_list_item \<Rightarrow> rlp" where
  "access_list_item_as_rlp_list i =
     RList [RBytes (al_address i), RList (map RBytes (al_storage_keys i))]"

definition access_list_item_ok :: "access_list_item \<Rightarrow> bool" where
  "access_list_item_ok i \<longleftrightarrow> length (al_address i) = 20 \<and> list_all (\<lambda>k. length k = 32) (al_storage_keys i)"

lemma validate_storage_keys_conv [simp]:
  "validate_storage_keys ks = Inr u \<longleftrightarrow> list_all (\<lambda>k. length k = 32) ks"
  by (induction ks) auto

lemma access_list_item_init_ok:
  "access_list_item_init E a ks = Inr i \<Longrightarrow> access_list_item_ok i"
  by (auto simp: access_list_item_init_def access_list_item_ok_def err_simps split: if_splits)

text \<open>\<open>as_hash32\<close> has already checked the keys, so \<open>create\<close> only fails on its arguments.\<close>

lemma as_hash32_length: "as_hash32 E v = Inr k \<Longrightarrow> length k = 32"
  by (auto simp: as_hash32_def hash32_of_bytes_def type_error_def err_simps
      split: bytes_like.splits if_splits)

lemma mapE_hash32_lengths: "mapE (as_hash32 E) vs = Inr ks \<Longrightarrow> list_all (\<lambda>k. length k = 32) ks"
  by (auto simp: list_all_iff dest!: mapE_set as_hash32_length)

section \<open>Signature\<close>

record signature =
  sig_r :: int
  sig_s :: int
  sig_v :: int

definition validate_sig_r :: "int \<Rightarrow> unit result" where
  "validate_sig_r r =
     (if \<not> (0 < r \<and> r < SECP256K1_N) then Inl (ValueError ''r must be in (0, secp256k1_n)'')
      else Inr ())"

definition validate_sig_s :: "int \<Rightarrow> unit result" where
  "validate_sig_s s =
     (if \<not> (0 < s \<and> s \<le> SECP256K1_HALF_N)
      then Inl (ValueError ''s must be in (0, secp256k1_n/2] (low-s)'') else Inr ())"

definition validate_sig_v :: "int \<Rightarrow> unit result" where
  "validate_sig_v v =
     (if v \<notin> {0, 1, 27, 28} then Inl (ValueError ''v must be 0, 1, 27, or 28'') else Inr ())"

definition signature_init :: "int \<Rightarrow> int \<Rightarrow> int \<Rightarrow> signature result" where
  "signature_init r s v =
     bindE (validate_sig_r r) (\<lambda>_.
     bindE (validate_sig_s s) (\<lambda>_.
     bindE (validate_sig_v v) (\<lambda>_.
       Inr \<lparr>sig_r = r, sig_s = s, sig_v = v\<rparr>)))"

definition y_parity :: "signature \<Rightarrow> int" where
  "y_parity sg = (if sig_v sg \<in> {0, 1} then sig_v sg else sig_v sg - 27)"

definition sig_to_bytes :: "signature \<Rightarrow> bytes result" where
  "sig_to_bytes sg =
     bindE (int_to_bytes 32 (sig_r sg)) (\<lambda>r.
     bindE (int_to_bytes 32 (sig_s sg)) (\<lambda>s.
     bindE (byte_of_int (sig_v sg)) (\<lambda>v.
       Inr (r @ s @ v))))"

definition sig_to_canonical_bytes :: "signature \<Rightarrow> bytes result" where
  "sig_to_canonical_bytes sg =
     bindE (int_to_bytes 32 (sig_r sg)) (\<lambda>r.
     bindE (int_to_bytes 32 (sig_s sg)) (\<lambda>s.
     bindE (byte_of_int (27 + y_parity sg)) (\<lambda>v.
       Inr (r @ s @ v))))"

definition sig_to_rlp_list :: "signature \<Rightarrow> rlp" where
  "sig_to_rlp_list sg = RList [RInt (y_parity sg), RInt (sig_r sg), RInt (sig_s sg)]"

definition sig_from_bytes :: "bytes \<Rightarrow> signature result" where
  "sig_from_bytes b =
     (if length b \<noteq> 65 then Inl (ValueError ''signature must be 65 bytes'')
      else signature_init (int_from_bytes (take 32 b)) (int_from_bytes (take 32 (drop 32 b)))
             (uint (b ! 64)))"

subsection \<open>The invariant of an instance\<close>

definition signature_ok :: "signature \<Rightarrow> bool" where
  "signature_ok sg \<longleftrightarrow>
     0 < sig_r sg \<and> sig_r sg < SECP256K1_N \<and> 0 < sig_s sg \<and> sig_s sg \<le> SECP256K1_HALF_N \<and>
     sig_v sg \<in> {0, 1, 27, 28}"

lemma signature_init_conv:
  "signature_init r s v = Inr sg \<longleftrightarrow>
     sg = \<lparr>sig_r = r, sig_s = s, sig_v = v\<rparr> \<and> signature_ok sg"
  unfolding signature_init_def validate_sig_r_def validate_sig_s_def validate_sig_v_def
  by (cases "signature_ok \<lparr>sig_r = r, sig_s = s, sig_v = v\<rparr>") (auto simp: signature_ok_def)

lemma signature_init_ok: "signature_init r s v = Inr sg \<Longrightarrow> signature_ok sg"
  unfolding signature_init_conv by blast

lemma signature_ok_bounds:
  assumes "signature_ok sg"
  shows "0 \<le> sig_r sg" "sig_r sg < 256 ^ 32" "0 \<le> sig_s sg" "sig_s sg < 256 ^ 32"
    "0 \<le> sig_v sg" "sig_v sg < 256"
  using assms by (auto simp: signature_ok_def SECP256K1_N_def SECP256K1_HALF_N_def)

lemma byte_of_int_ok [simp]: "0 \<le> v \<Longrightarrow> v < 256 \<Longrightarrow> byte_of_int v = Inr [word_of_int v]"
  by (simp add: byte_of_int_def)

lemma y_parity_cases: "signature_ok sg \<Longrightarrow> y_parity sg \<in> {0, 1}"
  by (auto simp: signature_ok_def y_parity_def)

lemma sig_to_bytes_layout:
  assumes "signature_ok sg"
  shows "sig_to_bytes sg =
    Inr (nat_to_be 32 (nat (sig_r sg)) @ nat_to_be 32 (nat (sig_s sg)) @ [word_of_int (sig_v sg)])"
  using signature_ok_bounds [OF assms] by (simp add: sig_to_bytes_def int_to_bytes_ok)

lemma sig_to_canonical_bytes_layout:
  assumes "signature_ok sg"
  shows "sig_to_canonical_bytes sg =
    Inr (nat_to_be 32 (nat (sig_r sg)) @ nat_to_be 32 (nat (sig_s sg)) @
         [word_of_int (27 + y_parity sg)])"
  using signature_ok_bounds [OF assms] y_parity_cases [OF assms]
  by (auto simp: sig_to_canonical_bytes_def int_to_bytes_ok)

text \<open>The canonical form is the plain form of the signature with \<open>v\<close> moved to 27 or 28.\<close>

definition sig_canonical :: "signature \<Rightarrow> signature" where
  "sig_canonical sg = sg\<lparr>sig_v := 27 + y_parity sg\<rparr>"

lemma sig_canonical_ok: "signature_ok sg \<Longrightarrow> signature_ok (sig_canonical sg)"
  using y_parity_cases [of sg] by (auto simp: sig_canonical_def signature_ok_def)

lemma sig_canonical_bytes: "sig_to_canonical_bytes sg = sig_to_bytes (sig_canonical sg)"
  by (simp add: sig_to_canonical_bytes_def sig_to_bytes_def sig_canonical_def)

lemma sig_canonical_y_parity: "signature_ok sg \<Longrightarrow> y_parity (sig_canonical sg) = y_parity sg"
  by (auto simp: sig_canonical_def y_parity_def signature_ok_def)

subsection \<open>The 65-byte encoding is a fixed-width codec\<close>

lemma sig_to_bytes_total: "signature_ok sg \<Longrightarrow> \<exists>b. sig_to_bytes sg = Inr b \<and> length b = 65"
  by (simp add: sig_to_bytes_layout)

lemma sig_from_to_bytes:
  assumes "signature_ok sg" "sig_to_bytes sg = Inr b"
  shows "sig_from_bytes b = Inr sg"
proof -
  let ?r = "nat_to_be 32 (nat (sig_r sg))" and ?s = "nat_to_be 32 (nat (sig_s sg))"
  note bounds = signature_ok_bounds [OF assms(1)]
  from assms have b: "b = ?r @ ?s @ [word_of_int (sig_v sg)]" by (simp add: sig_to_bytes_layout)
  have "int_from_bytes ?r = sig_r sg" "int_from_bytes ?s = sig_s sg"
    using bounds int_from_to_bytes [of 32] by (simp_all add: int_to_bytes_ok)
  moreover have "uint (word_of_int (sig_v sg) :: byte) = sig_v sg"
    using bounds by (simp add: uint_word_of_int)
  ultimately show ?thesis
    using b assms(1) by (simp add: sig_from_bytes_def nth_append signature_init_conv)
qed

lemma sig_to_from_bytes:
  assumes "sig_from_bytes b = Inr sg"
  shows "signature_ok sg \<and> sig_to_bytes sg = Inr b"
proof -
  let ?r = "take 32 b" and ?s = "take 32 (drop 32 b)"
  from assms have len: "length b = 65" and ok: "signature_ok sg"
    and sg: "sg = \<lparr>sig_r = int_from_bytes ?r, sig_s = int_from_bytes ?s, sig_v = uint (b ! 64)\<rparr>"
    by (auto simp: sig_from_bytes_def signature_init_conv split: if_splits)
  have "b = take 32 b @ drop 32 b" by simp
  also have "drop 32 b = ?s @ drop 64 b"
    by (metis append_take_drop_id drop_drop numeral_Bit0)
  also have "drop 64 b = [b ! 64]"
    using len by (metis Cons_nth_drop_Suc drop_all eval_nat_numeral(3) le_refl lessI numeral_eq_Suc pred_numeral_simps(3))
  finally have split: "b = ?r @ ?s @ [b ! 64]" .
  have "int_to_bytes 32 (int_from_bytes ?r) = Inr ?r" "int_to_bytes 32 (int_from_bytes ?s) = Inr ?s"
    using int_to_from_bytes [of ?r] int_to_from_bytes [of ?s] len by simp_all
  moreover have "byte_of_int (uint (b ! 64)) = Inr [b ! 64]"
    using uint_lt2p [of "b ! 64"] by simp
  ultimately have "sig_to_bytes sg = Inr (?r @ ?s @ [b ! 64])"
    by (simp add: sig_to_bytes_def sg)
  with split ok show ?thesis by simp
qed

interpretation sig65: fixed_codec sig_to_bytes sig_from_bytes signature_ok 65
  by unfold_locales (use sig_to_bytes_total sig_from_to_bytes sig_to_from_bytes in blast)+

section \<open>The wire forms determine the values\<close>

interpretation call_wire: exact_rlp_encoder call_as_rlp_list call_ok id
  by unfold_locales (auto simp: call_as_rlp_list_def call_ok_def min_be_nat_inj)

interpretation access_wire: exact_rlp_encoder access_list_item_as_rlp_list access_list_item_ok id
  by unfold_locales (auto simp: access_list_item_as_rlp_list_def)

text \<open>The fee payer field of a valid signature: parity, \<open>r\<close> and \<open>s\<close>, so all but the spelling of \<open>v\<close>.\<close>

interpretation sig_wire: exact_rlp_encoder sig_to_rlp_list signature_ok sig_canonical
proof unfold_locales
  fix x y assume ok: "signature_ok x" "signature_ok y"
    and "rlp_norm (sig_to_rlp_list x) = rlp_norm (sig_to_rlp_list y)"
  then have "y_parity x = y_parity y" "sig_r x = sig_r y" "sig_s x = sig_s y"
    using y_parity_cases [OF ok(1)] y_parity_cases [OF ok(2)] signature_ok_bounds [OF ok(1)]
      signature_ok_bounds [OF ok(2)]
    by (auto simp: sig_to_rlp_list_def eq_nat_nat_iff)
  then show "sig_canonical x = sig_canonical y" by (simp add: sig_canonical_def)
next
  fix x y assume ok: "signature_ok x" "signature_ok y" and eq: "sig_canonical x = sig_canonical y"
  then have "y_parity x = y_parity y"
    using sig_canonical_y_parity [OF ok(1)] sig_canonical_y_parity [OF ok(2)] by simp
  moreover from eq have "sig_r x = sig_r y" "sig_s x = sig_s y"
    by (metis (no_types) sig_canonical_def signature.select_convs(1) signature.select_convs(2)
        signature.surjective signature.update_convs(3))+
  ultimately show "rlp_norm (sig_to_rlp_list x) = rlp_norm (sig_to_rlp_list y)"
    by (simp add: sig_to_rlp_list_def)
qed

end
