(* ===== verification/Stdlib.thy ===== *)
theory Stdlib
  imports Prelude
begin

text \<open>
  The standard-library functions \<open>tempo/p256.py\<close> calls: \<open>hashlib.sha256\<close> (FIPS 180-4),
  \<open>base64.urlsafe_b64encode\<close>, \<open>json.dumps\<close> of a string, \<open>str.encode\<close>, \<open>int(s, 16)\<close> and the
  format \<open>:064x\<close>. A Python \<open>str\<close> is a list of characters below 256, so texts outside Latin-1
  are not covered.
\<close>

section \<open>SHA-256\<close>

type_synonym w32 = "32 word"

unbundle bit_operations_syntax

text \<open>The round constants, in decimal.\<close>

definition sha256_K :: "w32 list" where
  "sha256_K =
    [1116352408, 1899447441, 3049323471, 3921009573, 961987163, 1508970993, 2453635748, 2870763221,
     3624381080, 310598401, 607225278, 1426881987, 1925078388, 2162078206, 2614888103, 3248222580,
     3835390401, 4022224774, 264347078, 604807628, 770255983, 1249150122, 1555081692, 1996064986,
     2554220882, 2821834349, 2952996808, 3210313671, 3336571891, 3584528711, 113926993, 338241895,
     666307205, 773529912, 1294757372, 1396182291, 1695183700, 1986661051, 2177026350, 2456956037,
     2730485921, 2820302411, 3259730800, 3345764771, 3516065817, 3600352804, 4094571909, 275423344,
     430227734, 506948616, 659060556, 883997877, 958139571, 1322822218, 1537002063, 1747873779,
     1955562222, 2024104815, 2227730452, 2361852424, 2428436474, 2756734187, 3204031479, 3329325298]"

type_synonym sha_state = "w32 \<times> w32 \<times> w32 \<times> w32 \<times> w32 \<times> w32 \<times> w32 \<times> w32"

definition sha256_init :: sha_state where
  "sha256_init =
    (0x6a09e667, 0xbb67ae85, 0x3c6ef372, 0xa54ff53a, 0x510e527f, 0x9b05688c, 0x1f83d9ab, 0x5be0cd19)"

definition sha256_pad :: "bytes \<Rightarrow> bytes" where
  "sha256_pad m =
     m @ [0x80] @ replicate ((119 - length m mod 64) mod 64) 0 @ nat_to_be 8 (8 * length m)"

fun be_words :: "bytes \<Rightarrow> w32 list" where
  "be_words (a # b # c # d # r) = word_of_nat (be_to_nat [a, b, c, d]) # be_words r"
| "be_words _ = []"

text \<open>The message schedule, latest word first.\<close>

fun sha256_schedule :: "nat \<Rightarrow> w32 list \<Rightarrow> w32 list" where
  "sha256_schedule 0 ws = ws"
| "sha256_schedule (Suc n) ws =
     (let x = ws ! 14; y = ws ! 1;
          s0 = word_rotr 7 x XOR word_rotr 18 x XOR drop_bit 3 x;
          s1 = word_rotr 17 y XOR word_rotr 19 y XOR drop_bit 10 y
      in sha256_schedule n ((ws ! 15 + s0 + ws ! 6 + s1) # ws))"

definition sha256_round :: "sha_state \<Rightarrow> w32 \<times> w32 \<Rightarrow> sha_state" where
  "sha256_round st kw =
     (case st of (a, b, c, d, e, f, g, h) \<Rightarrow>
        let s1 = word_rotr 6 e XOR word_rotr 11 e XOR word_rotr 25 e;
            ch = (e AND f) XOR (NOT e AND g);
            t1 = h + s1 + ch + fst kw + snd kw;
            s0 = word_rotr 2 a XOR word_rotr 13 a XOR word_rotr 22 a;
            maj = (a AND b) XOR (a AND c) XOR (b AND c)
        in (t1 + s0 + maj, a, b, c, d + t1, e, f, g))"

definition sha256_block :: "sha_state \<Rightarrow> bytes \<Rightarrow> sha_state" where
  "sha256_block st blk =
     (let ws = rev (sha256_schedule 48 (rev (be_words blk)))
      in case (st, foldl sha256_round st (zip sha256_K ws)) of
           ((a, b, c, d, e, f, g, h), (a', b', c', d', e', f', g', h')) \<Rightarrow>
             (a + a', b + b', c + c', d + d', e + e', f + f', g + g', h + h'))"

function sha256_blocks :: "sha_state \<Rightarrow> bytes \<Rightarrow> sha_state" where
  "sha256_blocks st m =
     (if m = [] then st else sha256_blocks (sha256_block st (take 64 m)) (drop 64 m))"
  by pat_completeness auto
termination
  by (relation "measure (\<lambda>(st, m). length m)") auto

declare sha256_blocks.simps [simp del]

definition sha256 :: "bytes \<Rightarrow> bytes" where
  "sha256 m =
     (case sha256_blocks sha256_init (sha256_pad m) of (a, b, c, d, e, f, g, h) \<Rightarrow>
        concat (map (\<lambda>w. nat_to_be 4 (unat w)) [a, b, c, d, e, f, g, h]))"

lemma length_sha256 [simp]: "length (sha256 m) = 32"
  by (simp add: sha256_def split: prod.split)

section \<open>Text\<close>

text \<open>\<open>s.encode()\<close>: UTF-8.\<close>

fun utf8_encode :: "string \<Rightarrow> bytes" where
  "utf8_encode [] = []"
| "utf8_encode (c # s) =
     (let n = of_char c :: nat in
      if n < 128 then word_of_nat n # utf8_encode s
      else word_of_nat (192 + n div 64) # word_of_nat (128 + n mod 64) # utf8_encode s)"

definition b64_char :: "nat \<Rightarrow> char" where
  "b64_char n = (''ABCDEFGHIJKLMNOPQRSTUVWXYZabcdefghijklmnopqrstuvwxyz0123456789-_'') ! n"

text \<open>\<open>urlsafe_b64encode\<close>, padded.\<close>

fun urlsafe_b64encode :: "bytes \<Rightarrow> string" where
  "urlsafe_b64encode [] = []"
| "urlsafe_b64encode [a] =
     (let n = unat a * 16 in [b64_char (n div 64), b64_char (n mod 64), CHR ''='', CHR ''='' ])"
| "urlsafe_b64encode [a, b] =
     (let n = (unat a * 256 + unat b) * 4 in
      [b64_char (n div 4096), b64_char (n div 64 mod 64), b64_char (n mod 64), CHR ''='' ])"
| "urlsafe_b64encode (a # b # c # r) =
     (let n = (unat a * 256 + unat b) * 256 + unat c in
      [b64_char (n div 262144), b64_char (n div 4096 mod 64), b64_char (n div 64 mod 64),
       b64_char (n mod 64)] @ urlsafe_b64encode r)"

definition rstrip :: "char \<Rightarrow> string \<Rightarrow> string" where
  "rstrip c s = rev (dropWhile (\<lambda>x. x = c) (rev s))"

text \<open>A string in \<open>json.dumps\<close> with \<open>ensure_ascii\<close>: what is not printable ASCII is escaped.\<close>

definition json_escape :: "char \<Rightarrow> string" where
  "json_escape c =
     (let n = of_char c :: nat in
      if n = 34 then [CHR 0x5C, CHR 0x22]
      else if n = 92 then [CHR 0x5C, CHR 0x5C]
      else if n = 8 then [CHR 0x5C, CHR ''b'']
      else if n = 9 then [CHR 0x5C, CHR ''t'']
      else if n = 10 then [CHR 0x5C, CHR ''n'']
      else if n = 12 then [CHR 0x5C, CHR ''f'']
      else if n = 13 then [CHR 0x5C, CHR ''r'']
      else if n < 32 \<or> 126 < n
        then [CHR 0x5C] @ ''u00'' @ [hex_digit (n div 16), hex_digit (n mod 16)]
      else [c])"

definition json_string :: "string \<Rightarrow> string" where
  "json_string s = [CHR 0x22] @ concat (map json_escape s) @ [CHR 0x22]"

section \<open>Integers in base 16\<close>

definition is_space :: "char \<Rightarrow> bool" where
  "is_space c =
     (let n = of_char c :: nat in
      n = 32 \<or> (9 \<le> n \<and> n \<le> 13) \<or> (28 \<le> n \<and> n \<le> 31) \<or> n = 133 \<or> n = 160)"

definition py_strip :: "string \<Rightarrow> string" where
  "py_strip s = rev (dropWhile is_space (rev (dropWhile is_space s)))"

text \<open>The digits after the first one: a single underscore may stand between two digits.\<close>

fun hex_digits_tail :: "nat \<Rightarrow> string \<Rightarrow> nat option" where
  "hex_digits_tail a [] = Some a"
| "hex_digits_tail a [c] = map_option (\<lambda>v. 16 * a + v) (hex_val c)"
| "hex_digits_tail a (c # d # s) =
     (if c = CHR ''_'' then
        (case hex_val d of None \<Rightarrow> None | Some v \<Rightarrow> hex_digits_tail (16 * a + v) s)
      else (case hex_val c of None \<Rightarrow> None | Some v \<Rightarrow> hex_digits_tail (16 * a + v) (d # s)))"

definition hex_digits :: "string \<Rightarrow> nat option" where
  "hex_digits s =
     (case s of
        [] \<Rightarrow> None
      | c # r \<Rightarrow> (case hex_val c of None \<Rightarrow> None | Some v \<Rightarrow> hex_digits_tail v r))"

definition strip_0x :: "string \<Rightarrow> string" where
  "strip_0x s =
     (case s of
        c # d # r \<Rightarrow>
          if c = CHR ''0'' \<and> (d = CHR ''x'' \<or> d = CHR ''X'')
          then (case r of e # r' \<Rightarrow> if e = CHR ''_'' then r' else r | [] \<Rightarrow> r)
          else s
      | _ \<Rightarrow> s)"

text \<open>\<open>int(s, 16)\<close>.\<close>

definition py_int16 :: "string \<Rightarrow> int result" where
  "py_int16 s =
     (let t = py_strip s;
          (neg, u) =
            (case t of
               c # r \<Rightarrow> if c = CHR ''-'' then (True, r) else if c = CHR ''+'' then (False, r) else (False, t)
             | [] \<Rightarrow> (False, t))
      in case hex_digits (strip_0x u) of
           None \<Rightarrow> Inl (ValueError ''invalid literal for int() with base 16'')
         | Some n \<Rightarrow> Inr (if neg then - int n else int n))"

text \<open>The format \<open>:x\<close> of a non-negative integer, and \<open>:064x\<close>.\<close>

fun hex_nat :: "nat \<Rightarrow> string" where
  "hex_nat n = (if n < 16 then [hex_digit n] else hex_nat (n div 16) @ [hex_digit (n mod 16)])"

declare hex_nat.simps [simp del]

definition zfill :: "nat \<Rightarrow> string \<Rightarrow> string" where
  "zfill w s = replicate (w - length s) (CHR ''0'') @ s"

subsection \<open>Reading back what the formats print\<close>

definition hex_fold :: "nat \<Rightarrow> string \<Rightarrow> nat" where
  "hex_fold a s = foldl (\<lambda>a c. 16 * a + the (hex_val c)) a s"

definition is_hex :: "char \<Rightarrow> bool" where
  "is_hex c \<longleftrightarrow> hex_val c \<noteq> None"

lemma is_hex_digit [simp]: "n < 16 \<Longrightarrow> is_hex (hex_digit n)"
  by (simp add: is_hex_def)

lemma hex_digits_tail_fold: "list_all is_hex s \<Longrightarrow> hex_digits_tail a s = Some (hex_fold a s)"
proof (induction a s rule: hex_digits_tail.induct)
  case (1 a)
  then show ?case by (simp add: hex_fold_def)
next
  case (2 a c)
  then show ?case by (auto simp: hex_fold_def is_hex_def)
next
  case (3 a c d s)
  then have "hex_val c \<noteq> None" by (simp add: is_hex_def)
  moreover from this have "c \<noteq> CHR ''_''" by (auto simp: hex_val_def)
  ultimately show ?case using 3 by (auto simp: hex_fold_def)
qed

lemma hex_digits_fold: "s \<noteq> [] \<Longrightarrow> list_all is_hex s \<Longrightarrow> hex_digits s = Some (hex_fold 0 s)"
  by (cases s) (auto simp: hex_digits_def hex_digits_tail_fold hex_fold_def is_hex_def)

lemma hex_fold_append: "hex_fold a (s @ t) = hex_fold (hex_fold a s) t"
  by (simp add: hex_fold_def)

lemma hex_nat_hex: "list_all is_hex (hex_nat n)"
  by (induction n rule: hex_nat.induct) (subst hex_nat.simps, simp)

lemma hex_fold_hex_nat: "hex_fold 0 (hex_nat n) = n"
proof (induction n rule: hex_nat.induct)
  case (1 n)
  then show ?case by (subst hex_nat.simps) (simp add: hex_fold_append, simp add: hex_fold_def)
qed

lemma hex_val_0: "hex_val (CHR ''0'') = Some 0"
  by (simp add: hex_val_def)

lemma hex_fold_zeros: "hex_fold 0 (replicate k (CHR ''0'')) = 0"
  by (induction k) (simp_all add: hex_fold_def hex_val_0)

lemma hex_nat_nonempty [simp]: "hex_nat n \<noteq> []"
  by (subst hex_nat.simps) simp

lemma is_hex_not_space: "is_hex c \<Longrightarrow> \<not> is_space c"
  by (auto simp: is_hex_def is_space_def hex_val_def Let_def split: if_splits)

lemma dropWhile_hd: "xs \<noteq> [] \<Longrightarrow> \<not> P (hd xs) \<Longrightarrow> dropWhile P xs = xs"
  by (cases xs) auto

text \<open>\<open>int(f"0x{n:064x}", 16) == n\<close>.\<close>

lemma py_int16_hex: "py_int16 (''0x'' @ zfill w (hex_nat n)) = Inr (int n)"
proof -
  let ?t = "zfill w (hex_nat n)"
  have hex: "list_all is_hex ?t"
    using hex_nat_hex [of n] by (simp add: zfill_def) (simp add: is_hex_def hex_val_0 list_all_iff)
  have ne: "?t \<noteq> []" by (simp add: zfill_def)
  have "is_hex (last ?t)" using hex ne by (simp add: list_all_iff)
  then have "py_strip (''0x'' @ ?t) = ''0x'' @ ?t"
    using ne unfolding py_strip_def
    by (subst dropWhile_hd [of "''0x'' @ ?t"], simp_all add: is_space_def)
       (subst dropWhile_hd, simp_all add: hd_rev is_hex_not_space flip: is_space_def)
  moreover have "hd ?t \<noteq> CHR ''_''"
    using hex ne by (cases ?t) (auto simp: is_hex_def hex_val_def)
  then have "strip_0x (''0x'' @ ?t) = ?t"
    using ne by (cases ?t) (auto simp: strip_0x_def)
  moreover have "hex_digits ?t = Some n"
    using hex ne by (simp add: hex_digits_fold) (simp add: zfill_def hex_fold_append hex_fold_zeros hex_fold_hex_nat)
  ultimately show ?thesis by (simp add: py_int16_def)
qed

lemma hex_nat_length: "n < 16 ^ k \<Longrightarrow> 0 < k \<Longrightarrow> length (hex_nat n) \<le> k"
proof (induction k arbitrary: n)
  case 0
  then show ?case by simp
next
  case (Suc k)
  show ?case
  proof (cases "n < 16")
    case True
    then show ?thesis by (subst hex_nat.simps) simp
  next
    case False
    with Suc.prems have "k \<noteq> 0" "n div 16 < 16 ^ k" by (cases k, auto simp: less_mult_imp_div_less)
    with Suc.IH [of "n div 16"] False show ?thesis by (subst hex_nat.simps) simp
  qed
qed

lemma length_zfill: "length s \<le> w \<Longrightarrow> length (zfill w s) = w"
  by (simp add: zfill_def)

end
