(* ===== verification/P256.thy ===== *)
theory P256
  imports Types Stdlib
begin

text \<open>
  \<open>tempo/p256.py\<close>: P-256 and WebAuthn signature envelopes and the software signer. The
  attrs class hierarchy is record extension: \<open>p256_signature\<close> and \<open>webauthn_signature\<close>
  extend \<open>p256_envelope\<close>, and an operation of the base class is polymorphic in the
  extension. ECDSA signatures are randomised, so a signing operation takes the randomness
  \<open>\<rho>\<close> as an argument.
\<close>

definition P256_SIGNATURE_TYPE :: int where "P256_SIGNATURE_TYPE = 0x01"
definition WEBAUTHN_SIGNATURE_TYPE :: int where "WEBAUTHN_SIGNATURE_TYPE = 0x02"

definition P256_HALF_N :: int where "P256_HALF_N = P256_N div 2"

definition UP :: int where "UP = 0x01"
definition UV :: int where "UV = 0x04"
definition AUTH_DATA_LENGTH :: nat where "AUTH_DATA_LENGTH = 37"

section \<open>Hashes and WebAuthn data\<close>

definition derive_address :: "ext \<Rightarrow> bytes_like \<Rightarrow> bytes_like \<Rightarrow> bytes result" where
  "derive_address E x y =
     bindE (as_bytes E x) (\<lambda>xb.
     bindE (as_bytes E y) (\<lambda>yb.
       let coords = xb @ yb in
       if length coords \<noteq> 64
       then Inl (ValueError ''public key must be two 32-byte coordinates'')
       else Inr (drop 12 (keccak256 E coords))))"

definition webauthn_challenge :: "ext \<Rightarrow> bytes_like \<Rightarrow> string result" where
  "webauthn_challenge E sig_hash =
     bindE (as_bytes E sig_hash) (\<lambda>h. Inr (rstrip (CHR ''='') (urlsafe_b64encode h)))"

definition webauthn_message_hash :: "ext \<Rightarrow> bytes_like \<Rightarrow> bytes_like \<Rightarrow> bytes result" where
  "webauthn_message_hash E authenticator_data client_data_json =
     bindE (as_bytes E authenticator_data) (\<lambda>a.
     bindE (as_bytes E client_data_json) (\<lambda>c. Inr (sha256 (a @ sha256 c))))"

definition build_authenticator_data :: "string \<Rightarrow> int \<Rightarrow> int \<Rightarrow> bytes result" where
  "build_authenticator_data rp_id flags sign_count =
     bindE (byte_of_int flags) (\<lambda>f.
     bindE (int_to_bytes 4 sign_count) (\<lambda>c.
       Inr (sha256 (utf8_encode rp_id) @ f @ c)))"

definition build_client_data_json :: "ext \<Rightarrow> bytes_like \<Rightarrow> string \<Rightarrow> string \<Rightarrow> bytes result" where
  "build_client_data_json E sig_hash origin type_field =
     bindE (webauthn_challenge E sig_hash) (\<lambda>challenge.
       Inr (utf8_encode
         (''{'' @ json_string ''type'' @ '':'' @ json_string type_field
          @ '','' @ json_string ''challenge'' @ '':'' @ json_string challenge
          @ '','' @ json_string ''origin'' @ '':'' @ json_string origin
          @ '','' @ json_string ''crossOrigin'' @ '':'' @ ''false'' @ ''}'')))"

section \<open>Field validation\<close>

definition validate_coordinate :: "bytes \<Rightarrow> unit result" where
  "validate_coordinate b =
     (if length b \<noteq> 32 then Inl (ValueError ''must be 32 bytes'') else Inr ())"

definition validate_scalar :: "bytes \<Rightarrow> unit result" where
  "validate_scalar b =
     bindE (validate_coordinate b) (\<lambda>_.
       let number = int_from_bytes b in
       if \<not> (0 < number \<and> number < P256_N)
       then Inl (ValueError ''must be in (0, p256_n)'') else Inr ())"

definition validate_low_s :: "bytes \<Rightarrow> unit result" where
  "validate_low_s b =
     bindE (validate_scalar b) (\<lambda>_.
       let number = int_from_bytes b in
       if P256_HALF_N < number
       then Inl (ValueError ''s must be in low-s canonical form: (0, p256_n/2]'') else Inr ())"

definition validate_authenticator_data :: "bytes \<Rightarrow> unit result" where
  "validate_authenticator_data b =
     (if length b \<noteq> AUTH_DATA_LENGTH
      then Inl (ValueError ''authenticator_data must be 37 bytes'') else Inr ())"

section \<open>The signature envelopes\<close>

record p256_envelope =
  env_r :: bytes
  env_s :: bytes
  env_pub_key_x :: bytes
  env_pub_key_y :: bytes

record p256_signature = p256_envelope +
  pre_hash :: bool

record webauthn_signature = p256_envelope +
  authenticator_data :: bytes
  client_data_json :: bytes

text \<open>The converters of the four base fields, then their validators, in field order.\<close>

definition envelope_convert ::
    "ext \<Rightarrow> bytes_like \<Rightarrow> bytes_like \<Rightarrow> bytes_like \<Rightarrow> bytes_like \<Rightarrow> p256_envelope result" where
  "envelope_convert E r s x y =
     bindE (as_bytes E r) (\<lambda>r'. bindE (as_bytes E s) (\<lambda>s'.
     bindE (as_bytes E x) (\<lambda>x'. bindE (as_bytes E y) (\<lambda>y'.
       Inr \<lparr>env_r = r', env_s = s', env_pub_key_x = x', env_pub_key_y = y'\<rparr>))))"

definition envelope_validate :: "'a p256_envelope_scheme \<Rightarrow> unit result" where
  "envelope_validate e =
     bindE (validate_scalar (env_r e)) (\<lambda>_. bindE (validate_low_s (env_s e)) (\<lambda>_.
     bindE (validate_coordinate (env_pub_key_x e)) (\<lambda>_. validate_coordinate (env_pub_key_y e))))"

definition p256_signature_init ::
    "ext \<Rightarrow> bytes_like \<Rightarrow> bytes_like \<Rightarrow> bytes_like \<Rightarrow> bytes_like \<Rightarrow> bool \<Rightarrow> p256_signature result" where
  "p256_signature_init E r s x y ph =
     bindE (envelope_convert E r s x y) (\<lambda>e.
     bindE (envelope_validate e) (\<lambda>_.
       Inr (p256_envelope.extend e (p256_signature.fields ph))))"

definition webauthn_signature_init ::
    "ext \<Rightarrow> bytes_like \<Rightarrow> bytes_like \<Rightarrow> bytes_like \<Rightarrow> bytes_like \<Rightarrow> bytes_like \<Rightarrow> bytes_like
       \<Rightarrow> webauthn_signature result" where
  "webauthn_signature_init E r s x y a c =
     bindE (envelope_convert E r s x y) (\<lambda>e.
     bindE (as_bytes E a) (\<lambda>a'. bindE (as_bytes E c) (\<lambda>c'.
     bindE (envelope_validate e) (\<lambda>_.
     bindE (validate_authenticator_data a') (\<lambda>_.
       Inr (p256_envelope.extend e (webauthn_signature.fields a' c')))))))"

definition envelope_address :: "ext \<Rightarrow> 'a p256_envelope_scheme \<Rightarrow> bytes result" where
  "envelope_address E e =
     derive_address E (BBytes (env_pub_key_x e)) (BBytes (env_pub_key_y e))"

text \<open>
  The key is built outside the \<open>try\<close>, so a point off the curve raises; a \<open>ValueError\<close> inside
  it, from the coercion of the hash or from the verification, is the answer \<open>False\<close>.
\<close>

definition envelope_verify :: "ext \<Rightarrow> 'a p256_envelope_scheme \<Rightarrow> bytes_like \<Rightarrow> bool result" where
  "envelope_verify E e message_hash =
     (let x = int_from_bytes (env_pub_key_x e); y = int_from_bytes (env_pub_key_y e) in
      bindE (ecc_construct_xy E x y) (\<lambda>_.
        case as_bytes E message_hash of
          Inl (ValueError m) \<Rightarrow> Inr False
        | Inl err \<Rightarrow> Inl err
        | Inr h \<Rightarrow> Inr (dss_verify E x y h (env_r e @ env_s e))))"

definition p256_verify :: "ext \<Rightarrow> p256_signature \<Rightarrow> bytes_like \<Rightarrow> bool result" where
  "p256_verify E sg message_hash =
     bindE (as_bytes E message_hash) (\<lambda>payload.
       envelope_verify E sg (BBytes (if pre_hash sg then sha256 payload else payload)))"

definition p256_to_bytes :: "p256_signature \<Rightarrow> bytes result" where
  "p256_to_bytes sg =
     bindE (byte_of_int P256_SIGNATURE_TYPE) (\<lambda>prefix.
     bindE (byte_of_int (if pre_hash sg then 1 else 0)) (\<lambda>ph.
       Inr (prefix @ env_r sg @ env_s sg @ env_pub_key_x sg @ env_pub_key_y sg @ ph)))"

definition webauthn_sig_message_hash :: "ext \<Rightarrow> webauthn_signature \<Rightarrow> bytes result" where
  "webauthn_sig_message_hash E sg =
     webauthn_message_hash E (BBytes (authenticator_data sg)) (BBytes (client_data_json sg))"

definition webauthn_verify :: "ext \<Rightarrow> webauthn_signature \<Rightarrow> bytes_like option \<Rightarrow> bool result" where
  "webauthn_verify E sg message_hash =
     (case message_hash of
        None \<Rightarrow> bindE (webauthn_sig_message_hash E sg) (\<lambda>h. envelope_verify E sg (BBytes h))
      | Some h \<Rightarrow> envelope_verify E sg h)"

definition webauthn_to_bytes :: "webauthn_signature \<Rightarrow> bytes result" where
  "webauthn_to_bytes sg =
     bindE (byte_of_int WEBAUTHN_SIGNATURE_TYPE) (\<lambda>t.
       Inr (t @ authenticator_data sg @ client_data_json sg
            @ env_r sg @ env_s sg @ env_pub_key_x sg @ env_pub_key_y sg))"

section \<open>The signer\<close>

record p256_signer =
  key_d :: int
  key_x :: bytes
  key_y :: bytes

definition p256_signer_init :: "ext \<Rightarrow> string \<Rightarrow> p256_signer result" where
  "p256_signer_init E private_key_hex =
     bindE (py_int16 private_key_hex) (\<lambda>d.
     bindE (ecc_public E d) (\<lambda>(x, y).
     bindE (int_to_bytes 32 x) (\<lambda>xb.
     bindE (int_to_bytes 32 y) (\<lambda>yb.
       Inr \<lparr>key_d = d, key_x = xb, key_y = yb\<rparr>))))"

definition p256_format_key :: "int \<Rightarrow> string" where
  "p256_format_key d = ''0x'' @ zfill 64 (hex_nat (nat d))"

definition p256_generate :: "ext \<Rightarrow> bytes \<Rightarrow> p256_signer result" where
  "p256_generate E \<rho> = p256_signer_init E (p256_format_key (ecc_generate E \<rho>))"

definition p256_private_key :: "p256_signer \<Rightarrow> string" where
  "p256_private_key k = p256_format_key (key_d k)"

definition p256_address :: "ext \<Rightarrow> p256_signer \<Rightarrow> bytes result" where
  "p256_address E k = derive_address E (BBytes (key_x k)) (BBytes (key_y k))"

definition p256_checksum_address :: "ext \<Rightarrow> p256_signer \<Rightarrow> string result" where
  "p256_checksum_address E k = bindE (p256_address E k) (to_checksum_address E)"

definition p256_sign_raw :: "ext \<Rightarrow> p256_signer \<Rightarrow> bytes \<Rightarrow> bytes \<Rightarrow> (bytes \<times> bytes) result" where
  "p256_sign_raw E k \<rho> message_hash =
     (let raw = dss_sign E (key_d k) \<rho> message_hash;
          s = int_from_bytes (drop 32 raw)
      in bindE (int_to_bytes 32 (min s (P256_N - s))) (\<lambda>sb. Inr (take 32 raw, sb)))"

definition p256_sign :: "ext \<Rightarrow> p256_signer \<Rightarrow> bytes \<Rightarrow> bytes_like \<Rightarrow> bool \<Rightarrow> p256_signature result" where
  "p256_sign E k \<rho> message_hash ph =
     bindE (as_bytes E message_hash) (\<lambda>payload.
       if length payload \<noteq> 32 then Inl (ValueError ''message hash must be 32 bytes'')
       else bindE (p256_sign_raw E k \<rho> (if ph then sha256 payload else payload)) (\<lambda>(r, s).
         p256_signature_init E (BBytes r) (BBytes s) (BBytes (key_x k)) (BBytes (key_y k)) ph))"

definition p256_sign_webauthn ::
    "ext \<Rightarrow> p256_signer \<Rightarrow> bytes \<Rightarrow> bytes_like \<Rightarrow> string \<Rightarrow> string option \<Rightarrow> int \<Rightarrow> int
       \<Rightarrow> webauthn_signature result" where
  "p256_sign_webauthn E k \<rho> message_hash rp_id origin flags sign_count =
     bindE (build_authenticator_data rp_id flags sign_count) (\<lambda>a.
     bindE (build_client_data_json E message_hash
              (case origin of None \<Rightarrow> ''https://'' @ rp_id
               | Some s \<Rightarrow> if s = '''' then ''https://'' @ rp_id else s) ''webauthn.get'') (\<lambda>c.
     bindE (webauthn_message_hash E (BBytes a) (BBytes c)) (\<lambda>h.
     bindE (p256_sign_raw E k \<rho> h) (\<lambda>(r, s).
       webauthn_signature_init E (BBytes r) (BBytes s) (BBytes (key_x k)) (BBytes (key_y k))
         (BBytes a) (BBytes c)))))"

section \<open>The invariant of an envelope\<close>

definition envelope_ok :: "'a p256_envelope_scheme \<Rightarrow> bool" where
  "envelope_ok e \<longleftrightarrow>
     length (env_r e) = 32 \<and> 0 < int_from_bytes (env_r e) \<and> int_from_bytes (env_r e) < P256_N \<and>
     length (env_s e) = 32 \<and> 0 < int_from_bytes (env_s e) \<and> int_from_bytes (env_s e) \<le> P256_HALF_N \<and>
     length (env_pub_key_x e) = 32 \<and> length (env_pub_key_y e) = 32"

lemma P256_HALF_N_less: "\<not> n < P256_N \<Longrightarrow> P256_HALF_N < n"
  by (simp add: P256_HALF_N_def P256_N_def)

lemma envelope_validate_conv [simp]: "envelope_validate e = Inr u \<longleftrightarrow> envelope_ok e"
  by (auto simp: envelope_validate_def envelope_ok_def validate_scalar_def validate_low_s_def
      validate_coordinate_def bindE_Inr_conv Let_def dest: P256_HALF_N_less)

lemma envelope_validate_ok [simp]: "envelope_ok e \<Longrightarrow> envelope_validate e = Inr ()"
  using envelope_validate_conv [of e "()"] by blast

lemma envelope_convert_BBytes [simp]:
  "envelope_convert E (BBytes r) (BBytes s) (BBytes x) (BBytes y) =
     Inr \<lparr>env_r = r, env_s = s, env_pub_key_x = x, env_pub_key_y = y\<rparr>"
  by (simp add: envelope_convert_def)

lemma envelope_ok_extend [simp]: "envelope_ok (p256_envelope.extend e m) \<longleftrightarrow> envelope_ok e"
  by (simp add: envelope_ok_def p256_envelope.extend_def)

lemma p256_signature_init_ok: "p256_signature_init E r s x y ph = Inr sg \<Longrightarrow> envelope_ok sg"
  by (auto simp: p256_signature_init_def bindE_Inr_conv)

lemma webauthn_signature_init_ok:
  "webauthn_signature_init E r s x y a c = Inr sg \<Longrightarrow>
     envelope_ok sg \<and> length (authenticator_data sg) = 37"
  by (auto simp: webauthn_signature_init_def validate_authenticator_data_def AUTH_DATA_LENGTH_def
      bindE_Inr_conv p256_envelope.extend_def webauthn_signature.fields_def envelope_ok_def
      split: if_splits)

lemma p256_to_bytes_layout:
  "p256_to_bytes sg =
     Inr (1 # env_r sg @ env_s sg @ env_pub_key_x sg @ env_pub_key_y sg @ [if pre_hash sg then 1 else 0])"
  by (simp add: p256_to_bytes_def P256_SIGNATURE_TYPE_def byte_of_int_def)

lemma webauthn_to_bytes_layout:
  "webauthn_to_bytes sg =
     Inr (2 # authenticator_data sg @ client_data_json sg @
          env_r sg @ env_s sg @ env_pub_key_x sg @ env_pub_key_y sg)"
  by (simp add: webauthn_to_bytes_def WEBAUTHN_SIGNATURE_TYPE_def byte_of_int_def)

section \<open>The 130-byte envelope is a fixed-width codec\<close>

text \<open>
  The layout the module documents, read back: type byte, four 32-byte fields, the pre-hash
  flag. The package only writes this form; the parser is the specification of the layout.
\<close>

definition p256_parse :: "bytes \<Rightarrow> p256_signature result" where
  "p256_parse b =
     (if length b \<noteq> 130 \<or> b ! 0 \<noteq> 1 \<or> b ! 129 \<notin> {0, 1} then Inl (ValueError ''not a P-256 envelope'')
      else
        let sg = \<lparr>env_r = take 32 (drop 1 b), env_s = take 32 (drop 33 b),
                   env_pub_key_x = take 32 (drop 65 b), env_pub_key_y = take 32 (drop 97 b),
                   pre_hash = (b ! 129 = 1)\<rparr>
        in bindE (envelope_validate sg) (\<lambda>_. Inr sg))"

lemma p256_parse_to_bytes:
  assumes "envelope_ok sg" "p256_to_bytes sg = Inr b"
  shows "p256_parse b = Inr sg"
proof -
  have len: "length (env_r sg) = 32" "length (env_s sg) = 32"
    "length (env_pub_key_x sg) = 32" "length (env_pub_key_y sg) = 32"
    using assms(1) by (simp_all add: envelope_ok_def)
  have b: "b = 1 # env_r sg @ env_s sg @ env_pub_key_x sg @ env_pub_key_y sg @
      [if pre_hash sg then 1 else 0]"
    using assms(2) by (simp add: p256_to_bytes_layout)
  have sg: "\<lparr>env_r = take 32 (drop 1 b), env_s = take 32 (drop 33 b),
      env_pub_key_x = take 32 (drop 65 b), env_pub_key_y = take 32 (drop 97 b),
      pre_hash = (b ! 129 = 1)\<rparr> = sg"
    using len by (simp add: b nth_append)
  have "length b = 130" "b ! 0 = 1" "b ! 129 \<in> {0, 1}"
    using len by (simp_all add: b nth_append)
  then show ?thesis using assms(1) by (simp add: p256_parse_def Let_def sg del: One_nat_def)
qed

lemma split_at_32: "length b = 32 + n \<Longrightarrow> b = take 32 b @ drop 32 b \<and> length (drop 32 b) = n"
  by simp

lemma p256_to_bytes_parse:
  assumes "p256_parse b = Inr sg"
  shows "envelope_ok sg \<and> p256_to_bytes sg = Inr b"
proof -
  from assms have len: "length b = 130" and t: "b ! 0 = 1" and f: "b ! 129 \<in> {0, 1}"
    and ok: "envelope_ok sg"
    and sg: "sg = \<lparr>env_r = take 32 (drop 1 b), env_s = take 32 (drop 33 b),
       env_pub_key_x = take 32 (drop 65 b), env_pub_key_y = take 32 (drop 97 b),
       pre_hash = (b ! 129 = 1)\<rparr>"
    by (auto simp: p256_parse_def Let_def bindE_Inr_conv split: if_splits)
  have "b = b ! 0 # drop 1 b"
    using len Cons_nth_drop_Suc [of 0 b] by simp
  also have "drop 1 b = take 32 (drop 1 b) @ drop 33 b"
    using append_take_drop_id [of 32 "drop 1 b"] by simp
  also have "drop 33 b = take 32 (drop 33 b) @ drop 65 b"
    using append_take_drop_id [of 32 "drop 33 b"] by simp
  also have "drop 65 b = take 32 (drop 65 b) @ drop 97 b"
    using append_take_drop_id [of 32 "drop 65 b"] by simp
  also have "drop 97 b = take 32 (drop 97 b) @ drop 129 b"
    using append_take_drop_id [of 32 "drop 97 b"] by simp
  also have "drop 129 b = [b ! 129]"
    using len Cons_nth_drop_Suc [of 129 b] by simp
  finally have "b = 1 # take 32 (drop 1 b) @ take 32 (drop 33 b) @ take 32 (drop 65 b) @
      take 32 (drop 97 b) @ [b ! 129]"
    by (simp only: t append_assoc)
  moreover have "[b ! 129] = [if b ! 129 = 1 then 1 else 0]" using f by auto
  ultimately show ?thesis using ok by (simp add: p256_to_bytes_layout sg)
qed

interpretation p256_130: fixed_codec p256_to_bytes p256_parse envelope_ok 130
proof unfold_locales
  fix sg :: p256_signature assume "envelope_ok sg"
  then show "\<exists>b. p256_to_bytes sg = Inr b \<and> length b = 130"
    by (simp add: p256_to_bytes_layout envelope_ok_def)
qed (use p256_parse_to_bytes p256_to_bytes_parse in blast)+

section \<open>Signing\<close>

text \<open>A signer holds the public key of its secret.\<close>

definition p256_signer_ok :: "ext \<Rightarrow> p256_signer \<Rightarrow> bool" where
  "p256_signer_ok E k \<longleftrightarrow>
     (\<exists>x y. ecc_public E (key_d k) = Inr (x, y) \<and>
        int_to_bytes 32 x = Inr (key_x k) \<and> int_to_bytes 32 y = Inr (key_y k))"

lemma p256_signer_init_ok: "p256_signer_init E s = Inr k \<Longrightarrow> p256_signer_ok E k"
  by (auto simp: p256_signer_init_def p256_signer_ok_def bindE_Inr_conv)

lemma p256_low_s:
  assumes "0 < s" "s < P256_N"
  shows "0 < min s (P256_N - s)" "min s (P256_N - s) \<le> P256_HALF_N" "min s (P256_N - s) < 256 ^ 32"
  using assms by (auto simp: P256_HALF_N_def P256_N_def min_def)

lemma int_from_bytes_nat_to_be: "int n < 256 ^ k \<Longrightarrow> int_from_bytes (nat_to_be k n) = int n"
  using int_from_to_bytes [of k "int n"] by (simp add: int_to_bytes_ok)

text \<open>
  The raw signature over a 32-byte digest is normalised to low-s and still verifies under
  the signer's key.
\<close>

lemma p256_sign_raw_ok:
  assumes E: "p256_ok E" and k: "p256_signer_ok E k" and h: "length h = 32"
  obtains r s where "p256_sign_raw E k \<rho> h = Inr (r, s)"
    "envelope_ok \<lparr>env_r = r, env_s = s, env_pub_key_x = key_x k, env_pub_key_y = key_y k\<rparr>"
    "ecc_construct_xy E (int_from_bytes (key_x k)) (int_from_bytes (key_y k)) = Inr ()"
    "dss_verify E (int_from_bytes (key_x k)) (int_from_bytes (key_y k)) h (r @ s)"
proof -
  from k obtain x y where pub: "ecc_public E (key_d k) = Inr (x, y)"
    and xy: "int_to_bytes 32 x = Inr (key_x k)" "int_to_bytes 32 y = Inr (key_y k)"
    by (auto simp: p256_signer_ok_def)
  then have keys: "int_from_bytes (key_x k) = x" "int_from_bytes (key_y k) = y"
    "length (key_x k) = 32" "length (key_y k) = 32"
    by (auto dest: int_from_to_bytes int_to_bytes_length)
  from E pub h have "ecc_construct_xy E x y = Inr () \<and>
    (\<exists>r s. dss_sign E (key_d k) \<rho> h = nat_to_be 32 r @ nat_to_be 32 s \<and>
      0 < r \<and> int r < P256_N \<and> 0 < s \<and> int s < P256_N \<and>
      dss_verify E x y h (nat_to_be 32 r @ nat_to_be 32 s) \<and>
      dss_verify E x y h (nat_to_be 32 r @ nat_to_be 32 (nat (P256_N - int s))))"
    unfolding p256_ok_def by blast
  then obtain r s where on: "ecc_construct_xy E x y = Inr ()"
    and raw: "dss_sign E (key_d k) \<rho> h = nat_to_be 32 r @ nat_to_be 32 s"
    and rs: "0 < r" "int r < P256_N" "0 < s" "int s < P256_N"
    and v: "dss_verify E x y h (nat_to_be 32 r @ nat_to_be 32 s)"
      "dss_verify E x y h (nat_to_be 32 r @ nat_to_be 32 (nat (P256_N - int s)))"
    by blast
  define m where "m = min (int s) (P256_N - int s)"
  have bound: "int n < 256 ^ 32" if "int n < P256_N" for n
    using that by (simp add: P256_N_def)
  have m: "0 < m" "m \<le> P256_HALF_N" "m < 256 ^ 32"
    unfolding m_def using p256_low_s [of "int s"] rs by simp_all
  have ints: "int_from_bytes (nat_to_be 32 r) = int r" "int_from_bytes (nat_to_be 32 s) = int s"
    "int_from_bytes (nat_to_be 32 (nat m)) = m"
    using rs m bound int_from_bytes_nat_to_be [of "nat m" 32]
    by (simp_all add: int_from_bytes_nat_to_be)
  have raw': "p256_sign_raw E k \<rho> h = Inr (nat_to_be 32 r, nat_to_be 32 (nat m))"
    using m by (simp add: p256_sign_raw_def Let_def raw ints int_to_bytes_ok flip: m_def)
  have "nat m = s \<or> nat m = nat (P256_N - int s)" by (auto simp: m_def min_def)
  with v have "dss_verify E x y h (nat_to_be 32 r @ nat_to_be 32 (nat m))" by auto
  with raw' show ?thesis
    using keys on m rs ints that [of "nat_to_be 32 r" "nat_to_be 32 (nat m)"]
    by (simp add: envelope_ok_def)
qed

end
