(* ===== verification/KeychainSig.thy ===== *)
theory KeychainSig
  imports Models P256
begin

text \<open>
  The class \<open>KeychainSignature\<close> of \<open>tempo/keychain.py\<close>: an access key's signature wrapped
  with the root account it signs for. The three schemes an access key may use share one
  contract, the locale \<open>sig_envelope\<close>: a valid signature has a non-empty encoding that
  determines it (up to the canonical form the encoder chooses). The facts about wrapped
  signatures are proved once from that contract and obtained for secp256k1, P-256 and
  WebAuthn by interpretation.
\<close>

definition KEYCHAIN_SIGNATURE_TYPE :: int where "KEYCHAIN_SIGNATURE_TYPE = 0x04"
definition INNER_SIGNATURE_LENGTH :: nat where "INNER_SIGNATURE_LENGTH = 65"
definition KEYCHAIN_SIGNATURE_LENGTH :: nat where
  "KEYCHAIN_SIGNATURE_LENGTH = 1 + 20 + INNER_SIGNATURE_LENGTH"
definition INNER_OFFSET :: nat where
  "INNER_OFFSET = KEYCHAIN_SIGNATURE_LENGTH - INNER_SIGNATURE_LENGTH"

lemma keychain_constants [simp]:
  "KEYCHAIN_SIGNATURE_TYPE = 4" "INNER_SIGNATURE_LENGTH = 65"
  "KEYCHAIN_SIGNATURE_LENGTH = 86" "INNER_OFFSET = 21"
  by (simp_all add: KEYCHAIN_SIGNATURE_TYPE_def INNER_SIGNATURE_LENGTH_def
      KEYCHAIN_SIGNATURE_LENGTH_def INNER_OFFSET_def)

section \<open>The class\<close>

record keychain_signature =
  kc_raw :: bytes

definition kc_init :: "ext \<Rightarrow> bytes_like \<Rightarrow> keychain_signature result" where
  "kc_init E raw =
     bindE (as_bytes E raw) (\<lambda>b.
       if length b \<le> INNER_OFFSET
       then Inl (ValueError ''KeychainSignature must carry an inner signature'')
       else if uint (b ! 0) \<noteq> KEYCHAIN_SIGNATURE_TYPE
       then Inl (ValueError ''expected Keychain V2 type byte'')
       else Inr \<lparr>kc_raw = b\<rparr>)"

datatype inner_sig =
    InnerSecp signature
  | InnerP256 p256_signature
  | InnerWebAuthn webauthn_signature

definition inner_to_bytes :: "inner_sig \<Rightarrow> bytes result" where
  "inner_to_bytes i =
     (case i of
        InnerSecp sg \<Rightarrow> sig_to_canonical_bytes sg
      | InnerP256 sg \<Rightarrow> p256_to_bytes sg
      | InnerWebAuthn sg \<Rightarrow> webauthn_to_bytes sg)"

text \<open>The blob around an encoded inner signature.\<close>

definition kc_wrap :: "ext \<Rightarrow> bytes \<Rightarrow> bytes_like \<Rightarrow> keychain_signature result" where
  "kc_wrap E inner user_address =
     bindE (byte_of_int KEYCHAIN_SIGNATURE_TYPE) (\<lambda>t.
     bindE (as_address E user_address) (\<lambda>a.
       kc_init E (BBytes (t @ a @ inner))))"

definition kc_from_inner :: "ext \<Rightarrow> inner_sig \<Rightarrow> bytes_like \<Rightarrow> keychain_signature result" where
  "kc_from_inner E i user_address =
     bindE (inner_to_bytes i) (\<lambda>inner. kc_wrap E inner user_address)"

definition kc_signing_hash :: "ext \<Rightarrow> bytes \<Rightarrow> bytes_like \<Rightarrow> bytes result" where
  "kc_signing_hash E sig_hash user_address =
     (if length sig_hash \<noteq> 32 then Inl (ValueError ''sig_hash must be 32 bytes'')
      else
        bindE (byte_of_int KEYCHAIN_SIGNATURE_TYPE) (\<lambda>t.
        bindE (as_address E user_address) (\<lambda>a.
          Inr (keccak256 E (t @ sig_hash @ a)))))"

definition kc_user_address :: "keychain_signature \<Rightarrow> bytes" where
  "kc_user_address ks = take (INNER_OFFSET - 1) (drop 1 (kc_raw ks))"

definition kc_inner_bytes :: "keychain_signature \<Rightarrow> bytes" where
  "kc_inner_bytes ks = drop INNER_OFFSET (kc_raw ks)"

definition kc_inner_signature :: "keychain_signature \<Rightarrow> signature result" where
  "kc_inner_signature ks =
     (if length (kc_raw ks) \<noteq> KEYCHAIN_SIGNATURE_LENGTH
      then Inl (ValueError ''inner signature is not secp256k1; use inner_bytes'')
      else sig_from_bytes (kc_inner_bytes ks))"

definition kc_to_bytes :: "keychain_signature \<Rightarrow> bytes" where
  "kc_to_bytes ks = kc_raw ks"

definition build_keychain_signature :: "ext \<Rightarrow> inner_sig \<Rightarrow> bytes_like \<Rightarrow> bytes result" where
  "build_keychain_signature E i user_address =
     bindE (kc_from_inner E i user_address) (\<lambda>ks. Inr (kc_to_bytes ks))"

section \<open>Blobs\<close>

definition keychain_ok :: "keychain_signature \<Rightarrow> bool" where
  "keychain_ok ks \<longleftrightarrow> 21 < length (kc_raw ks) \<and> hd (kc_raw ks) = 4"

lemma byte_4: "byte_of_int 4 = Inr [4]"
  by (simp add: byte_of_int_def)

lemma uint_byte_4: "uint (b :: byte) = 4 \<longleftrightarrow> b = 4"
proof
  assume "uint b = 4"
  then have "word_of_int (uint b) = (word_of_int 4 :: byte)" by simp
  then show "b = 4" by simp
qed simp

lemma kc_init_ok: "kc_init E raw = Inr ks \<Longrightarrow> keychain_ok ks"
proof -
  assume "kc_init E raw = Inr ks"
  then obtain b where "21 < length b" "uint (b ! 0) = 4" "ks = \<lparr>kc_raw = b\<rparr>"
    by (auto simp: kc_init_def bindE_Inr_conv not_le split: if_splits)
  then show ?thesis by (cases b) (simp_all add: keychain_ok_def uint_byte_4)
qed

lemma kc_wrap_conv:
  assumes "as_address E u = Inr a"
  shows "kc_wrap E inner u =
    (if length (a @ inner) \<le> 20 then Inl (ValueError ''KeychainSignature must carry an inner signature'')
     else Inr \<lparr>kc_raw = 4 # a @ inner\<rparr>)"
  using assms by (simp add: kc_wrap_def kc_init_def byte_4)

lemma kc_wrap_parts:
  assumes "as_address E u = Inr a" "length a = 20" "inner \<noteq> []"
  shows "\<exists>ks. kc_wrap E inner u = Inr ks \<and> kc_raw ks = 4 # a @ inner \<and>
    kc_user_address ks = a \<and> kc_inner_bytes ks = inner"
  using assms by (simp add: kc_wrap_conv kc_user_address_def kc_inner_bytes_def)

section \<open>The contract of a signature scheme\<close>

locale sig_envelope =
  fixes to_bytes :: "'s \<Rightarrow> bytes result"
    and valid :: "'s \<Rightarrow> bool"
    and canon :: "'s \<Rightarrow> 's"
  assumes encodes: "valid x \<Longrightarrow> \<exists>b. to_bytes x = Inr b \<and> b \<noteq> []"
    and determines: "valid x \<Longrightarrow> valid y \<Longrightarrow> to_bytes x = to_bytes y \<Longrightarrow> canon x = canon y"
begin

text \<open>Wrapping a valid signature for a 20-byte root succeeds, and both parts read back.\<close>

lemma wrap_reads_back:
  assumes "valid x" "as_address E u = Inr a" "length a = 20"
  shows "\<exists>ks. bindE (to_bytes x) (\<lambda>inner. kc_wrap E inner u) = Inr ks \<and>
    kc_user_address ks = a \<and> to_bytes x = Inr (kc_inner_bytes ks) \<and> keychain_ok ks"
proof -
  from encodes [OF assms(1)] obtain b where b: "to_bytes x = Inr b" "b \<noteq> []" by blast
  from kc_wrap_parts [OF assms(2,3) b(2)] obtain ks where
    "kc_wrap E b u = Inr ks" "kc_raw ks = 4 # a @ b" "kc_user_address ks = a" "kc_inner_bytes ks = b"
    by blast
  moreover from this b(2) assms(3) have "keychain_ok ks"
    by (cases b) (simp_all add: keychain_ok_def)
  ultimately show ?thesis using b by auto
qed

text \<open>Equal blobs carry the same root and the same signature.\<close>

lemma wrap_determines:
  assumes "valid x" "valid y" "as_address E u = Inr a" "as_address E w = Inr c"
    "length a = 20" "length c = 20"
    and eq: "bindE (to_bytes x) (\<lambda>inner. kc_wrap E inner u)
           = bindE (to_bytes y) (\<lambda>inner. kc_wrap E inner w)"
  shows "a = c \<and> canon x = canon y"
proof -
  from wrap_reads_back [OF assms(1,3,5)] wrap_reads_back [OF assms(2,4,6)] eq
  obtain ks where "kc_user_address ks = a" "kc_user_address ks = c"
    "to_bytes x = Inr (kc_inner_bytes ks)" "to_bytes y = Inr (kc_inner_bytes ks)"
    by (metis sum.inject(2))
  then show ?thesis using determines [OF assms(1,2)] by simp
qed

end

text \<open>
  A scheme whose encodings never have the length of a secp256k1 signature: the length is
  what \<open>inner_signature\<close> tells the schemes apart by.
\<close>

locale non_secp_envelope = sig_envelope +
  assumes not_secp_length: "valid x \<Longrightarrow> to_bytes x = Inr b \<Longrightarrow> length b \<noteq> INNER_SIGNATURE_LENGTH"
begin

lemma inner_signature_rejects:
  assumes "valid x" "as_address E u = Inr a" "length a = 20"
    and "bindE (to_bytes x) (\<lambda>inner. kc_wrap E inner u) = Inr ks"
  shows "kc_inner_signature ks = Inl (ValueError ''inner signature is not secp256k1; use inner_bytes'')"
proof -
  from assms(4) obtain b where b: "to_bytes x = Inr b" "kc_wrap E b u = Inr ks"
    by (auto simp: bindE_Inr_conv)
  with assms(2) have "kc_raw ks = 4 # a @ b" by (auto simp: kc_wrap_conv split: if_splits)
  with not_secp_length [OF assms(1) b(1)] assms(3) show ?thesis
    by (simp add: kc_inner_signature_def)
qed

end

subsection \<open>secp256k1\<close>

interpretation secp_env: sig_envelope sig_to_canonical_bytes signature_ok sig_canonical
proof unfold_locales
  fix x assume "signature_ok x"
  then show "\<exists>b. sig_to_canonical_bytes x = Inr b \<and> b \<noteq> []"
    by (simp add: sig_to_canonical_bytes_layout)
next
  fix x y assume "signature_ok x" "signature_ok y" "sig_to_canonical_bytes x = sig_to_canonical_bytes y"
  then show "sig_canonical x = sig_canonical y"
    by (intro sig65.enc_inj) (simp_all add: sig_canonical_ok sig_canonical_bytes)
qed

subsection \<open>P-256\<close>

interpretation p256_env: non_secp_envelope p256_to_bytes envelope_ok id
proof unfold_locales
  fix x :: p256_signature assume "envelope_ok x"
  then show "\<exists>b. p256_to_bytes x = Inr b \<and> b \<noteq> []" by (simp add: p256_to_bytes_layout)
next
  fix x y :: p256_signature assume "envelope_ok x" "envelope_ok y" "p256_to_bytes x = p256_to_bytes y"
  then show "id x = id y" by (simp add: p256_130.enc_inj)
next
  fix x :: p256_signature and b assume "envelope_ok x" "p256_to_bytes x = Inr b"
  then have "length b = 130" by (rule p256_130.enc_width)
  then show "length b \<noteq> INNER_SIGNATURE_LENGTH" by simp
qed

subsection \<open>WebAuthn\<close>

definition webauthn_ok :: "webauthn_signature \<Rightarrow> bool" where
  "webauthn_ok sg \<longleftrightarrow> envelope_ok sg \<and> length (authenticator_data sg) = 37"

lemma webauthn_determines:
  assumes "webauthn_ok x" "webauthn_ok y" "webauthn_to_bytes x = webauthn_to_bytes y"
  shows "x = y"
proof -
  from assms have len: "length (authenticator_data x) = length (authenticator_data y)"
    "length (env_r x) = length (env_r y)" "length (env_s x) = length (env_s y)"
    "length (env_pub_key_x x) = length (env_pub_key_x y)"
    "length (env_pub_key_y x) = length (env_pub_key_y y)"
    by (simp_all add: webauthn_ok_def envelope_ok_def)
  from assms(3) have "authenticator_data x @ client_data_json x @ env_r x @ env_s x @
      env_pub_key_x x @ env_pub_key_y x =
    authenticator_data y @ client_data_json y @ env_r y @ env_s y @ env_pub_key_x y @ env_pub_key_y y"
    by (simp add: webauthn_to_bytes_layout)
  then have "authenticator_data x = authenticator_data y"
    "client_data_json x @ env_r x @ env_s x @ env_pub_key_x x @ env_pub_key_y x =
     client_data_json y @ env_r y @ env_s y @ env_pub_key_x y @ env_pub_key_y y"
    using len by simp_all
  then show ?thesis using len by (intro webauthn_signature.equality) simp_all
qed

interpretation webauthn_env: non_secp_envelope webauthn_to_bytes webauthn_ok id
proof unfold_locales
  fix x :: webauthn_signature assume "webauthn_ok x"
  then show "\<exists>b. webauthn_to_bytes x = Inr b \<and> b \<noteq> []" by (simp add: webauthn_to_bytes_layout)
next
  fix x y :: webauthn_signature
  assume "webauthn_ok x" "webauthn_ok y" "webauthn_to_bytes x = webauthn_to_bytes y"
  then show "id x = id y" by (simp add: webauthn_determines)
next
  fix x :: webauthn_signature and b assume "webauthn_ok x" "webauthn_to_bytes x = Inr b"
  then have "166 \<le> length b" by (auto simp: webauthn_to_bytes_layout webauthn_ok_def envelope_ok_def)
  then show "length b \<noteq> INNER_SIGNATURE_LENGTH" by simp
qed

section \<open>Any inner signature\<close>

definition inner_ok :: "inner_sig \<Rightarrow> bool" where
  "inner_ok i \<longleftrightarrow>
     (case i of InnerSecp sg \<Rightarrow> signature_ok sg | InnerP256 sg \<Rightarrow> envelope_ok sg
      | InnerWebAuthn sg \<Rightarrow> webauthn_ok sg)"

lemma kc_from_inner_reads_back:
  assumes "inner_ok i" "as_address E u = Inr a" "length a = 20"
  shows "\<exists>ks. kc_from_inner E i u = Inr ks \<and>
    kc_user_address ks = a \<and> inner_to_bytes i = Inr (kc_inner_bytes ks) \<and> keychain_ok ks"
  using assms secp_env.wrap_reads_back p256_env.wrap_reads_back webauthn_env.wrap_reads_back
  by (cases i) (auto simp: inner_ok_def kc_from_inner_def inner_to_bytes_def)

lemma kc_inner_signature_secp:
  assumes "signature_ok sg" "as_address E u = Inr a" "length a = 20"
    and "kc_from_inner E (InnerSecp sg) u = Inr ks"
  shows "kc_inner_signature ks = Inr (sig_canonical sg)"
proof -
  from assms(4) obtain b where b: "sig_to_canonical_bytes sg = Inr b" "kc_wrap E b u = Inr ks"
    by (auto simp: kc_from_inner_def inner_to_bytes_def bindE_Inr_conv)
  with assms(2) have raw: "kc_raw ks = 4 # a @ b" by (auto simp: kc_wrap_conv split: if_splits)
  have "sig_to_bytes (sig_canonical sg) = Inr b" using b(1) by (simp add: sig_canonical_bytes)
  with sig_canonical_ok [OF assms(1)] have "length b = 65" "sig_from_bytes b = Inr (sig_canonical sg)"
    by (auto dest: sig65.enc_width sig65.dec_enc)
  with raw assms(3) show ?thesis by (simp add: kc_inner_signature_def kc_inner_bytes_def)
qed

end
