(* ===== verification/TxModel.thy ===== *)
theory TxModel
  imports KeychainSig
begin

text \<open>
  The class \<open>TempoTransaction\<close> of \<open>tempo/models.py\<close> and \<open>_replace_fields\<close>, which
  \<open>tempo/transaction.py\<close> attaches to it. A transaction carries a secp256k1 signature or a
  keychain envelope. An entry of the access list that is not an \<open>AccessListItem\<close> is
  \<open>ForeignEntry\<close>: the serializer has a branch for it. \<open>key_authorization\<close> holds whatever
  nested list the RLP encoder is to append.
\<close>

definition CHAIN_ID_MAINNET :: int where "CHAIN_ID_MAINNET = 4217"
definition DEFAULT_NONCE_KEY :: int where "DEFAULT_NONCE_KEY = 0"
definition DEFAULT_CHAIN_ID :: int where "DEFAULT_CHAIN_ID = CHAIN_ID_MAINNET"

datatype sender_sig = SecpSig signature | KeychainSig keychain_signature

datatype access_entry = AccessItem access_list_item | ForeignEntry

record tempo_tx =
  chain_id :: int
  max_priority_fee_per_gas :: int
  max_fee_per_gas :: int
  gas_limit :: int
  calls :: "call list"
  access_list :: "access_entry list"
  nonce_key :: int
  nonce :: int
  valid_before :: "int option"
  valid_after :: "int option"
  fee_token :: "bytes option"
  sender_signature :: "sender_sig option"
  fee_payer_signature :: "signature option"
  awaiting_fee_payer :: bool
  sender_address :: "bytes option"
  tempo_authorization_list :: "bytes list"
  key_authorization :: "rlp option"

text \<open>
  The constructor: every field given, the converters of \<open>fee_token\<close> and \<open>sender_address\<close>
  run on their arguments (\<open>tuple\<close> of the two list fields changes nothing). The class has no
  validators.
\<close>

definition tx_init :: "ext \<Rightarrow> tempo_tx \<Rightarrow> bytes_like option \<Rightarrow> bytes_like option \<Rightarrow> tempo_tx result" where
  "tx_init E t token sender =
     bindE (as_optional_address E token) (\<lambda>ft.
     bindE (as_optional_address E sender) (\<lambda>sa.
       Inr (t\<lparr>fee_token := ft, sender_address := sa\<rparr>)))"

text \<open>The field defaults.\<close>

definition tx_default :: tempo_tx where
  "tx_default = \<lparr>
     chain_id = DEFAULT_CHAIN_ID, max_priority_fee_per_gas = 0, max_fee_per_gas = 0,
     gas_limit = 21000, calls = [], access_list = [], nonce_key = 0, nonce = 0,
     valid_before = None, valid_after = None, fee_token = None, sender_signature = None,
     fee_payer_signature = None, awaiting_fee_payer = False, sender_address = None,
     tempo_authorization_list = [], key_authorization = None\<rparr>"

text \<open>The keyword arguments of \<open>create\<close>.\<close>

record tx_args =
  arg_chain_id :: int
  arg_gas_limit :: int
  arg_max_fee_per_gas :: int
  arg_max_priority_fee_per_gas :: int
  arg_nonce :: int
  arg_nonce_key :: int
  arg_valid_before :: "int option"
  arg_valid_after :: "int option"
  arg_fee_token :: "bytes_like option"
  arg_awaiting_fee_payer :: bool
  arg_calls :: "call list"
  arg_access_list :: "access_entry list"
  arg_tempo_authorization_list :: "bytes_like list"
  arg_key_authorization :: "rlp option"

definition tx_args_default :: tx_args where
  "tx_args_default = \<lparr>
     arg_chain_id = DEFAULT_CHAIN_ID, arg_gas_limit = 21000, arg_max_fee_per_gas = 0,
     arg_max_priority_fee_per_gas = 0, arg_nonce = 0, arg_nonce_key = 0,
     arg_valid_before = None, arg_valid_after = None, arg_fee_token = None,
     arg_awaiting_fee_payer = False, arg_calls = [], arg_access_list = [],
     arg_tempo_authorization_list = [], arg_key_authorization = None\<rparr>"

definition tx_create :: "ext \<Rightarrow> tx_args \<Rightarrow> tempo_tx result" where
  "tx_create E a =
     bindE (mapE (as_bytes E) (arg_tempo_authorization_list a)) (\<lambda>auth_list.
       tx_init E (tx_default\<lparr>
           chain_id := arg_chain_id a,
           gas_limit := arg_gas_limit a,
           max_fee_per_gas := arg_max_fee_per_gas a,
           max_priority_fee_per_gas := arg_max_priority_fee_per_gas a,
           nonce := arg_nonce a,
           nonce_key := arg_nonce_key a,
           valid_before := arg_valid_before a,
           valid_after := arg_valid_after a,
           awaiting_fee_payer := arg_awaiting_fee_payer a,
           calls := arg_calls a,
           access_list := arg_access_list a,
           tempo_authorization_list := auth_list,
           key_authorization := arg_key_authorization a\<rparr>)
         (arg_fee_token a) None)"

definition has_sender_signature :: "tempo_tx \<Rightarrow> bool" where
  "has_sender_signature t \<longleftrightarrow> sender_signature t \<noteq> None"

definition has_fee_payer_signature :: "tempo_tx \<Rightarrow> bool" where
  "has_fee_payer_signature t \<longleftrightarrow> fee_payer_signature t \<noteq> None"

text \<open>\<open>attrs.evolve\<close> calls the constructor again with the unchanged fields' values.\<close>

definition tx_clone :: "ext \<Rightarrow> tempo_tx \<Rightarrow> tempo_tx result" where
  "tx_clone E t =
     tx_init E (t\<lparr>sender_signature := None, fee_payer_signature := None\<rparr>)
       (map_option BBytes (fee_token t)) (map_option BBytes (sender_address t))"

section \<open>\<open>_replace_fields\<close>\<close>

text \<open>The keyword arguments \<open>**kwargs\<close> may name: the fields without a parameter of their own.\<close>

datatype tx_kwarg =
    KwChainId int
  | KwMaxPriorityFee int
  | KwMaxFee int
  | KwGasLimit int
  | KwCalls "call list"
  | KwAccessList "access_entry list"
  | KwNonceKey int
  | KwNonce int
  | KwValidBefore "int option"
  | KwValidAfter "int option"
  | KwFeeToken "bytes_like option"
  | KwAuthorizationList "bytes list"
  | KwKeyAuthorization "rlp option"

fun apply_kwarg :: "tx_kwarg \<Rightarrow> tempo_tx \<times> bytes_like option \<Rightarrow> tempo_tx \<times> bytes_like option" where
  "apply_kwarg (KwChainId v) (t, ft) = (t\<lparr>chain_id := v\<rparr>, ft)"
| "apply_kwarg (KwMaxPriorityFee v) (t, ft) = (t\<lparr>max_priority_fee_per_gas := v\<rparr>, ft)"
| "apply_kwarg (KwMaxFee v) (t, ft) = (t\<lparr>max_fee_per_gas := v\<rparr>, ft)"
| "apply_kwarg (KwGasLimit v) (t, ft) = (t\<lparr>gas_limit := v\<rparr>, ft)"
| "apply_kwarg (KwCalls v) (t, ft) = (t\<lparr>calls := v\<rparr>, ft)"
| "apply_kwarg (KwAccessList v) (t, ft) = (t\<lparr>access_list := v\<rparr>, ft)"
| "apply_kwarg (KwNonceKey v) (t, ft) = (t\<lparr>nonce_key := v\<rparr>, ft)"
| "apply_kwarg (KwNonce v) (t, ft) = (t\<lparr>nonce := v\<rparr>, ft)"
| "apply_kwarg (KwValidBefore v) (t, ft) = (t\<lparr>valid_before := v\<rparr>, ft)"
| "apply_kwarg (KwValidAfter v) (t, ft) = (t\<lparr>valid_after := v\<rparr>, ft)"
| "apply_kwarg (KwFeeToken v) (t, ft) = (t, v)"
| "apply_kwarg (KwAuthorizationList v) (t, ft) = (t\<lparr>tempo_authorization_list := v\<rparr>, ft)"
| "apply_kwarg (KwKeyAuthorization v) (t, ft) = (t\<lparr>key_authorization := v\<rparr>, ft)"

definition replace_fields ::
    "ext \<Rightarrow> tempo_tx \<Rightarrow> sender_sig option \<Rightarrow> signature option \<Rightarrow> bytes_like option \<Rightarrow> bool option
       \<Rightarrow> tx_kwarg list \<Rightarrow> tempo_tx result" where
  "replace_fields E t sig fp_sig sender awaiting kwargs =
     (let t1 = (case sig of None \<Rightarrow> t | Some s \<Rightarrow> t\<lparr>sender_signature := Some s\<rparr>);
          t2 = (case fp_sig of None \<Rightarrow> t1 | Some s \<Rightarrow> t1\<lparr>fee_payer_signature := Some s\<rparr>);
          sa = (case sender of None \<Rightarrow> map_option BBytes (sender_address t) | Some a \<Rightarrow> Some a);
          t3 = (case awaiting of None \<Rightarrow> t2 | Some b \<Rightarrow> t2\<lparr>awaiting_fee_payer := b\<rparr>);
          (t4, ft) = fold apply_kwarg kwargs (t3, map_option BBytes (fee_token t))
      in tx_init E t4 ft sa)"

section \<open>The invariant of a transaction\<close>

definition entry_ok :: "access_entry \<Rightarrow> bool" where
  "entry_ok e \<longleftrightarrow> (case e of AccessItem i \<Rightarrow> access_list_item_ok i | ForeignEntry \<Rightarrow> True)"

text \<open>What the constructor establishes, and what well-constructed components add.\<close>

definition tx_addresses_ok :: "tempo_tx \<Rightarrow> bool" where
  "tx_addresses_ok t \<longleftrightarrow> address_opt_ok (fee_token t) \<and> address_opt_ok (sender_address t)"

definition tx_ok :: "tempo_tx \<Rightarrow> bool" where
  "tx_ok t \<longleftrightarrow> tx_addresses_ok t \<and> list_all call_ok (calls t) \<and> list_all entry_ok (access_list t)"

lemma tx_init_addresses: "tx_init E t ft sa = Inr t' \<Longrightarrow> tx_addresses_ok t'"
  by (auto simp: tx_init_def tx_addresses_ok_def bindE_Inr_conv dest: as_optional_address_ok)

lemma tx_init_conv:
  "tx_init E t ft sa = Inr t' \<longleftrightarrow>
     (\<exists>f a. as_optional_address E ft = Inr f \<and> as_optional_address E sa = Inr a \<and>
        t' = t\<lparr>fee_token := f, sender_address := a\<rparr>)"
  by (auto simp: tx_init_def bindE_Inr_conv)

lemma tx_init_same:
  assumes "address_opt_ok f" "address_opt_ok a"
  shows "tx_init E t (map_option BBytes f) (map_option BBytes a) =
    Inr (t\<lparr>fee_token := f, sender_address := a\<rparr>)"
  using assms by (simp add: tx_init_def as_optional_address_idem)

lemma tx_clone_conv:
  "tx_addresses_ok t \<Longrightarrow>
     tx_clone E t = Inr (t\<lparr>sender_signature := None, fee_payer_signature := None\<rparr>)"
  by (simp add: tx_clone_def tx_addresses_ok_def tx_init_same)

text \<open>The three ways the package calls \<open>_replace_fields\<close>.\<close>

lemma replace_sender:
  assumes "tx_addresses_ok t" "length a = 20"
  shows "replace_fields E t (Some s) None (Some (BBytes a)) None [] =
    Inr (t\<lparr>sender_signature := Some s, sender_address := Some a\<rparr>)"
  using assms tx_init_same [of "fee_token t" "Some a" E]
  by (simp add: replace_fields_def tx_addresses_ok_def)

lemma replace_fee_payer:
  assumes "tx_addresses_ok t"
  shows "replace_fields E t None (Some s) None None [] = Inr (t\<lparr>fee_payer_signature := Some s\<rparr>)"
  using assms by (simp add: replace_fields_def tx_addresses_ok_def tx_init_same)

lemma replace_key_authorization:
  assumes "tx_addresses_ok t"
  shows "replace_fields E t None None None None [KwKeyAuthorization k] =
    Inr (t\<lparr>key_authorization := k\<rparr>)"
  using assms by (simp add: replace_fields_def tx_addresses_ok_def tx_init_same)

lemma tx_create_conv:
  "tx_create E a = Inr t \<longleftrightarrow>
     (\<exists>ft auths. as_optional_address E (arg_fee_token a) = Inr ft \<and>
        mapE (as_bytes E) (arg_tempo_authorization_list a) = Inr auths \<and>
        t = \<lparr>chain_id = arg_chain_id a, max_priority_fee_per_gas = arg_max_priority_fee_per_gas a,
             max_fee_per_gas = arg_max_fee_per_gas a, gas_limit = arg_gas_limit a,
             calls = arg_calls a, access_list = arg_access_list a, nonce_key = arg_nonce_key a,
             nonce = arg_nonce a, valid_before = arg_valid_before a, valid_after = arg_valid_after a,
             fee_token = ft, sender_signature = None, fee_payer_signature = None,
             awaiting_fee_payer = arg_awaiting_fee_payer a, sender_address = None,
             tempo_authorization_list = auths, key_authorization = arg_key_authorization a\<rparr>)"
  by (auto simp: tx_create_def tx_init_conv bindE_Inr_conv tx_default_def)

end
