(* ===== verification/Serialize.thy ===== *)
theory Serialize
  imports TxModel
begin

text \<open>
  The serializer of \<open>tempo/transaction.py\<close>: the RLP field list of a transaction and the three
  payloads built from it (what the sender signs, what the fee payer signs, what is broadcast).
  The lemmas give the field list in closed form and show that it determines the view of the
  transaction it is meant to commit to.
\<close>

section \<open>The definitions\<close>

definition removeprefix :: "string \<Rightarrow> string \<Rightarrow> string" where
  "removeprefix p s = (if take (length p) s = p then drop (length p) s else s)"

definition parse_topic_address :: "string \<Rightarrow> bytes result" where
  "parse_topic_address topic =
     (let raw = removeprefix ''0x'' topic in
      if length raw \<noteq> 64 then Inr []
      else bindE (bytes_fromhex raw) (\<lambda>topic_bytes. Inr (take 20 (drop 12 topic_bytes))))"

definition int_to_rlp_bytes :: "int \<Rightarrow> bytes result" where
  "int_to_rlp_bytes n =
     (if n = 0 then Inr [] else int_to_bytes ((bit_length n + 7) div 8) n)"

definition address_to_rlp_bytes :: "bytes \<Rightarrow> bytes" where
  "address_to_rlp_bytes a = (if a = replicate 20 0 then [] else a)"

definition bigint_to_rlp_bytes :: "int \<Rightarrow> bytes result" where
  "bigint_to_rlp_bytes n = int_to_rlp_bytes n"

definition encode_calls :: "call list \<Rightarrow> rlp result" where
  "encode_calls cs =
     bindE (mapE (\<lambda>c.
         bindE (int_to_rlp_bytes (call_value c)) (\<lambda>v.
           Inr (RList [RBytes (call_to c), RBytes v, RBytes (call_data c)]))) cs)
       (\<lambda>xs. Inr (RList xs))"

fun encode_access_entry :: "access_entry \<Rightarrow> rlp" where
  "encode_access_entry (AccessItem i) =
     RList [RBytes (al_address i), RList (map RBytes (al_storage_keys i))]"
| "encode_access_entry ForeignEntry = RList [RBytes [], RList []]"

definition encode_access_list :: "access_entry list \<Rightarrow> rlp" where
  "encode_access_list es = RList (map encode_access_entry es)"

definition encode_signature :: "sender_sig option \<Rightarrow> bytes result" where
  "encode_signature s =
     (case s of
        None \<Rightarrow> Inr []
      | Some (SecpSig sg) \<Rightarrow> sig_to_bytes sg
      | Some (KeychainSig ks) \<Rightarrow> Inr (kc_to_bytes ks))"

definition encode_fee_payer_field :: "tempo_tx \<Rightarrow> rlp" where
  "encode_fee_payer_field t =
     (case fee_payer_signature t of
        Some sg \<Rightarrow> sig_to_rlp_list sg
      | None \<Rightarrow> if awaiting_fee_payer t then RBytes [0] else RBytes [])"

definition encode_fee_token :: "tempo_tx \<Rightarrow> bool \<Rightarrow> rlp" where
  "encode_fee_token t skip =
     (case fee_token t of
        None \<Rightarrow> RBytes []
      | Some a \<Rightarrow> if skip then RBytes [] else RBytes a)"

text \<open>\<open>x or 0\<close> of an optional integer.\<close>

definition or_zero :: "int option \<Rightarrow> int" where
  "or_zero v = (case v of None \<Rightarrow> 0 | Some n \<Rightarrow> n)"

definition build_rlp_fields :: "tempo_tx \<Rightarrow> bool \<Rightarrow> bool \<Rightarrow> rlp list result" where
  "build_rlp_fields t skip_fee_token drop_signatures =
     bindE (bigint_to_rlp_bytes (chain_id t)) (\<lambda>f0.
     bindE (int_to_rlp_bytes (max_priority_fee_per_gas t)) (\<lambda>f1.
     bindE (int_to_rlp_bytes (max_fee_per_gas t)) (\<lambda>f2.
     bindE (int_to_rlp_bytes (gas_limit t)) (\<lambda>f3.
     bindE (encode_calls (calls t)) (\<lambda>f4.
     bindE (bigint_to_rlp_bytes (nonce_key t)) (\<lambda>f6.
     bindE (int_to_rlp_bytes (nonce t)) (\<lambda>f7.
     bindE (int_to_rlp_bytes (or_zero (valid_before t))) (\<lambda>f8.
     bindE (int_to_rlp_bytes (or_zero (valid_after t))) (\<lambda>f9.
       let fields =
             [RBytes f0, RBytes f1, RBytes f2, RBytes f3, f4, encode_access_list (access_list t),
              RBytes f6, RBytes f7, RBytes f8, RBytes f9,
              encode_fee_token t skip_fee_token, encode_fee_payer_field t, RList []];
           fields = (case key_authorization t of None \<Rightarrow> fields | Some k \<Rightarrow> fields @ [k])
       in if \<not> drop_signatures \<and> sender_signature t \<noteq> None
          then bindE (encode_signature (sender_signature t)) (\<lambda>s. Inr (fields @ [RBytes s]))
          else Inr fields)))))))))"

definition serialize_for_signing :: "ext \<Rightarrow> tempo_tx \<Rightarrow> string result" where
  "serialize_for_signing E t =
     (let skip = awaiting_fee_payer t \<or> fee_payer_signature t \<noteq> None in
      bindE (build_rlp_fields t skip True) (\<lambda>fields.
      bindE (rlp_encode E (RList fields)) (\<lambda>encoded. Inr (''0x76'' @ bytes_hex encoded))))"

definition serialize_for_fee_payer_signing :: "ext \<Rightarrow> tempo_tx \<Rightarrow> bytes_like \<Rightarrow> string result" where
  "serialize_for_fee_payer_signing E t sender =
     bindE (build_rlp_fields t False True) (\<lambda>fields.
     bindE (as_address E sender) (\<lambda>a.
     bindE (rlp_encode E (RList (fields[11 := RBytes a]))) (\<lambda>encoded.
       Inr (''0x78'' @ bytes_hex encoded))))"

definition serialize :: "ext \<Rightarrow> tempo_tx \<Rightarrow> string result" where
  "serialize E t =
     bindE (build_rlp_fields t False False) (\<lambda>fields.
     bindE (rlp_encode E (RList fields)) (\<lambda>encoded. Inr (''0x76'' @ bytes_hex encoded)))"

definition compute_hash :: "ext \<Rightarrow> string \<Rightarrow> bytes result" where
  "compute_hash E serialized_hex =
     bindE (to_bytes_hexstr E serialized_hex) (\<lambda>raw. Inr (keccak256 E raw))"

definition get_sign_payload :: "ext \<Rightarrow> tempo_tx \<Rightarrow> bytes result" where
  "get_sign_payload E t = bindE (serialize_for_signing E t) (compute_hash E)"

definition get_fee_payer_sign_payload :: "ext \<Rightarrow> tempo_tx \<Rightarrow> bytes_like \<Rightarrow> bytes result" where
  "get_fee_payer_sign_payload E t sender =
     bindE (serialize_for_fee_payer_signing E t sender) (compute_hash E)"

section \<open>Integers on the wire\<close>

lemma int_to_rlp_bytes_eq:
  "int_to_rlp_bytes n =
     (if n < 0 then Inl (OverflowError ''can't convert negative int to unsigned'')
      else Inr (min_be (nat n)))"
proof (cases "n < 0")
  case True
  then show ?thesis by (simp add: int_to_rlp_bytes_def int_to_bytes_def)
next
  case False
  let ?k = "(nat_bits (nat n) + 7) div 8"
  have "nat n < 256 ^ ?k" by (rule byte_count_upper)
  then have "n < 256 ^ ?k" using False by (simp add: nat_less_iff)
  with False show ?thesis
    by (simp add: int_to_rlp_bytes_def int_to_bytes_def bit_length_def min_be_def)
qed

lemma int_to_rlp_bytes_Inr_conv:
  "int_to_rlp_bytes n = Inr b \<longleftrightarrow> 0 \<le> n \<and> b = min_be (nat n)"
  by (auto simp: int_to_rlp_bytes_eq)

section \<open>Calls and access lists on the wire\<close>

lemma encode_calls_Inr_conv:
  "encode_calls cs = Inr x \<longleftrightarrow>
     list_all (\<lambda>c. 0 \<le> call_value c) cs \<and>
     x = RList (map (\<lambda>c. RList [RBytes (call_to c), RBytes (min_be (nat (call_value c))),
                                RBytes (call_data c)]) cs)"
proof -
  have "mapE (\<lambda>c. bindE (int_to_rlp_bytes (call_value c)) (\<lambda>v.
           Inr (RList [RBytes (call_to c), RBytes v, RBytes (call_data c)]))) cs = Inr ys \<longleftrightarrow>
    list_all (\<lambda>c. 0 \<le> call_value c) cs \<and>
    ys = map (\<lambda>c. RList [RBytes (call_to c), RBytes (min_be (nat (call_value c))),
                                RBytes (call_data c)]) cs" for ys
    by (induction cs arbitrary: ys) (auto simp: bindE_Inr_conv int_to_rlp_bytes_Inr_conv)
  then show ?thesis by (auto simp: encode_calls_def bindE_Inr_conv)
qed

text \<open>The serializer and \<open>Call.as_rlp_list\<close> put the same bytes on the wire.\<close>

lemma encode_calls_wire:
  "encode_calls cs = Inr x \<Longrightarrow> rlp_norm x = rlp_norm (RList (map call_as_rlp_list cs))"
  by (auto simp: encode_calls_Inr_conv call_as_rlp_list_def)

fun entry_view :: "access_entry \<Rightarrow> bytes \<times> bytes list" where
  "entry_view (AccessItem i) = (al_address i, al_storage_keys i)"
| "entry_view ForeignEntry = ([], [])"

interpretation entry_wire: exact_rlp_encoder encode_access_entry entry_ok entry_view
proof unfold_locales
  fix x y assume "rlp_norm (encode_access_entry x) = rlp_norm (encode_access_entry y)"
  then show "entry_view x = entry_view y"
    by (cases x; cases y) auto
next
  fix x y assume "entry_view x = entry_view y"
  then show "rlp_norm (encode_access_entry x) = rlp_norm (encode_access_entry y)"
    by (cases x; cases y) auto
qed

section \<open>The field list in closed form\<close>

definition ints_ok :: "tempo_tx \<Rightarrow> bool" where
  "ints_ok t \<longleftrightarrow>
     0 \<le> chain_id t \<and> 0 \<le> max_priority_fee_per_gas t \<and> 0 \<le> max_fee_per_gas t \<and> 0 \<le> gas_limit t \<and>
     list_all (\<lambda>c. 0 \<le> call_value c) (calls t) \<and> 0 \<le> nonce_key t \<and> 0 \<le> nonce t \<and>
     0 \<le> or_zero (valid_before t) \<and> 0 \<le> or_zero (valid_after t)"

definition core_fields :: "tempo_tx \<Rightarrow> bool \<Rightarrow> rlp list" where
  "core_fields t skip =
     [RBytes (min_be (nat (chain_id t))), RBytes (min_be (nat (max_priority_fee_per_gas t))),
      RBytes (min_be (nat (max_fee_per_gas t))), RBytes (min_be (nat (gas_limit t))),
      RList (map (\<lambda>c. RList [RBytes (call_to c), RBytes (min_be (nat (call_value c))),
                             RBytes (call_data c)]) (calls t)),
      encode_access_list (access_list t),
      RBytes (min_be (nat (nonce_key t))), RBytes (min_be (nat (nonce t))),
      RBytes (min_be (nat (or_zero (valid_before t)))), RBytes (min_be (nat (or_zero (valid_after t)))),
      encode_fee_token t skip, encode_fee_payer_field t, RList []]"

definition key_auth_fields :: "tempo_tx \<Rightarrow> rlp list" where
  "key_auth_fields t = (case key_authorization t of None \<Rightarrow> [] | Some k \<Rightarrow> [k])"

definition envelope_fields :: "tempo_tx \<Rightarrow> rlp list result" where
  "envelope_fields t =
     (if sender_signature t = None then Inr []
      else bindE (encode_signature (sender_signature t)) (\<lambda>s. Inr [RBytes s]))"

lemma length_core_fields [simp]: "length (core_fields t skip) = 13"
  by (simp add: core_fields_def)

lemma build_rlp_fields_eq:
  "build_rlp_fields t skip drp = Inr fs \<longleftrightarrow>
     ints_ok t \<and>
     (\<exists>es. (if drp then Inr [] else envelope_fields t) = Inr es \<and>
           fs = core_fields t skip @ key_auth_fields t @ es)"
  by (auto simp: build_rlp_fields_def bigint_to_rlp_bytes_def bindE_Inr_conv Let_def
      int_to_rlp_bytes_Inr_conv encode_calls_Inr_conv ints_ok_def core_fields_def
      key_auth_fields_def envelope_fields_def split: option.splits if_splits)

lemma build_rlp_fields_drop:
  "build_rlp_fields t skip True = Inr fs \<longleftrightarrow> ints_ok t \<and> fs = core_fields t skip @ key_auth_fields t"
  by (auto simp: build_rlp_fields_eq)

lemma encode_signature_total:
  assumes "case s of Some (SecpSig sg) \<Rightarrow> signature_ok sg | _ \<Rightarrow> True"
  shows "\<exists>b. encode_signature s = Inr b"
  using assms by (auto simp: encode_signature_def split: option.splits sender_sig.splits
      dest: sig65.enc_total)

section \<open>What the core fields determine\<close>

datatype fee_payer_view = FpSigned signature | FpAwaiting | FpAbsent

definition fee_payer_view :: "tempo_tx \<Rightarrow> fee_payer_view" where
  "fee_payer_view t =
     (case fee_payer_signature t of
        Some sg \<Rightarrow> FpSigned (sig_canonical sg)
      | None \<Rightarrow> if awaiting_fee_payer t then FpAwaiting else FpAbsent)"

record tx_view =
  v_chain_id :: int
  v_priority_fee :: int
  v_max_fee :: int
  v_gas :: int
  v_calls :: "call list"
  v_access :: "(bytes \<times> bytes list) list"
  v_nonce_key :: int
  v_nonce :: int
  v_valid_before :: int
  v_valid_after :: int
  v_fee_token :: "bytes option"
  v_fee_payer :: fee_payer_view
  v_key_auth :: "rlp option"

text \<open>Everything the field list carries but the sender's signature.\<close>

definition tx_view_of :: "tempo_tx \<Rightarrow> bool \<Rightarrow> tx_view" where
  "tx_view_of t skip = \<lparr>
     v_chain_id = chain_id t, v_priority_fee = max_priority_fee_per_gas t,
     v_max_fee = max_fee_per_gas t, v_gas = gas_limit t, v_calls = calls t,
     v_access = map entry_view (access_list t), v_nonce_key = nonce_key t, v_nonce = nonce t,
     v_valid_before = or_zero (valid_before t), v_valid_after = or_zero (valid_after t),
     v_fee_token = (if skip then None else fee_token t), v_fee_payer = fee_payer_view t,
     v_key_auth = map_option rlp_norm (key_authorization t)\<rparr>"

definition fee_payer_ok :: "tempo_tx \<Rightarrow> bool" where
  "fee_payer_ok t \<longleftrightarrow> (case fee_payer_signature t of None \<Rightarrow> True | Some sg \<Rightarrow> signature_ok sg)"

text \<open>A transaction built from constructed parts.\<close>

definition tx_wf :: "tempo_tx \<Rightarrow> bool" where
  "tx_wf t \<longleftrightarrow> tx_ok t \<and> fee_payer_ok t"

lemma tx_wf_parts:
  "tx_wf t \<Longrightarrow> address_opt_ok (fee_token t) \<and> address_opt_ok (sender_address t) \<and>
     list_all call_ok (calls t) \<and> list_all entry_ok (access_list t) \<and> fee_payer_ok t"
  by (simp add: tx_wf_def tx_ok_def tx_addresses_ok_def)

lemma fee_token_determines:
  assumes "address_opt_ok (fee_token t)" "address_opt_ok (fee_token u)"
    and "rlp_norm (encode_fee_token t a) = rlp_norm (encode_fee_token u b)"
  shows "(if a then None else fee_token t) = (if b then None else fee_token u)"
  using assms by (auto simp: encode_fee_token_def split: option.splits if_splits)

lemma fee_payer_determines:
  assumes "fee_payer_ok t" "fee_payer_ok u"
    and "rlp_norm (encode_fee_payer_field t) = rlp_norm (encode_fee_payer_field u)"
  shows "fee_payer_view t = fee_payer_view u"
proof (cases "fee_payer_signature t")
  case None
  with assms show ?thesis
    by (auto simp: fee_payer_view_def encode_fee_payer_field_def sig_to_rlp_list_def
        split: option.splits if_splits)
next
  case (Some x)
  with assms(3) obtain y where y: "fee_payer_signature u = Some y"
    by (auto simp: encode_fee_payer_field_def sig_to_rlp_list_def split: option.splits if_splits)
  have "sig_canonical x = sig_canonical y"
    by (rule sig_wire.wire_determines)
       (use assms Some y in \<open>simp_all add: fee_payer_ok_def encode_fee_payer_field_def\<close>)
  with Some y show ?thesis by (simp add: fee_payer_view_def)
qed

lemma calls_determine:
  assumes "list_all call_ok cs" "list_all call_ok ds"
    and "rlp_norm (RList (map (\<lambda>c. RList [RBytes (call_to c), RBytes (min_be (nat (call_value c))),
           RBytes (call_data c)]) cs)) =
         rlp_norm (RList (map (\<lambda>c. RList [RBytes (call_to c), RBytes (min_be (nat (call_value c))),
           RBytes (call_data c)]) ds))"
  shows "cs = ds"
proof -
  from assms(3) have "rlp_norm (RList (map call_as_rlp_list cs)) = rlp_norm (RList (map call_as_rlp_list ds))"
    by (simp add: call_as_rlp_list_def comp_def)
  from call_wire.RList_determines [OF assms(1,2) this] show ?thesis by simp
qed

lemma access_list_determines:
  assumes "list_all entry_ok xs" "list_all entry_ok ys"
    and "rlp_norm (encode_access_list xs) = rlp_norm (encode_access_list ys)"
  shows "map entry_view xs = map entry_view ys"
  using entry_wire.RList_determines [OF assms(1,2)] assms(3) by (simp add: encode_access_list_def)

lemma core_fields_nth:
  "core_fields t s ! 0 = RBytes (min_be (nat (chain_id t)))"
  "core_fields t s ! 1 = RBytes (min_be (nat (max_priority_fee_per_gas t)))"
  "core_fields t s ! 2 = RBytes (min_be (nat (max_fee_per_gas t)))"
  "core_fields t s ! 3 = RBytes (min_be (nat (gas_limit t)))"
  "core_fields t s ! 4 =
     RList (map (\<lambda>c. RList [RBytes (call_to c), RBytes (min_be (nat (call_value c))),
                            RBytes (call_data c)]) (calls t))"
  "core_fields t s ! 5 = encode_access_list (access_list t)"
  "core_fields t s ! 6 = RBytes (min_be (nat (nonce_key t)))"
  "core_fields t s ! 7 = RBytes (min_be (nat (nonce t)))"
  "core_fields t s ! 8 = RBytes (min_be (nat (or_zero (valid_before t))))"
  "core_fields t s ! 9 = RBytes (min_be (nat (or_zero (valid_after t))))"
  "core_fields t s ! 10 = encode_fee_token t s"
  "core_fields t s ! 11 = encode_fee_payer_field t"
  "core_fields t s ! 12 = RList []"
  by (simp_all add: core_fields_def)

text \<open>The ten fields other than the fee token, the fee payer field and the reserved list.\<close>

definition base_view :: "tempo_tx \<Rightarrow> int list \<times> call list \<times> (bytes \<times> bytes list) list" where
  "base_view t =
     ([chain_id t, max_priority_fee_per_gas t, max_fee_per_gas t, gas_limit t, nonce_key t, nonce t,
       or_zero (valid_before t), or_zero (valid_after t)],
      calls t, map entry_view (access_list t))"

lemma base_fields_determine:
  assumes wf: "tx_wf t" "tx_wf u" and ints: "ints_ok t" "ints_ok u"
    and nth: "\<And>i. i < 10 \<Longrightarrow> rlp_norm (core_fields t a ! i) = rlp_norm (core_fields u b ! i)"
  shows "base_view t = base_view u"
proof -
  note pt = tx_wf_parts [OF wf(1)] and pu = tx_wf_parts [OF wf(2)]
  have "calls t = calls u"
    using calls_determine nth [of 4] pt pu unfolding core_fields_nth by simp
  moreover have "map entry_view (access_list t) = map entry_view (access_list u)"
    using access_list_determines nth [of 5] pt pu unfolding core_fields_nth by simp
  ultimately show ?thesis
    using nth [of 0] nth [of 1] nth [of 2] nth [of 3] nth [of 6] nth [of 7] nth [of 8] nth [of 9] ints
    unfolding core_fields_nth by (simp add: base_view_def ints_ok_def eq_nat_nat_iff)
qed

lemma core_fields_determine:
  assumes wf: "tx_wf t" "tx_wf u" and ints: "ints_ok t" "ints_ok u"
    and core: "map rlp_norm (core_fields t a) = map rlp_norm (core_fields u b)"
    and ka: "map rlp_norm (key_auth_fields t) = map rlp_norm (key_auth_fields u)"
  shows "tx_view_of t a = tx_view_of u b"
proof -
  note pt = tx_wf_parts [OF wf(1)] and pu = tx_wf_parts [OF wf(2)]
  have nth: "rlp_norm (core_fields t a ! i) = rlp_norm (core_fields u b ! i)" if "i < 13" for i
    using that core by (metis length_core_fields nth_map)
  have "map_option rlp_norm (key_authorization t) = map_option rlp_norm (key_authorization u)"
    using ka by (auto simp: key_auth_fields_def split: option.splits)
  moreover have "base_view t = base_view u"
    by (rule base_fields_determine [OF wf ints nth]) simp
  moreover have "(if a then None else fee_token t) = (if b then None else fee_token u)"
    using fee_token_determines nth [of 10] pt pu unfolding core_fields_nth by simp
  moreover have "fee_payer_view t = fee_payer_view u"
    using fee_payer_determines nth [of 11] pt pu unfolding core_fields_nth by simp
  ultimately show ?thesis by (simp add: tx_view_of_def base_view_def)
qed

end
