(* ===== verification/Reference.thy ===== *)
theory Reference
  imports External
begin

text \<open>
  An instance of the external functions for the witnesses. \<open>rlp_ref\<close> is RLP as published
  (Ethereum yellow paper, appendix B), proved to be an injective, prefix-free encoding of the
  normalised items, so \<open>rlp_faithful\<close> holds of it. The signature functions are placeholders
  that satisfy \<open>ecdsa_ok\<close> and \<open>p256_ok\<close>. No definition of the model uses this theory.
\<close>

section \<open>RLP\<close>

text \<open>The header of a payload of length \<open>n\<close>: \<open>off\<close> is 128 for a string, 192 for a list.\<close>

definition rlp_header :: "nat \<Rightarrow> nat \<Rightarrow> bytes result" where
  "rlp_header off n =
     (if n < 56 then Inr [word_of_nat (off + n)]
      else if n < 256 ^ 8 then Inr (word_of_nat (off + 55 + length (min_be n)) # min_be n)
      else Inl (LibraryError ''rlp item too long''))"

definition rlp_ref_bytes :: "bytes \<Rightarrow> bytes result" where
  "rlp_ref_bytes b =
     (if length b = 1 \<and> unat (hd b) < 128 then Inr b
      else bindE (rlp_header 128 (length b)) (\<lambda>h. Inr (h @ b)))"

fun rlp_ref :: "rlp \<Rightarrow> bytes result" where
  "rlp_ref (RBytes b) = rlp_ref_bytes b"
| "rlp_ref (RInt n) =
     (if n < 0 then Inl (LibraryError ''negative integer'') else rlp_ref_bytes (min_be (nat n)))"
| "rlp_ref (RList xs) =
     bindE (mapE rlp_ref xs) (\<lambda>es.
       bindE (rlp_header 192 (length (concat es))) (\<lambda>h. Inr (h @ concat es)))"

subsection \<open>Headers are prefix-free\<close>

lemma rlp_header_first:
  assumes "rlp_header off n = Inr h" "off \<in> {128, 192}"
  shows "\<exists>c r. h = c # r \<and>
    (n < 56 \<and> unat c = off + n \<and> r = [] \<or>
     56 \<le> n \<and> unat c = off + 55 + length (min_be n) \<and> r = min_be n \<and>
       1 \<le> length (min_be n) \<and> length (min_be n) \<le> 8)"
proof (cases "n < 56")
  case True
  with assms have "h = [word_of_nat (off + n)]" "off + n < 256"
    by (auto simp: rlp_header_def)
  with True show ?thesis by (simp del: of_nat_add add: unat_byte_of_nat)
next
  case False
  with assms have n: "n < 256 ^ 8" and h: "h = word_of_nat (off + 55 + length (min_be n)) # min_be n"
    by (auto simp: rlp_header_def split: if_splits)
  have "length (min_be n) \<le> 8" by (rule length_min_be_le [OF n])
  moreover have "min_be n \<noteq> []" using False by simp
  then have "1 \<le> length (min_be n)" by (cases "min_be n") auto
  moreover from calculation assms(2) have "off + 55 + length (min_be n) < 256" by auto
  ultimately show ?thesis using False h by (simp del: of_nat_add add: unat_byte_of_nat)
qed

lemma rlp_header_range:
  assumes "rlp_header off n = Inr (c # r)" "off \<in> {128, 192}"
  shows "off \<le> unat c" "unat c < off + 64"
  using rlp_header_first [OF assms] by auto

lemma rlp_header_split:
  assumes h: "rlp_header off (length p) = Inr h" and h': "rlp_header off' (length q) = Inr h'"
    and off: "off \<in> {128, 192}" "off' \<in> {128, 192}"
    and eq: "h @ p @ s = h' @ q @ t"
  shows "off = off' \<and> p = q \<and> s = t"
proof -
  from rlp_header_first [OF h off(1)] obtain c r where c: "h = c # r"
    and C: "length p < 56 \<and> unat c = off + length p \<and> r = [] \<or>
      56 \<le> length p \<and> unat c = off + 55 + length (min_be (length p)) \<and> r = min_be (length p) \<and>
      1 \<le> length (min_be (length p)) \<and> length (min_be (length p)) \<le> 8"
    by blast
  from rlp_header_first [OF h' off(2)] obtain c' r' where c': "h' = c' # r'"
    and C': "length q < 56 \<and> unat c' = off' + length q \<and> r' = [] \<or>
      56 \<le> length q \<and> unat c' = off' + 55 + length (min_be (length q)) \<and> r' = min_be (length q) \<and>
      1 \<le> length (min_be (length q)) \<and> length (min_be (length q)) \<le> 8"
    by blast
  from eq c c' have cc: "c = c'" and rest: "r @ p @ s = r' @ q @ t" by auto
  have "off \<le> unat c" "unat c < off + 64" "off' \<le> unat c'" "unat c' < off' + 64"
    using rlp_header_range h h' off c c' by blast+
  with off cc have oo: "off = off'" by auto
  have "length p = length q \<and> r = r'"
  proof (cases "length p < 56")
    case True
    with C C' cc oo show ?thesis by auto
  next
    case False
    with C C' cc oo have len: "length (min_be (length p)) = length (min_be (length q))"
      and R: "r = min_be (length p)" "r' = min_be (length q)" by auto
    with rest have "min_be (length p) = min_be (length q)" by simp
    then have "length p = length q" by (simp only: min_be_inj)
    with R show ?thesis by simp
  qed
  with oo rest show ?thesis by simp
qed

subsection \<open>Items are prefix-free\<close>

text \<open>The shape of an encoding: a single small byte, or a header and a payload.\<close>

lemma rlp_ref_bytes_cases:
  assumes "rlp_ref_bytes b = Inr a"
  shows "(\<exists>c. a = [c] \<and> b = [c] \<and> unat c < 128) \<or>
         (\<exists>h. rlp_header 128 (length b) = Inr h \<and> a = h @ b \<and> \<not> (length b = 1 \<and> unat (hd b) < 128))"
  using assms by (auto simp: rlp_ref_bytes_def bindE_Inr_conv length_Suc_conv split: if_splits)

lemma rlp_ref_bytes_prefix_free:
  assumes "rlp_ref_bytes b = Inr a" "rlp_ref_bytes b' = Inr a'" "a @ s = a' @ t"
  shows "b = b' \<and> s = t"
proof -
  have range: "128 \<le> unat (hd h)" "h \<noteq> []" if "rlp_header 128 n = Inr h" for h n
    using rlp_header_first [OF that] by auto
  from rlp_ref_bytes_cases [OF assms(1)] rlp_ref_bytes_cases [OF assms(2)]
  show ?thesis
  proof (elim disjE exE conjE)
    fix c c' assume "a = [c]" "b = [c]" "a' = [c']" "b' = [c']"
    with assms(3) show ?thesis by simp
  next
    fix c h assume "a = [c]" "unat c < 128" "rlp_header 128 (length b') = Inr h" "a' = h @ b'"
    with assms(3) range show ?thesis by (cases h) fastforce+
  next
    fix c h assume "a' = [c]" "unat c < 128" "rlp_header 128 (length b) = Inr h" "a = h @ b"
    with assms(3) range show ?thesis by (cases h) fastforce+
  next
    fix h h' assume "rlp_header 128 (length b) = Inr h" "rlp_header 128 (length b') = Inr h'"
      "a = h @ b" "a' = h' @ b'"
    with assms(3) show ?thesis using rlp_header_split [of 128 b h 128 b' h' s t] by simp
  qed
qed

text \<open>A string and a list never start with the same byte.\<close>

lemma rlp_ref_bytes_not_list:
  assumes "rlp_ref_bytes b = Inr a" "rlp_header 192 n = Inr h"
  shows "a @ s \<noteq> h @ t"
proof -
  from rlp_header_first [OF assms(2)] obtain d r where d: "h = d # r" "192 \<le> unat d" by auto
  from rlp_ref_bytes_cases [OF assms(1)] have "\<exists>c u. a = c # u \<and> unat c < 192"
  proof (elim disjE exE conjE)
    fix c assume "a = [c]" "unat c < 128"
    then show ?thesis by simp
  next
    fix g assume g: "rlp_header 128 (length b) = Inr g" "a = g @ b"
    then obtain c u where "g = c # u" "unat c < 128 + 64"
      using rlp_header_first [of 128 "length b" g] by fastforce
    with g show ?thesis by simp
  qed
  with d show ?thesis by auto
qed

text \<open>Every item is a string or a list once integers are normalised.\<close>

lemma rlp_ref_cases:
  assumes "rlp_ref x = Inr a"
  obtains (str) b where "rlp_norm x = RBytes b" "rlp_ref_bytes b = Inr a" "\<And>xs. x \<noteq> RList xs"
    | (lst) xs es h where "x = RList xs" "mapE rlp_ref xs = Inr es"
        "rlp_header 192 (length (concat es)) = Inr h" "a = h @ concat es"
  using assms by (cases x) (auto simp: bindE_Inr_conv split: if_splits)

lemma concat_prefix_free:
  assumes "map rlp_ref xs = map Inr es" "map rlp_ref ys = map Inr fs" "concat es = concat fs"
    and IH: "\<And>x y a b s t. x \<in> set xs \<Longrightarrow> rlp_ref x = Inr a \<Longrightarrow> rlp_ref y = Inr b \<Longrightarrow>
      a @ s = b @ t \<Longrightarrow> rlp_norm x = rlp_norm y \<and> s = t"
    and nonempty: "\<And>x. rlp_ref x \<noteq> Inr []"
  shows "map rlp_norm xs = map rlp_norm ys"
  using assms(1-4)
proof (induction xs arbitrary: ys es fs)
  case Nil
  then have "concat fs = []" by simp
  then have "fs = []" using Nil.prems(2) nonempty by (cases fs) (auto simp: map_eq_Cons_conv)
  with Nil show ?case by simp
next
  case (Cons x xs)
  from Cons.prems(1) obtain a es' where es: "es = a # es'" "rlp_ref x = Inr a"
    "map rlp_ref xs = map Inr es'" by (auto simp: Cons_eq_map_conv)
  with Cons.prems(3) nonempty [of x] have "fs \<noteq> []" by auto
  then obtain b fs' where fs: "fs = b # fs'" by (cases fs) auto
  with Cons.prems(2) obtain y ys' where ys: "ys = y # ys'" "rlp_ref y = Inr b"
    "map rlp_ref ys' = map Inr fs'" by (auto simp: map_eq_Cons_conv)
  have hd: "rlp_norm x = rlp_norm y \<and> concat es' = concat fs'"
    by (rule Cons.prems(4) [of x a y b]) (use Cons.prems(3) es fs ys in auto)
  have tails: "concat es' = concat fs'" using hd by simp
  have "map rlp_norm xs = map rlp_norm ys'"
  proof (rule Cons.IH [OF es(3) ys(3) tails])
    fix z w c d s t
    assume "z \<in> set xs" "rlp_ref z = Inr c" "rlp_ref w = Inr d" "c @ s = d @ t"
    then show "rlp_norm z = rlp_norm w \<and> s = t"
      by (intro Cons.prems(4)) simp_all
  qed
  with hd ys show ?case by simp
qed

lemma rlp_header_nonempty: "rlp_header off n \<noteq> Inr []"
  by (auto simp: rlp_header_def)

lemma rlp_ref_nonempty: "rlp_ref x \<noteq> Inr []"
proof
  assume "rlp_ref x = Inr []"
  then show False
    by (cases rule: rlp_ref_cases)
       (auto simp: rlp_ref_bytes_def bindE_Inr_conv rlp_header_nonempty split: if_splits)
qed

lemma rlp_ref_prefix_free:
  "rlp_ref x = Inr a \<Longrightarrow> rlp_ref y = Inr b \<Longrightarrow> a @ s = b @ t \<Longrightarrow>
     rlp_norm x = rlp_norm y \<and> s = t"
proof (induction x arbitrary: y a b s t)
  case (RBytes bs)
  from RBytes.prems(2) show ?case
  proof (cases rule: rlp_ref_cases)
    case (str c)
    with RBytes.prems show ?thesis using rlp_ref_bytes_prefix_free [of bs a c b s t] by simp
  next
    case (lst xs es h)
    with RBytes.prems show ?thesis
      using rlp_ref_bytes_not_list [of bs a _ h s "concat es @ t"] by simp
  qed
next
  case (RInt n)
  then have a: "rlp_ref_bytes (min_be (nat n)) = Inr a" by (simp split: if_splits)
  from RInt.prems(2) show ?case
  proof (cases rule: rlp_ref_cases)
    case (str c)
    with RInt.prems(3) a show ?thesis
      using rlp_ref_bytes_prefix_free [of "min_be (nat n)" a c b s t] by simp
  next
    case (lst xs es h)
    with RInt.prems(3) a show ?thesis
      using rlp_ref_bytes_not_list [of "min_be (nat n)" a _ h s "concat es @ t"] by simp
  qed
next
  case (RList xs)
  from RList.prems(1) obtain es h where x: "mapE rlp_ref xs = Inr es"
    "rlp_header 192 (length (concat es)) = Inr h" "a = h @ concat es"
    by (auto simp: bindE_Inr_conv)
  from RList.prems(2) show ?case
  proof (cases rule: rlp_ref_cases)
    case (str c)
    with RList.prems(3) x show ?thesis
      using rlp_ref_bytes_not_list [of c b _ h t "concat es @ s"] by auto
  next
    case (lst ys fs g)
    with RList.prems(3) x have "concat es = concat fs \<and> s = t"
      using rlp_header_split [of 192 "concat es" h 192 "concat fs" g s t] by simp
    then have eq: "concat es = concat fs" and st: "s = t" by simp_all
    have "map rlp_norm xs = map rlp_norm ys"
    proof (rule concat_prefix_free [of xs es ys fs])
      show "map rlp_ref xs = map Inr es" using x(1) by (simp add: mapE_Inr_conv)
      show "map rlp_ref ys = map Inr fs" using lst(2) by (simp add: mapE_Inr_conv)
    qed (fact eq RList.IH rlp_ref_nonempty)+
    with lst st show ?thesis by simp
  qed
qed

section \<open>The instance\<close>

definition ref_hexstr :: "string \<Rightarrow> bytes result" where
  "ref_hexstr s =
     (let t = (if take 2 s = ''0x'' \<or> take 2 s = ''0X'' then drop 2 s else s)
      in bytes_fromhex (if even (length t) then t else CHR ''0'' # t))"

definition ref_address :: "nat \<Rightarrow> string" where
  "ref_address k = ''0x'' @ bytes_hex (nat_to_be 20 k)"

definition ref_ext :: ext where
  "ref_ext = \<lparr>
     to_bytes_hexstr = ref_hexstr,
     keccak256 = (\<lambda>b. nat_to_be 32 (be_to_nat b)),
     to_checksum_address = (\<lambda>b. Inr (''0x'' @ bytes_hex b)),
     rlp_encode = rlp_ref,
     account_from_key = (\<lambda>s. bindE (ref_hexstr s) (\<lambda>b. Inr (be_to_nat b))),
     account_address = ref_address,
     account_key_hex = (\<lambda>k. bytes_hex (nat_to_be 32 k)),
     sign_msg_hash = (\<lambda>k h. Inr (int (k mod 256 ^ 20) + 1, 1, 0)),
     recover_hash = (\<lambda>h sig. Inr (ref_address (be_to_nat (take 32 sig) - 1))),
     ecc_public = (\<lambda>d. if 0 < d \<and> d < P256_N then Inr (d, d) else Inl (ValueError ''d'')),
     ecc_generate = int_from_bytes,
     ecc_construct_xy = (\<lambda>x y. Inr ()),
     dss_sign = (\<lambda>d rho h. nat_to_be 32 1 @ nat_to_be 32 1),
     dss_verify = (\<lambda>x y h sig. True),
     abi_selector = (\<lambda>c f. nat_to_be 4 (length f)),
     abi_calldata = (\<lambda>c f args. Inr (nat_to_be 4 (length f) @ nat_to_be 32 (length args)))\<rparr>"

lemma ref_ext_sel:
  "to_bytes_hexstr ref_ext = ref_hexstr"
  "keccak256 ref_ext = (\<lambda>b. nat_to_be 32 (be_to_nat b))"
  "to_checksum_address ref_ext = (\<lambda>b. Inr (''0x'' @ bytes_hex b))"
  "rlp_encode ref_ext = rlp_ref"
  "account_from_key ref_ext = (\<lambda>s. bindE (ref_hexstr s) (\<lambda>b. Inr (be_to_nat b)))"
  "account_address ref_ext = ref_address"
  "sign_msg_hash ref_ext = (\<lambda>k h. Inr (int (k mod 256 ^ 20) + 1, 1, 0))"
  "recover_hash ref_ext = (\<lambda>h sig. Inr (ref_address (be_to_nat (take 32 sig) - 1)))"
  "ecc_public ref_ext = (\<lambda>d. if 0 < d \<and> d < P256_N then Inr (d, d) else Inl (ValueError ''d''))"
  "ecc_construct_xy ref_ext = (\<lambda>x y. Inr ())"
  "dss_sign ref_ext = (\<lambda>d rho h. nat_to_be 32 1 @ nat_to_be 32 1)"
  "dss_verify ref_ext = (\<lambda>x y h sig. True)"
  "abi_selector ref_ext = (\<lambda>c f. nat_to_be 4 (length f))"
  "abi_calldata ref_ext = (\<lambda>c f args. Inr (nat_to_be 4 (length f) @ nat_to_be 32 (length args)))"
  by (simp_all add: ref_ext_def)

lemma ref_hexstr_hex [simp]: "ref_hexstr (''0x'' @ bytes_hex b) = Inr b"
  by (simp add: ref_hexstr_def Let_def)

lemma ref_rlp_faithful: "rlp_faithful ref_ext"
  unfolding rlp_faithful_def ref_ext_sel
  using rlp_ref_prefix_free [where s = "[]" and t = "[]"] by blast

lemma ref_keccak_ok: "keccak_ok ref_ext"
  by (simp add: keccak_ok_def ref_ext_sel)

lemma ref_hexstr_ok: "hexstr_ok ref_ext"
  by (simp only: hexstr_ok_def ref_ext_sel ref_hexstr_hex) simp

lemma ref_checksum_ok: "checksum_ok ref_ext"
proof -
  have "\<exists>s. (Inr (''0x'' @ bytes_hex b) :: string result) = Inr s \<and> s \<noteq> [] \<and> s \<noteq> ''0x'' \<and>
      ref_hexstr s = Inr b" if "length b = 20" for b :: bytes
  proof (intro exI conjI)
    show "ref_hexstr (''0x'' @ bytes_hex b) = Inr b" by (rule ref_hexstr_hex)
    show "''0x'' @ bytes_hex b \<noteq> ''0x''" using that by (cases b) auto
  qed simp_all
  then show ?thesis unfolding checksum_ok_def ref_ext_sel by blast
qed

lemma ref_account_ok: "account_ok ref_ext"
  by (simp only: account_ok_def ref_ext_sel ref_address_def ref_hexstr_hex) simp

lemma ref_ecdsa_ok: "ecdsa_ok ref_ext"
proof -
  have n: "int (k mod 256 ^ 20) + 1 < SECP256K1_N" for k
  proof -
    have "k mod 256 ^ 20 < (256 :: nat) ^ 20" by simp
    then have "int (k mod 256 ^ 20) < int (256 ^ 20)" by (simp only: of_nat_less_iff)
    then show ?thesis by (simp add: SECP256K1_N_def)
  qed
  have r: "ref_address (be_to_nat (nat_to_be 32 (nat (int (k mod 256 ^ 20) + 1))) - 1) = ref_address k"
    for k
  proof -
    have "k mod 256 ^ 20 + 1 < (256 :: nat) ^ 32"
    proof -
      have "k mod 256 ^ 20 < (256 :: nat) ^ 20" by simp
      then show ?thesis by simp
    qed
    then have "be_to_nat (nat_to_be 32 (nat (int (k mod 256 ^ 20) + 1))) - 1 = k mod 256 ^ 20"
      by (simp only: be_to_nat_nat_to_be nat_add_distrib nat_int) simp
    moreover have "nat_to_be 20 (k mod 256 ^ 20) = nat_to_be 20 k"
      by (metis be_to_nat_nat_to_be length_nat_to_be nat_to_be_be_to_nat)
    ultimately show ?thesis by (simp only: ref_address_def)
  qed
  show ?thesis
    unfolding ecdsa_ok_def ref_ext_sel
  proof (intro allI impI exI conjI)
    fix k and h :: bytes
    show "0 < int (k mod 256 ^ 20) + 1" by simp
    show "int (k mod 256 ^ 20) + 1 < SECP256K1_N" by (rule n)
    show "\<forall>w\<in>{0, 27 + 0}. Inr (ref_address (be_to_nat (take 32
        (nat_to_be 32 (nat (int (k mod 256 ^ 20) + 1)) @ nat_to_be 32 (nat 1) @ [word_of_int w])) - 1))
        = Inr (ref_address k)"
      using r [of k] by simp
  qed (simp_all add: SECP256K1_HALF_N_def SECP256K1_N_def)
qed

lemma ref_p256_ok: "p256_ok ref_ext"
proof -
  have b: "x < 256 ^ 32" if "x < P256_N" for x using that by (simp add: P256_N_def)
  have "\<exists>r s. nat_to_be 32 1 @ nat_to_be 32 1 = nat_to_be 32 r @ nat_to_be 32 s \<and>
      0 < r \<and> int r < P256_N \<and> 0 < s \<and> int s < P256_N"
    by (rule exI [of _ 1], rule exI [of _ 1]) (simp add: P256_N_def)
  then show ?thesis
    unfolding p256_ok_def ref_ext_sel using b by (auto split: if_splits)
qed

lemmas ref_ok = ref_rlp_faithful ref_keccak_ok ref_hexstr_ok ref_checksum_ok ref_account_ok ref_ecdsa_ok ref_p256_ok

end
