(* ===== verification/Samples.thy ===== *)
theory Samples
  imports Serialize Reference
begin

text \<open>
  Concrete values for the witnesses: a transaction with one call, its signed and sponsored
  variants, and the simplification rules that evaluate the serializer on them under \<open>ref_ext\<close>.
\<close>

definition demo_call :: call where
  "demo_call = \<lparr>call_to = replicate 20 0x11, call_value = 1000, call_data = [0xab, 0xcd]\<rparr>"

definition demo_tx :: tempo_tx where
  "demo_tx = tx_default\<lparr>chain_id := 42431, gas_limit := 100000, calls := [demo_call], nonce := 7,
     fee_token := Some (replicate 20 0x20)\<rparr>"

definition demo_sig :: signature where
  "demo_sig = \<lparr>sig_r = 5, sig_s = 6, sig_v = 27\<rparr>"

definition demo_signed :: tempo_tx where
  "demo_signed = demo_tx\<lparr>sender_signature := Some (SecpSig demo_sig),
     sender_address := Some (replicate 20 0x22)\<rparr>"

definition demo_awaiting :: tempo_tx where
  "demo_awaiting = demo_tx\<lparr>awaiting_fee_payer := True\<rparr>"

lemmas demo_defs = demo_tx_def demo_call_def demo_signed_def demo_awaiting_def demo_sig_def
  tx_default_def DEFAULT_CHAIN_ID_def CHAIN_ID_MAINNET_def

lemmas fields_eval = core_fields_def key_auth_fields_def envelope_fields_def ints_ok_def or_zero_def
  encode_access_list_def encode_fee_token_def encode_fee_payer_field_def encode_signature_def
  sig_to_rlp_list_def y_parity_def

text \<open>The bit length of a numeral: a rule that cannot loop on a variable.\<close>

lemma nat_bits_numeral:
  "nat_bits (numeral n) = Suc (nat_bits (numeral n div 2))"
  "nat_bits (Suc 0) = 1"
  by (subst nat_bits.simps, simp)+

lemmas rlp_eval = ref_ext_sel rlp_ref_bytes_def rlp_header_def min_be_def nat_bits_numeral

lemma demo_sig_ok [simp]: "signature_ok demo_sig"
  by (simp add: demo_defs signature_ok_def SECP256K1_N_def SECP256K1_HALF_N_def)

lemma demo_wf [simp]: "tx_wf demo_tx" "tx_wf demo_signed" "tx_wf demo_awaiting"
  by (simp_all add: demo_defs tx_wf_def tx_ok_def tx_addresses_ok_def fee_payer_ok_def call_ok_def)

end
