(* ===== verification/KeyAuth.thy ===== *)
theory KeyAuth
  imports KeychainSig Samples
begin

text \<open>
  Access key authorizations of \<open>tempo/keychain.py\<close>: \<open>TokenLimit\<close>, \<open>SelectorRule\<close>, \<open>CallScope\<close>,
  \<open>KeyRestrictions\<close> and \<open>KeyAuthorization\<close>, their constructors and their \<open>to_rlp\<close> methods. Every
  \<open>to_rlp\<close> is shown to meet the contract \<open>rlp_encoder\<close>: the wire form determines the value, up
  to what the wire cannot express. The elements of a tuple argument may be given as objects or
  as dictionaries of constructor arguments; a datatype per class has both cases.
\<close>

section \<open>TokenLimit\<close>

datatype signature_type = SECP256K1 | P256_KEY | WEBAUTHN

definition signature_type_int :: "signature_type \<Rightarrow> int" where
  "signature_type_int t = (case t of SECP256K1 \<Rightarrow> 0 | P256_KEY \<Rightarrow> 1 | WEBAUTHN \<Rightarrow> 2)"

definition validate_token_limit :: "int \<Rightarrow> unit result" where
  "validate_token_limit v =
     (if v < 0 then Inl (ValueError ''limit/period must be non-negative'') else Inr ())"

record token_limit =
  tl_token :: bytes
  tl_limit :: int
  tl_period :: int

definition token_limit_init :: "ext \<Rightarrow> bytes_like \<Rightarrow> int \<Rightarrow> int \<Rightarrow> token_limit result" where
  "token_limit_init E token lim per =
     bindE (as_address E token) (\<lambda>a.
     bindE (validate_nonempty_address a) (\<lambda>_.
     bindE (validate_token_limit lim) (\<lambda>_.
     bindE (validate_token_limit per) (\<lambda>_.
       Inr \<lparr>tl_token = a, tl_limit = lim, tl_period = per\<rparr>))))"

definition token_limit_create :: "ext \<Rightarrow> bytes_like \<Rightarrow> int \<Rightarrow> int option \<Rightarrow> token_limit result" where
  "token_limit_create E token lim per =
     token_limit_init E token lim (case per of None \<Rightarrow> 0 | Some p \<Rightarrow> p)"

definition token_limit_to_rlp :: "token_limit \<Rightarrow> rlp" where
  "token_limit_to_rlp t =
     (if tl_period t = 0 then RList [RBytes (tl_token t), RInt (tl_limit t)]
      else RList [RBytes (tl_token t), RInt (tl_limit t), RInt (tl_period t)])"

section \<open>SelectorRule\<close>

record selector_rule =
  sr_selector :: bytes
  sr_recipients :: "bytes list"

definition selector_rule_init :: "ext \<Rightarrow> bytes_like \<Rightarrow> bytes_like list \<Rightarrow> selector_rule result" where
  "selector_rule_init E sel recipients =
     bindE (as_bytes E sel) (\<lambda>s.
     bindE (mapE (as_address E) recipients) (\<lambda>rs.
       Inr \<lparr>sr_selector = s, sr_recipients = rs\<rparr>))"

definition selector_rule_create ::
    "ext \<Rightarrow> bytes_like \<Rightarrow> bytes_like list option \<Rightarrow> selector_rule result" where
  "selector_rule_create E sel recipients =
     selector_rule_init E sel (case recipients of None \<Rightarrow> [] | Some rs \<Rightarrow> rs)"

definition selector_rule_to_rlp :: "selector_rule \<Rightarrow> rlp" where
  "selector_rule_to_rlp r = RList [RBytes (sr_selector r), RList (map RBytes (sr_recipients r))]"

section \<open>CallScope\<close>

definition ZERO_SELECTOR :: bytes where
  "ZERO_SELECTOR = replicate 4 0"

record call_scope =
  cs_target :: bytes
  cs_selector :: bytes
  cs_selector_rules :: "selector_rule list"

datatype rule_in = RuleObj selector_rule | RuleKw bytes_like "bytes_like list option"

definition rule_of :: "ext \<Rightarrow> rule_in \<Rightarrow> selector_rule result" where
  "rule_of E r =
     (case r of RuleObj s \<Rightarrow> Inr s | RuleKw sel rs \<Rightarrow> selector_rule_create E sel rs)"

definition call_scope_init ::
    "ext \<Rightarrow> bytes_like \<Rightarrow> bytes_like \<Rightarrow> rule_in list \<Rightarrow> call_scope result" where
  "call_scope_init E target sel rules =
     bindE (as_address E target) (\<lambda>a.
     bindE (as_bytes E sel) (\<lambda>s.
     bindE (mapE (rule_of E) rules) (\<lambda>rs.
     bindE (validate_nonempty_address a) (\<lambda>_.
       Inr \<lparr>cs_target = a, cs_selector = s, cs_selector_rules = rs\<rparr>))))"

text \<open>The rules that go on the wire: the plain selector is folded into a rule of its own.\<close>

definition wire_rules :: "call_scope \<Rightarrow> selector_rule list" where
  "wire_rules c =
     (if cs_selector_rules c = [] \<and> cs_selector c \<noteq> ZERO_SELECTOR
      then [\<lparr>sr_selector = cs_selector c, sr_recipients = []\<rparr>]
      else cs_selector_rules c)"

definition call_scope_to_rlp :: "call_scope \<Rightarrow> rlp" where
  "call_scope_to_rlp c =
     RList [RBytes (cs_target c), RList (map selector_rule_to_rlp (wire_rules c))]"

definition scope_transfer :: "ext \<Rightarrow> bytes_like \<Rightarrow> call_scope result" where
  "scope_transfer E token =
     call_scope_init E token (BBytes (abi_selector E ''TIP20'' ''transfer'')) []"

definition scope_approve :: "ext \<Rightarrow> bytes_like \<Rightarrow> call_scope result" where
  "scope_approve E token =
     call_scope_init E token (BBytes (abi_selector E ''TIP20'' ''approve'')) []"

definition scope_unrestricted :: "ext \<Rightarrow> bytes_like \<Rightarrow> call_scope result" where
  "scope_unrestricted E target = call_scope_init E target (BBytes ZERO_SELECTOR) []"

definition scope_with_selector ::
    "ext \<Rightarrow> bytes_like \<Rightarrow> bytes_like \<Rightarrow> rule_in list \<Rightarrow> call_scope result" where
  "scope_with_selector E target sel rules = call_scope_init E target sel rules"

section \<open>KeyRestrictions\<close>

datatype limit_in = LimitObj token_limit | LimitKw bytes_like int "int option"

definition limit_of :: "ext \<Rightarrow> limit_in \<Rightarrow> token_limit result" where
  "limit_of E l = (case l of LimitObj t \<Rightarrow> Inr t | LimitKw a n p \<Rightarrow> token_limit_create E a n p)"

datatype scope_in = ScopeObj call_scope | ScopeKw bytes_like bytes_like "rule_in list option"

definition scope_of :: "ext \<Rightarrow> scope_in \<Rightarrow> call_scope result" where
  "scope_of E c =
     (case c of
        ScopeObj s \<Rightarrow> Inr s
      | ScopeKw a s rs \<Rightarrow> call_scope_init E a s (case rs of None \<Rightarrow> [] | Some r \<Rightarrow> r))"

record key_restrictions =
  kr_expiry :: int
  kr_enforce_limits :: bool
  kr_limits :: "token_limit list"
  kr_allow_any_calls :: bool
  kr_allowed_calls :: "call_scope list"

definition key_restrictions_init ::
    "ext \<Rightarrow> int \<Rightarrow> bool \<Rightarrow> limit_in list \<Rightarrow> bool \<Rightarrow> scope_in list \<Rightarrow> key_restrictions result" where
  "key_restrictions_init E exp enf lims any scopes =
     bindE (mapE (limit_of E) lims) (\<lambda>ls.
     bindE (mapE (scope_of E) scopes) (\<lambda>cs.
       Inr \<lparr>kr_expiry = exp, kr_enforce_limits = enf, kr_limits = ls,
            kr_allow_any_calls = any, kr_allowed_calls = cs\<rparr>))"

definition key_restrictions_create ::
    "ext \<Rightarrow> int \<Rightarrow> bool \<Rightarrow> limit_in list \<Rightarrow> bool \<Rightarrow> scope_in list \<Rightarrow> key_restrictions result" where
  "key_restrictions_create E exp enf lims any scopes =
     key_restrictions_init E exp enf lims any scopes"

definition kr_with_limits :: "ext \<Rightarrow> key_restrictions \<Rightarrow> limit_in list \<Rightarrow> key_restrictions result" where
  "kr_with_limits E r lims =
     key_restrictions_init E (kr_expiry r) True lims (kr_allow_any_calls r)
       (map ScopeObj (kr_allowed_calls r))"

definition kr_add_call :: "ext \<Rightarrow> key_restrictions \<Rightarrow> scope_in \<Rightarrow> key_restrictions result" where
  "kr_add_call E r scope =
     key_restrictions_init E (kr_expiry r) (kr_enforce_limits r) (map LimitObj (kr_limits r)) False
       (map ScopeObj (kr_allowed_calls r) @ [scope])"

definition kr_as_admin :: "ext \<Rightarrow> key_restrictions \<Rightarrow> key_restrictions result" where
  "kr_as_admin E r = key_restrictions_init E 0 False [] True []"

definition key_restrictions_to_rlp :: "key_restrictions \<Rightarrow> rlp" where
  "key_restrictions_to_rlp r =
     RList [RInt (kr_expiry r), RInt (if kr_enforce_limits r then 1 else 0),
            RList (map token_limit_to_rlp (kr_limits r)),
            RInt (if kr_allow_any_calls r then 1 else 0),
            RList (map call_scope_to_rlp (kr_allowed_calls r))]"

section \<open>KeyAuthorization\<close>

record key_authorization =
  ka_key_id :: bytes
  ka_chain_id :: int
  ka_account :: "bytes option"
  ka_key_type :: int
  ka_expiry :: int
  ka_limits :: "token_limit list option"
  ka_allowed_calls :: "call_scope list option"
  ka_witness :: bytes
  ka_is_admin :: bool

text \<open>A converter that leaves \<open>None\<close> alone and converts each element otherwise.\<close>

definition optional_tuple :: "('a \<Rightarrow> 'b result) \<Rightarrow> 'a list option \<Rightarrow> 'b list option result" where
  "optional_tuple f v =
     (case v of None \<Rightarrow> Inr None | Some xs \<Rightarrow> bindE (mapE f xs) (\<lambda>ys. Inr (Some ys)))"

definition key_authorization_init ::
    "ext \<Rightarrow> bytes_like \<Rightarrow> int \<Rightarrow> bytes_like option \<Rightarrow> int \<Rightarrow> int \<Rightarrow> limit_in list option
       \<Rightarrow> scope_in list option \<Rightarrow> bytes_like \<Rightarrow> bool \<Rightarrow> key_authorization result" where
  "key_authorization_init E key_id chain acct ktype exp lims scopes wit admin =
     bindE (as_address E key_id) (\<lambda>k.
     bindE (as_optional_address E acct) (\<lambda>a.
     bindE (optional_tuple (limit_of E) lims) (\<lambda>ls.
     bindE (optional_tuple (scope_of E) scopes) (\<lambda>cs.
     bindE (as_bytes E wit) (\<lambda>w.
     bindE (validate_nonempty_address k) (\<lambda>_.
       if w \<noteq> [] \<and> length w \<noteq> 32 then Inl (ValueError ''witness must be 32 bytes when set'')
       else if admin \<and> (exp \<noteq> 0 \<or> ls \<noteq> None \<or> cs \<noteq> None)
       then Inl (ValueError
              ''admin KeyAuthorization must not set expiry, limits, or allowed_calls'')
       else Inr \<lparr>ka_key_id = k, ka_chain_id = chain, ka_account = a, ka_key_type = ktype,
                 ka_expiry = exp, ka_limits = ls, ka_allowed_calls = cs, ka_witness = w,
                 ka_is_admin = admin\<rparr>))))))"

definition ka_optionals :: "key_authorization \<Rightarrow> rlp option list" where
  "ka_optionals k =
     [if ka_expiry k = 0 then None else Some (RInt (ka_expiry k)),
      map_option (\<lambda>ls. RList (map token_limit_to_rlp ls)) (ka_limits k),
      map_option (\<lambda>cs. RList (map call_scope_to_rlp cs)) (ka_allowed_calls k),
      if ka_witness k = [] then None else Some (RBytes (ka_witness k)),
      if ka_is_admin k then Some (RInt 1) else None,
      map_option RBytes (ka_account k)]"

text \<open>\<open>max((i for i, v in enumerate(optionals) if v is not None), default=-1)\<close>.\<close>

definition last_present :: "'a option list \<Rightarrow> int" where
  "last_present vs = fold max [int i. (i, v) \<leftarrow> enumerate 0 vs, v \<noteq> None] (-1)"

definition pad_absent :: "rlp option \<Rightarrow> rlp" where
  "pad_absent v = (case v of None \<Rightarrow> RBytes [] | Some x \<Rightarrow> x)"

definition trailing_canonical :: "rlp option list \<Rightarrow> rlp list" where
  "trailing_canonical vs = map pad_absent (take (nat (last_present vs + 1)) vs)"

definition key_authorization_to_rlp :: "key_authorization \<Rightarrow> rlp" where
  "key_authorization_to_rlp k =
     RList ([RInt (ka_chain_id k), RInt (ka_key_type k), RBytes (ka_key_id k)]
            @ trailing_canonical (ka_optionals k))"

definition signature_hash :: "ext \<Rightarrow> key_authorization \<Rightarrow> bytes result" where
  "signature_hash E k =
     bindE (rlp_encode E (key_authorization_to_rlp k)) (\<lambda>b. Inr (keccak256 E b))"

section \<open>The wire forms determine the values\<close>

definition token_limit_ok :: "token_limit \<Rightarrow> bool" where
  "token_limit_ok t \<longleftrightarrow> length (tl_token t) = 20 \<and> 0 \<le> tl_limit t \<and> 0 \<le> tl_period t"

definition call_scope_ok :: "call_scope \<Rightarrow> bool" where
  "call_scope_ok c \<longleftrightarrow> length (cs_target c) = 20"

definition key_restrictions_ok :: "key_restrictions \<Rightarrow> bool" where
  "key_restrictions_ok r \<longleftrightarrow>
     0 \<le> kr_expiry r \<and> list_all token_limit_ok (kr_limits r) \<and>
     list_all call_scope_ok (kr_allowed_calls r)"

lemma validate_token_limit_conv [simp]: "validate_token_limit v = Inr u \<longleftrightarrow> 0 \<le> v"
  by (simp add: validate_token_limit_def)

lemma token_limit_init_conv:
  "token_limit_init E a n p = Inr t \<longleftrightarrow>
     as_address E a = Inr (tl_token t) \<and> tl_limit t = n \<and> tl_period t = p \<and> token_limit_ok t"
  by (cases t) (auto simp: token_limit_init_def bindE_Inr_conv token_limit_ok_def)

lemma limit_of_ok:
  "limit_of E l = Inr t \<Longrightarrow> (\<And>x. l = LimitObj x \<Longrightarrow> token_limit_ok x) \<Longrightarrow> token_limit_ok t"
  by (cases l) (auto simp: limit_of_def token_limit_create_def token_limit_init_conv)

lemma call_scope_init_ok: "call_scope_init E a s rs = Inr c \<Longrightarrow> call_scope_ok c"
  by (auto simp: call_scope_init_def call_scope_ok_def bindE_Inr_conv)

lemma scope_of_ok:
  "scope_of E l = Inr c \<Longrightarrow> (\<And>x. l = ScopeObj x \<Longrightarrow> call_scope_ok x) \<Longrightarrow> call_scope_ok c"
  by (cases l) (auto simp: scope_of_def call_scope_init_ok)

interpretation limit_wire: exact_rlp_encoder token_limit_to_rlp token_limit_ok id
  by unfold_locales (auto simp: token_limit_to_rlp_def token_limit_ok_def eq_nat_nat_iff split: if_splits)

interpretation rule_wire: exact_rlp_encoder selector_rule_to_rlp "\<lambda>_. True" id
  by unfold_locales (auto simp: selector_rule_to_rlp_def)

text \<open>A scope on the wire: its target and the rules sent, without the plain selector.\<close>

definition scope_view :: "call_scope \<Rightarrow> bytes \<times> selector_rule list" where
  "scope_view c = (cs_target c, wire_rules c)"

lemma rules_wire_iff:
  "map (rlp_norm \<circ> selector_rule_to_rlp) rs = map (rlp_norm \<circ> selector_rule_to_rlp) qs \<longleftrightarrow> rs = qs"
  using rule_wire.RList_iff [of rs qs] by (simp add: list_all_iff)

interpretation scope_wire: exact_rlp_encoder call_scope_to_rlp call_scope_ok scope_view
  by unfold_locales (auto simp: call_scope_to_rlp_def scope_view_def rules_wire_iff)

definition restrictions_view ::
    "key_restrictions \<Rightarrow> int \<times> bool \<times> token_limit list \<times> bool \<times> (bytes \<times> selector_rule list) list" where
  "restrictions_view r =
     (kr_expiry r, kr_enforce_limits r, kr_limits r, kr_allow_any_calls r,
      map scope_view (kr_allowed_calls r))"

lemma limits_wire_iff:
  assumes "list_all token_limit_ok ls" "list_all token_limit_ok ms"
  shows "map (rlp_norm \<circ> token_limit_to_rlp) ls = map (rlp_norm \<circ> token_limit_to_rlp) ms \<longleftrightarrow> ls = ms"
  using limit_wire.RList_iff [OF assms] by simp

lemma scopes_wire_iff:
  assumes "list_all call_scope_ok cs" "list_all call_scope_ok ds"
  shows "map (rlp_norm \<circ> call_scope_to_rlp) cs = map (rlp_norm \<circ> call_scope_to_rlp) ds \<longleftrightarrow>
    map scope_view cs = map scope_view ds"
  using scope_wire.RList_iff [OF assms] by simp

interpretation restrictions_wire:
    exact_rlp_encoder key_restrictions_to_rlp key_restrictions_ok restrictions_view
  by unfold_locales
     (auto simp: key_restrictions_to_rlp_def key_restrictions_ok_def restrictions_view_def
        limits_wire_iff scopes_wire_iff eq_nat_nat_iff split: if_splits)

section \<open>The trailing-canonical form\<close>

text \<open>What is kept is the list without its absent tail.\<close>

lemma last_present_Nil [simp]: "last_present [] = -1"
  by (simp add: last_present_def)

lemma last_present_snoc_max:
  "last_present (vs @ [v]) =
     (if v = None then last_present vs else max (int (length vs)) (last_present vs))"
  by (cases v) (simp_all add: last_present_def enumerate_append_eq)

lemma last_present_bounds: "-1 \<le> last_present vs \<and> last_present vs < int (length vs)"
  by (induction vs rule: rev_induct) (auto simp: last_present_snoc_max)

lemma last_present_snoc:
  "last_present (vs @ [v]) = (if v = None then last_present vs else int (length vs))"
  using last_present_bounds [of vs] by (simp add: last_present_snoc_max)

definition keep_present :: "'a option list \<Rightarrow> 'a option list" where
  "keep_present vs = take (nat (last_present vs + 1)) vs"

lemma keep_present_Nil [simp]: "keep_present [] = []"
  by (simp add: keep_present_def)

lemma keep_present_snoc:
  "keep_present (vs @ [v]) = (if v = None then keep_present vs else vs @ [v])"
proof -
  have "nat (last_present vs + 1) \<le> length vs" using last_present_bounds [of vs] by linarith
  then show ?thesis by (simp add: keep_present_def last_present_snoc nat_add_distrib)
qed

lemma keep_present_last: "keep_present vs = [] \<or> last (keep_present vs) \<noteq> None"
  by (induction vs rule: rev_induct) (auto simp: keep_present_snoc)

lemma keep_present_pad: "\<exists>k. vs = keep_present vs @ replicate k None"
proof (induction vs rule: rev_induct)
  case Nil
  show ?case by (intro exI [of _ 0]) simp
next
  case (snoc v vs)
  then obtain k where k: "vs = keep_present vs @ replicate k None" by blast
  show ?case
  proof (cases v)
    case None
    have "vs @ [None] = (keep_present vs @ replicate k None) @ [None]" using k by simp
    also have "\<dots> = keep_present vs @ replicate (Suc k) None" by (simp add: replicate_append_same)
    finally show ?thesis unfolding None keep_present_snoc if_P [OF refl] by blast
  next
    case (Some x)
    then show ?thesis by (intro exI [of _ 0]) (simp add: keep_present_snoc)
  qed
qed

text \<open>
  Present values that are not empty strings can be told from the padding, so the kept list
  determines the whole list of its length.
\<close>

definition present_nonempty :: "rlp option list \<Rightarrow> bool" where
  "present_nonempty vs \<longleftrightarrow> (\<forall>v \<in> set vs. \<forall>x. v = Some x \<longrightarrow> rlp_norm x \<noteq> RBytes [])"

lemma pad_absent_determines:
  assumes "present_nonempty xs" "present_nonempty ys"
    and "map (rlp_norm \<circ> pad_absent) xs = map (rlp_norm \<circ> pad_absent) ys"
  shows "map (map_option rlp_norm) xs = map (map_option rlp_norm) ys"
  using assms
proof (induction xs arbitrary: ys)
  case (Cons x xs)
  then obtain y ys' where ys: "ys = y # ys'" by (cases ys) auto
  from Cons ys have "map (map_option rlp_norm) xs = map (map_option rlp_norm) ys'"
    by (simp add: present_nonempty_def)
  moreover from Cons.prems ys have "map_option rlp_norm x = map_option rlp_norm y"
    by (cases x; cases y) (auto simp: present_nonempty_def pad_absent_def)
  ultimately show ?case by (simp add: ys)
qed simp

lemma trailing_canonical_determines:
  assumes "present_nonempty xs" "present_nonempty ys" "length xs = length ys"
    and "map rlp_norm (trailing_canonical xs) = map rlp_norm (trailing_canonical ys)"
  shows "map (map_option rlp_norm) xs = map (map_option rlp_norm) ys"
proof -
  from keep_present_pad [of xs] keep_present_pad [of ys] obtain j k
    where pad: "xs = keep_present xs @ replicate j None" "ys = keep_present ys @ replicate k None" by blast
  have ne: "present_nonempty (keep_present xs)" "present_nonempty (keep_present ys)"
    using assms(1,2) by (auto simp: present_nonempty_def keep_present_def dest!: in_set_takeD)
  have kept: "map (map_option rlp_norm) (keep_present xs) = map (map_option rlp_norm) (keep_present ys)"
    using assms(4) by (intro pad_absent_determines [OF ne])
      (simp add: trailing_canonical_def keep_present_def)
  then have "length (keep_present xs) = length (keep_present ys)" by (metis length_map)
  with pad assms(3) have "j = k" by (metis add_left_cancel length_append length_replicate)
  have "map (map_option rlp_norm) xs = map (map_option rlp_norm) (keep_present xs) @ replicate j None"
    by (subst pad(1)) simp
  also have "\<dots> = map (map_option rlp_norm) (keep_present ys) @ replicate k None"
    using kept \<open>j = k\<close> by simp
  also have "\<dots> = map (map_option rlp_norm) ys" by (subst (2) pad(2)) simp
  finally show ?thesis .
qed

section \<open>Key authorizations\<close>

definition key_authorization_ok :: "key_authorization \<Rightarrow> bool" where
  "key_authorization_ok k \<longleftrightarrow>
     length (ka_key_id k) = 20 \<and> 0 \<le> ka_chain_id k \<and> 0 \<le> ka_key_type k \<and> 0 \<le> ka_expiry k \<and>
     address_opt_ok (ka_account k) \<and> (ka_witness k = [] \<or> length (ka_witness k) = 32) \<and>
     (case ka_limits k of None \<Rightarrow> True | Some ls \<Rightarrow> list_all token_limit_ok ls) \<and>
     (case ka_allowed_calls k of None \<Rightarrow> True | Some cs \<Rightarrow> list_all call_scope_ok cs) \<and>
     (ka_is_admin k \<longrightarrow> ka_expiry k = 0 \<and> ka_limits k = None \<and> ka_allowed_calls k = None)"

text \<open>What the wire form of an authorization carries: everything, scopes by their wire rules.\<close>

definition auth_view :: "key_authorization \<Rightarrow>
    (bytes \<times> int \<times> bytes option \<times> int \<times> int) \<times> token_limit list option \<times>
    (bytes \<times> selector_rule list) list option \<times> bytes \<times> bool" where
  "auth_view k =
     ((ka_key_id k, ka_chain_id k, ka_account k, ka_key_type k, ka_expiry k), ka_limits k,
      map_option (map scope_view) (ka_allowed_calls k), ka_witness k, ka_is_admin k)"

lemma ka_optionals_present: "key_authorization_ok k \<Longrightarrow> present_nonempty (ka_optionals k)"
  by (auto simp: present_nonempty_def ka_optionals_def key_authorization_ok_def split: if_splits)

lemma optional_limits_determine:
  assumes "case a of None \<Rightarrow> True | Some ls \<Rightarrow> list_all token_limit_ok ls"
    "case b of None \<Rightarrow> True | Some ls \<Rightarrow> list_all token_limit_ok ls"
  shows "map_option rlp_norm (map_option (\<lambda>ls. RList (map token_limit_to_rlp ls)) a) =
      map_option rlp_norm (map_option (\<lambda>ls. RList (map token_limit_to_rlp ls)) b) \<longleftrightarrow> a = b"
  using assms by (cases a; cases b) (simp_all add: limits_wire_iff)

lemma optional_scopes_determine:
  assumes "case a of None \<Rightarrow> True | Some cs \<Rightarrow> list_all call_scope_ok cs"
    "case b of None \<Rightarrow> True | Some cs \<Rightarrow> list_all call_scope_ok cs"
  shows "map_option rlp_norm (map_option (\<lambda>cs. RList (map call_scope_to_rlp cs)) a) =
      map_option rlp_norm (map_option (\<lambda>cs. RList (map call_scope_to_rlp cs)) b) \<longleftrightarrow>
    map_option (map scope_view) a = map_option (map scope_view) b"
  using assms by (cases a; cases b) (simp_all add: scopes_wire_iff)

lemma key_authorization_determines:
  assumes ok: "key_authorization_ok k" "key_authorization_ok l"
    and eq: "rlp_norm (key_authorization_to_rlp k) = rlp_norm (key_authorization_to_rlp l)"
  shows "auth_view k = auth_view l"
proof -
  from eq have head: "nat (ka_chain_id k) = nat (ka_chain_id l)"
    "nat (ka_key_type k) = nat (ka_key_type l)" "ka_key_id k = ka_key_id l"
    and "map rlp_norm (trailing_canonical (ka_optionals k)) =
      map rlp_norm (trailing_canonical (ka_optionals l))"
    by (simp_all add: key_authorization_to_rlp_def)
  then have opts: "map (map_option rlp_norm) (ka_optionals k) =
      map (map_option rlp_norm) (ka_optionals l)"
    by (intro trailing_canonical_determines ka_optionals_present ok) (simp_all add: ka_optionals_def)
  have nums: "ka_chain_id k = ka_chain_id l" "ka_key_type k = ka_key_type l"
    using head ok by (simp_all add: key_authorization_ok_def eq_nat_nat_iff)
  have "ka_expiry k = ka_expiry l"
    using opts ok by (simp add: ka_optionals_def key_authorization_ok_def eq_nat_nat_iff split: if_splits)
  moreover have "ka_limits k = ka_limits l"
    using opts ok optional_limits_determine [of "ka_limits k" "ka_limits l"]
    by (simp add: ka_optionals_def key_authorization_ok_def)
  moreover have "map_option (map scope_view) (ka_allowed_calls k) =
      map_option (map scope_view) (ka_allowed_calls l)"
    using opts ok optional_scopes_determine [of "ka_allowed_calls k" "ka_allowed_calls l"]
    by (simp add: ka_optionals_def key_authorization_ok_def)
  moreover have "ka_witness k = ka_witness l" "ka_is_admin k = ka_is_admin l"
    using opts by (simp_all add: ka_optionals_def split: if_splits)
  moreover have "ka_account k = ka_account l"
    using opts by (cases "ka_account k"; cases "ka_account l") (simp_all add: ka_optionals_def)
  ultimately show ?thesis using nums head by (simp add: auth_view_def)
qed

interpretation auth_wire: rlp_encoder key_authorization_to_rlp key_authorization_ok auth_view
  by unfold_locales (rule key_authorization_determines)

section \<open>Properties\<close>

text \<open>
  C7. The payload the root account signs commits to the authorization: if the RLP encodings of two
  authorizations are equal, so are the key, the chain, the account, the key type, the expiry, the
  limits, the witness, the admin flag and the rules of every call scope; in particular an absent
  restriction (unlimited) is never confused with an empty one (deny all).
\<close>

theorem authorization_payload_commits:
  assumes "rlp_faithful E" "key_authorization_ok k" "key_authorization_ok l"
    and "rlp_encode E (key_authorization_to_rlp k) = Inr b"
    and "rlp_encode E (key_authorization_to_rlp l) = Inr b"
  shows "auth_view k = auth_view l"
  by (rule auth_wire.wire_determines [OF assms(2,3) rlp_faithfulD [OF assms(1,4,5)]])

definition demo_scope :: call_scope where
  "demo_scope = \<lparr>cs_target = replicate 20 3, cs_selector = [1, 2, 3, 4], cs_selector_rules = []\<rparr>"

definition demo_scope_folded :: call_scope where
  "demo_scope_folded = \<lparr>cs_target = replicate 20 3, cs_selector = ZERO_SELECTOR,
     cs_selector_rules = [\<lparr>sr_selector = [1, 2, 3, 4], sr_recipients = []\<rparr>]\<rparr>"

definition demo_auth :: key_authorization where
  "demo_auth = \<lparr>ka_key_id = replicate 20 1, ka_chain_id = 42431, ka_account = None, ka_key_type = 0,
     ka_expiry = 0, ka_limits = Some [], ka_allowed_calls = Some [demo_scope], ka_witness = [],
     ka_is_admin = False\<rparr>"

lemma ZERO_SELECTOR_eq: "ZERO_SELECTOR = [0, 0, 0, 0]"
  by (simp add: ZERO_SELECTOR_def eval_nat_numeral)

lemmas demo_auth_defs = demo_auth_def demo_scope_def demo_scope_folded_def ZERO_SELECTOR_eq

lemmas auth_eval = key_authorization_to_rlp_def trailing_canonical_def last_present_def
  ka_optionals_def pad_absent_def call_scope_to_rlp_def wire_rules_def selector_rule_to_rlp_def

theorem authorization_payload_commits_witness:
  "auth_view demo_auth = auth_view (demo_auth\<lparr>ka_allowed_calls := Some [demo_scope_folded]\<rparr>)"
proof -
  let ?l = "demo_auth\<lparr>ka_allowed_calls := Some [demo_scope_folded]\<rparr>"
  have ok: "key_authorization_ok demo_auth" "key_authorization_ok ?l"
    by (simp_all add: demo_auth_defs key_authorization_ok_def call_scope_ok_def)
  have "\<exists>b. rlp_encode ref_ext (key_authorization_to_rlp demo_auth) = Inr b \<and>
      rlp_encode ref_ext (key_authorization_to_rlp ?l) = Inr b"
    by (simp add: demo_auth_defs auth_eval) (simp add: rlp_eval)
  then show ?thesis using authorization_payload_commits [OF ref_rlp_faithful ok] by blast
qed

text \<open>
  C18. The trailing-canonical layout: after the three mandatory fields an authorization carries its
  optional fields up to the last present one, an absent field before it as an empty string and
  nothing after it; so the last field of a longer list is never padding.
\<close>

theorem authorization_trailing_canonical:
  "\<exists>n fs. key_authorization_to_rlp k =
       RList ([RInt (ka_chain_id k), RInt (ka_key_type k), RBytes (ka_key_id k)] @ fs) \<and>
     n \<le> 6 \<and> length fs = n \<and> (n = 0 \<or> ka_optionals k ! (n - 1) \<noteq> None) \<and>
     (\<forall>i < n. fs ! i = (case ka_optionals k ! i of None \<Rightarrow> RBytes [] | Some x \<Rightarrow> x)) \<and>
     (\<forall>i < 6. n \<le> i \<longrightarrow> ka_optionals k ! i = None)"
proof -
  let ?o = "ka_optionals k" let ?p = "keep_present ?o"
  obtain j where pad: "?o = ?p @ replicate j None" using keep_present_pad by blast
  have six: "length ?o = 6" by (simp add: ka_optionals_def)
  have len: "length ?p + j = 6" using six by (subst (asm) pad) simp
  have nth: "i < length ?p \<Longrightarrow> ?o ! i = ?p ! i" for i by (subst pad) (simp add: nth_append)
  have gone: "length ?p \<le> i \<Longrightarrow> i < 6 \<Longrightarrow> ?o ! i = None" for i
    using len by (subst pad) (simp add: nth_append)
  have "?p = [] \<or> ?o ! (length ?p - 1) \<noteq> None"
    using keep_present_last [of ?o] nth [of "length ?p - 1"] by (cases "?p = []") (auto simp: last_conv_nth)
  then show ?thesis
    using len nth gone
    by (intro exI [of _ "length ?p"] exI [of _ "map pad_absent ?p"])
       (auto simp: key_authorization_to_rlp_def trailing_canonical_def pad_absent_def keep_present_def)
qed

theorem authorization_trailing_canonical_witness:
  "\<exists>fs. key_authorization_to_rlp demo_auth = RList fs \<and> length fs = 6"
proof -
  have o: "ka_optionals demo_auth ! 2 \<noteq> None" "ka_optionals demo_auth ! 3 = None"
    "ka_optionals demo_auth ! 4 = None" "ka_optionals demo_auth ! 5 = None"
    by (simp_all add: ka_optionals_def demo_auth_defs)
  obtain n fs where n: "key_authorization_to_rlp demo_auth =
       RList ([RInt (ka_chain_id demo_auth), RInt (ka_key_type demo_auth), RBytes (ka_key_id demo_auth)] @ fs)"
    "n \<le> 6" "length fs = n" "n = 0 \<or> ka_optionals demo_auth ! (n - 1) \<noteq> None"
    "\<forall>i < 6. n \<le> i \<longrightarrow> ka_optionals demo_auth ! i = None"
    using authorization_trailing_canonical [of demo_auth] by blast
  from n(5) o(1) have "\<not> n \<le> 2" by auto
  moreover have "n \<noteq> 4" "n \<noteq> 5" "n \<noteq> 6" using n(4) o by auto
  ultimately have "n = 3" using n(2) by linarith
  with n(1,3) show ?thesis by simp
qed

lemma mapE_ok:
  assumes "mapE f xs = Inr ys" "\<And>x y. x \<in> set xs \<Longrightarrow> f x = Inr y \<Longrightarrow> P y"
  shows "list_all P ys"
  using assms(2) mapE_set [OF assms(1)] unfolding list_all_iff by blast

text \<open>An element given as an object was itself constructed.\<close>

definition limit_in_ok :: "limit_in \<Rightarrow> bool" where
  "limit_in_ok l \<longleftrightarrow> (case l of LimitObj t \<Rightarrow> token_limit_ok t | LimitKw a n p \<Rightarrow> True)"

definition scope_in_ok :: "scope_in \<Rightarrow> bool" where
  "scope_in_ok c \<longleftrightarrow> (case c of ScopeObj s \<Rightarrow> call_scope_ok s | ScopeKw a s rs \<Rightarrow> True)"

lemma limits_converted_ok:
  "mapE (limit_of E) ls = Inr ts \<Longrightarrow> list_all limit_in_ok ls \<Longrightarrow> list_all token_limit_ok ts"
  by (erule mapE_ok) (rule limit_of_ok, auto simp: list_all_iff limit_in_ok_def)

lemma scopes_converted_ok:
  "mapE (scope_of E) cs = Inr ts \<Longrightarrow> list_all scope_in_ok cs \<Longrightarrow> list_all call_scope_ok ts"
  by (erule mapE_ok) (rule scope_of_ok, auto simp: list_all_iff scope_in_ok_def)

lemma key_authorization_init_ok:
  assumes "key_authorization_init E kid chain acct kt exp lims scopes wit admin = Inr k"
    and "0 \<le> chain" "0 \<le> kt" "0 \<le> exp"
    and "case lims of None \<Rightarrow> True | Some ls \<Rightarrow> list_all limit_in_ok ls"
    and "case scopes of None \<Rightarrow> True | Some cs \<Rightarrow> list_all scope_in_ok cs"
  shows "key_authorization_ok k"
  using assms
  by (auto simp: key_authorization_init_def optional_tuple_def key_authorization_ok_def bindE_Inr_conv
      dest: as_optional_address_ok limits_converted_ok scopes_converted_ok
      split: option.splits if_splits)

text \<open>
  C19. Constructing an authorization: given non-negative numbers and constructed elements, the
  result meets the invariant the wire form relies on; with \<open>is_admin\<close> and any restriction (an
  expiry, a limit list or a scope list, an empty one included) or with a witness that is not 32
  bytes the constructor never returns.
\<close>

theorem key_authorization_constructor:
  assumes "0 \<le> chain" "0 \<le> kt" "0 \<le> exp"
    and "case lims of None \<Rightarrow> True | Some ls \<Rightarrow> list_all limit_in_ok ls"
    and "case scopes of None \<Rightarrow> True | Some cs \<Rightarrow> list_all scope_in_ok cs"
  shows "(\<forall>k. key_authorization_init E kid chain acct kt exp lims scopes wit admin = Inr k \<longrightarrow>
      key_authorization_ok k) \<and>
    (admin \<and> (exp \<noteq> 0 \<or> lims \<noteq> None \<or> scopes \<noteq> None) \<longrightarrow>
      isl (key_authorization_init E kid chain acct kt exp lims scopes wit admin)) \<and>
    (\<forall>w. as_bytes E wit = Inr w \<and> length w \<notin> {0, 32} \<longrightarrow>
      isl (key_authorization_init E kid chain acct kt exp lims scopes wit admin))"
proof (intro conjI allI impI)
  fix k assume "key_authorization_init E kid chain acct kt exp lims scopes wit admin = Inr k"
  then show "key_authorization_ok k" by (rule key_authorization_init_ok [OF _ assms])
next
  assume "admin \<and> (exp \<noteq> 0 \<or> lims \<noteq> None \<or> scopes \<noteq> None)"
  then show "isl (key_authorization_init E kid chain acct kt exp lims scopes wit admin)"
    by (cases "key_authorization_init E kid chain acct kt exp lims scopes wit admin")
       (auto simp: key_authorization_init_def optional_tuple_def bindE_Inr_conv
         split: option.splits if_splits)
next
  fix w assume "as_bytes E wit = Inr w \<and> length w \<notin> {0, 32}"
  then show "isl (key_authorization_init E kid chain acct kt exp lims scopes wit admin)"
    by (cases "key_authorization_init E kid chain acct kt exp lims scopes wit admin")
       (auto simp: key_authorization_init_def bindE_Inr_conv split: if_splits)
qed

theorem key_authorization_constructor_witness:
  "\<exists>k. key_authorization_init ref_ext (BBytes (replicate 20 1)) 1 None 0 9
       (Some [LimitKw (BBytes (replicate 20 2)) 5 None]) None (BBytes []) False = Inr k \<and>
     key_authorization_ok k \<and>
     isl (key_authorization_init ref_ext (BBytes (replicate 20 1)) 1 None 0 9
       (Some [LimitKw (BBytes (replicate 20 2)) 5 None]) None (BBytes []) True)"
proof -
  let ?l = "Some [LimitKw (BBytes (replicate 20 2)) 5 None]"
  have "\<exists>k. key_authorization_init ref_ext (BBytes (replicate 20 1)) 1 None 0 9 ?l None (BBytes []) False
      = Inr k"
    by (simp add: key_authorization_init_def optional_tuple_def limit_of_def token_limit_create_def
        token_limit_init_def validate_token_limit_def validate_nonempty_address_def)
  then show ?thesis
    using key_authorization_constructor [of 1 0 9 ?l None ref_ext "BBytes (replicate 20 1)" None "BBytes []"]
    by (force simp: limit_in_ok_def)
qed

text \<open>
  C20. On the wire a scope without rules allows any function, so the encoder writes one only for a
  scope that was meant to be unrestricted, the zero selector without rules; a plain selector, such
  as that of \<open>transfer\<close> or \<open>approve\<close>, goes out as one rule for that selector and any recipient.
\<close>

theorem scope_unrestricted_only_if_meant:
  "(call_scope_to_rlp c = RList [RBytes (cs_target c), RList []] \<longleftrightarrow>
      cs_selector_rules c = [] \<and> cs_selector c = ZERO_SELECTOR) \<and>
   (call_scope_init E target sel [] = Inr c \<and> cs_selector c \<noteq> ZERO_SELECTOR \<longrightarrow>
      call_scope_to_rlp c =
        RList [RBytes (cs_target c), RList [RList [RBytes (cs_selector c), RList []]]])"
  by (auto simp: call_scope_to_rlp_def wire_rules_def selector_rule_to_rlp_def call_scope_init_def
      bindE_Inr_conv)

theorem scope_unrestricted_only_if_meant_witness:
  "\<exists>c. scope_transfer ref_ext (BBytes (replicate 20 1)) = Inr c \<and>
     call_scope_to_rlp c = RList [RBytes (replicate 20 1), RList [RList [RBytes [0, 0, 0, 8], RList []]]]"
proof -
  let ?c = "\<lparr>cs_target = replicate 20 1, cs_selector = [0, 0, 0, 8], cs_selector_rules = []\<rparr>"
  have "call_scope_init ref_ext (BBytes (replicate 20 1)) (BBytes [0, 0, 0, 8]) [] = Inr ?c"
    by (simp add: call_scope_init_def validate_nonempty_address_def)
  moreover have "nat_to_be 4 (Suc (Suc (Suc (Suc (Suc (Suc (Suc (Suc 0)))))))) = [0, 0, 0, 8]"
  proof -
    have four: "4 = Suc (Suc (Suc (Suc 0)))" by simp
    show ?thesis unfolding four nat_to_be.simps by simp
  qed
  then have "scope_transfer ref_ext (BBytes (replicate 20 1)) =
      call_scope_init ref_ext (BBytes (replicate 20 1)) (BBytes [0, 0, 0, 8]) []"
    by (simp add: scope_transfer_def ref_ext_sel)
  ultimately show ?thesis
    using scope_unrestricted_only_if_meant [of ?c ref_ext "BBytes (replicate 20 1)" "BBytes [0, 0, 0, 8]"]
    by (simp add: ZERO_SELECTOR_eq)
qed

text \<open>
  Once a scope has rules, its plain selector is not on the wire: \<open>with_selector\<close> with two
  different selectors and the same rules gives one wire form, and a scope for one function with a
  rule for another permits the other.
\<close>

lemma scope_selector_dropped_with_rules:
  assumes "scope_with_selector E target s1 rules = Inr c" "scope_with_selector E target s2 rules = Inr d"
    and "rules \<noteq> []"
  shows "call_scope_to_rlp c = call_scope_to_rlp d \<and>
    call_scope_to_rlp c = RList [RBytes (cs_target c), RList (map selector_rule_to_rlp (cs_selector_rules c))]"
proof -
  from assms obtain rs where r: "mapE (rule_of E) rules = Inr rs" "cs_selector_rules c = rs"
    "cs_selector_rules d = rs" "cs_target c = cs_target d"
    by (auto simp: scope_with_selector_def call_scope_init_def bindE_Inr_conv)
  with assms(3) have "rs \<noteq> []" by (metis length_0_conv mapE_length)
  with r show ?thesis by (simp add: call_scope_to_rlp_def wire_rules_def)
qed

text \<open>
  Restrictions of a key: \<open>with_limits\<close> turns enforcement on and keeps the scopes, \<open>add_call\<close>
  appends a scope and withdraws the permission to call anything, \<open>as_admin\<close> clears everything and
  grants it; the wire forms of two restrictions are equal exactly when they agree on the expiry,
  the flags, the limits (a zero period is omitted, not sent as zero) and the scopes' rules.
\<close>

lemma key_restrictions_operations:
  assumes "key_restrictions_ok r" "key_restrictions_ok q"
  shows "kr_with_limits E r (map LimitObj ls) = Inr (r\<lparr>kr_enforce_limits := True, kr_limits := ls\<rparr>) \<and>
    kr_add_call E r (ScopeObj c) =
      Inr (r\<lparr>kr_allow_any_calls := False, kr_allowed_calls := kr_allowed_calls r @ [c]\<rparr>) \<and>
    (\<forall>a. kr_as_admin E r = Inr a \<longrightarrow>
      key_restrictions_to_rlp a = RList [RInt 0, RInt 0, RList [], RInt 1, RList []]) \<and>
    (rlp_norm (key_restrictions_to_rlp r) = rlp_norm (key_restrictions_to_rlp q) \<longleftrightarrow>
      restrictions_view r = restrictions_view q)"
proof -
  have l: "mapE (limit_of E) (map LimitObj ls) = Inr ls" for ls
    by (induction ls) (simp_all add: limit_of_def)
  have c: "mapE (scope_of E) (map ScopeObj cs) = Inr cs" for cs
    by (induction cs) (simp_all add: scope_of_def)
  from c [of "kr_allowed_calls r @ [c]"]
  have ca: "mapE (scope_of E) (map ScopeObj (kr_allowed_calls r) @ [ScopeObj c]) = Inr (kr_allowed_calls r @ [c])"
    by simp
  show ?thesis
    using restrictions_wire.wire_iff [OF assms]
    by (simp add: kr_with_limits_def kr_add_call_def kr_as_admin_def key_restrictions_init_def l c ca
        key_restrictions_to_rlp_def)
qed

end
