(* ===== verification/Contracts.thy ===== *)
theory Contracts
  imports KeyAuth
begin

text \<open>
  The call builders for the account keychain precompile, \<open>tempo/contracts/keychain.py\<close>. The
  calldata itself is made by \<open>eth_contract\<close>; what is modelled is the arguments each builder passes
  and the call it returns. A scope is given as a tuple, as a \<open>CallScope\<close> object or as text; a limit
  as a sequence or as a \<open>TokenLimit\<close> object, which cannot be iterated.
\<close>

section \<open>The restrictions tuple\<close>

datatype scope_arg = ScopeTuple "abi_val list" | ScopeObject call_scope | ScopeText string

datatype limit_arg = LimitSeq "abi_val list" | LimitObject token_limit

fun scope_target :: "scope_arg \<Rightarrow> abi_val result" where
  "scope_target (ScopeTuple xs) =
     (case xs of [] \<Rightarrow> Inl (IndexError ''tuple index out of range'') | x # r \<Rightarrow> Inr x)"
| "scope_target (ScopeObject c) = Inr (ABytes (cs_target c))"
| "scope_target (ScopeText s) = Inr (AStr s)"

text \<open>\<open>list(v)\<close> of an argument.\<close>

definition abi_list :: "abi_val \<Rightarrow> abi_val list result" where
  "abi_list v =
     (case v of
        AList xs \<Rightarrow> Inr xs
      | ATuple xs \<Rightarrow> Inr xs
      | AStr s \<Rightarrow> Inr (map (\<lambda>c. AStr [c]) s)
      | ABytes b \<Rightarrow> Inr (map (\<lambda>x. AInt (uint x)) b)
      | _ \<Rightarrow> Inl (TypeError ''object is not iterable''))"

definition rule_object :: "selector_rule \<Rightarrow> abi_val" where
  "rule_object r = ARuleObject (sr_selector r) (sr_recipients r)"

fun scope_rules :: "scope_arg \<Rightarrow> abi_val list result" where
  "scope_rules (ScopeTuple xs) = (if 1 < length xs then abi_list (xs ! 1) else Inr [])"
| "scope_rules (ScopeObject c) = Inr (map rule_object (cs_selector_rules c))"
| "scope_rules (ScopeText s) = Inr []"

fun limit_tuple :: "limit_arg \<Rightarrow> abi_val result" where
  "limit_tuple (LimitSeq xs) = Inr (ATuple xs)"
| "limit_tuple (LimitObject t) = Inl (TypeError ''object is not iterable'')"

definition scope_tuple :: "scope_arg \<Rightarrow> abi_val result" where
  "scope_tuple s =
     bindE (scope_target s) (\<lambda>t. bindE (scope_rules s) (\<lambda>rs. Inr (ATuple [t, AList rs])))"

definition or_empty :: "'a list option \<Rightarrow> 'a list" where
  "or_empty v = (case v of None \<Rightarrow> [] | Some xs \<Rightarrow> xs)"

definition build_restrictions_tuple ::
    "int \<Rightarrow> bool \<Rightarrow> limit_arg list option \<Rightarrow> bool \<Rightarrow> scope_arg list option \<Rightarrow> abi_val result" where
  "build_restrictions_tuple expiry enforce lims allow_any scopes =
     bindE (mapE limit_tuple (or_empty lims)) (\<lambda>ls.
     bindE (mapE scope_tuple (or_empty scopes)) (\<lambda>ss.
       Inr (ATuple [AInt expiry, ABool enforce, AList ls, ABool allow_any, AList ss])))"

section \<open>The call builders\<close>

definition ACCOUNT_KEYCHAIN_BYTES :: bytes where
  "ACCOUNT_KEYCHAIN_BYTES = replicate 4 0xaa @ replicate 16 0"

definition ACCOUNT_KEYCHAIN_ADDRESS :: "ext \<Rightarrow> string result" where
  "ACCOUNT_KEYCHAIN_ADDRESS E = to_checksum_address E ACCOUNT_KEYCHAIN_BYTES"

definition keychain_call :: "ext \<Rightarrow> string \<Rightarrow> abi_val list \<Rightarrow> call result" where
  "keychain_call E fn args =
     bindE (abi_calldata E ''ACCOUNT_KEYCHAIN'' fn args) (\<lambda>dat.
     bindE (ACCOUNT_KEYCHAIN_ADDRESS E) (\<lambda>a.
       call_create E (BStr a) 0 (BBytes dat)))"

definition authorize_key ::
    "ext \<Rightarrow> string \<Rightarrow> int \<Rightarrow> int \<Rightarrow> bool \<Rightarrow> limit_arg list option \<Rightarrow> bool \<Rightarrow> scope_arg list option
       \<Rightarrow> call result" where
  "authorize_key E key_id sig_type expiry enforce lims allow_any scopes =
     bindE (build_restrictions_tuple expiry enforce lims allow_any scopes) (\<lambda>r.
       keychain_call E ''authorizeKey'' [AStr key_id, AInt sig_type, r])"

definition authorize_key_with_witness ::
    "ext \<Rightarrow> string \<Rightarrow> int \<Rightarrow> int \<Rightarrow> bool \<Rightarrow> limit_arg list option \<Rightarrow> bool \<Rightarrow> scope_arg list option
       \<Rightarrow> bytes \<Rightarrow> call result" where
  "authorize_key_with_witness E key_id sig_type expiry enforce lims allow_any scopes wit =
     bindE (build_restrictions_tuple expiry enforce lims allow_any scopes) (\<lambda>r.
       keychain_call E ''authorizeKey'' [AStr key_id, AInt sig_type, r, ABytes wit])"

definition revoke_key :: "ext \<Rightarrow> string \<Rightarrow> call result" where
  "revoke_key E key_id = keychain_call E ''revokeKey'' [AStr key_id]"

definition update_spending_limit :: "ext \<Rightarrow> string \<Rightarrow> string \<Rightarrow> int \<Rightarrow> call result" where
  "update_spending_limit E key_id token new_limit =
     keychain_call E ''updateSpendingLimit'' [AStr key_id, AStr token, AInt new_limit]"

definition set_allowed_calls :: "ext \<Rightarrow> string \<Rightarrow> abi_val list \<Rightarrow> call result" where
  "set_allowed_calls E key_id scopes =
     keychain_call E ''setAllowedCalls'' [AStr key_id, AList scopes]"

definition remove_allowed_calls :: "ext \<Rightarrow> string \<Rightarrow> string \<Rightarrow> call result" where
  "remove_allowed_calls E key_id target =
     keychain_call E ''removeAllowedCalls'' [AStr key_id, AStr target]"

definition authorize_admin_key :: "ext \<Rightarrow> string \<Rightarrow> int \<Rightarrow> bytes \<Rightarrow> call result" where
  "authorize_admin_key E key_id sig_type wit =
     keychain_call E ''authorizeAdminKey'' [AStr key_id, AInt sig_type, ABytes wit]"

definition burn_key_auth_witness :: "ext \<Rightarrow> bytes \<Rightarrow> call result" where
  "burn_key_auth_witness E wit = keychain_call E ''burnKeyAuthorizationWitness'' [ABytes wit]"

section \<open>Queries\<close>

text \<open>
  The read-only queries, given the node's answer to \<open>eth_call\<close> and the decoder of the contract library.
\<close>

definition keychain_query ::
    "ext \<Rightarrow> (string \<Rightarrow> bytes \<Rightarrow> bytes result) \<Rightarrow> (string \<Rightarrow> bytes \<Rightarrow> bool result) \<Rightarrow> string \<Rightarrow> abi_val list
       \<Rightarrow> bool result" where
  "keychain_query E eth_call decode fn args =
     bindE (abi_calldata E ''ACCOUNT_KEYCHAIN'' fn args) (\<lambda>dat.
     bindE (ACCOUNT_KEYCHAIN_ADDRESS E) (\<lambda>a.
     bindE (eth_call a dat) (decode fn)))"

definition is_admin_key ::
    "ext \<Rightarrow> (string \<Rightarrow> bytes \<Rightarrow> bytes result) \<Rightarrow> (string \<Rightarrow> bytes \<Rightarrow> bool result) \<Rightarrow> string \<Rightarrow> string
       \<Rightarrow> bool result" where
  "is_admin_key E eth_call decode account key_id =
     keychain_query E eth_call decode ''isAdminKey'' [AStr account, AStr key_id]"

definition is_key_auth_witness_burned ::
    "ext \<Rightarrow> (string \<Rightarrow> bytes \<Rightarrow> bytes result) \<Rightarrow> (string \<Rightarrow> bytes \<Rightarrow> bool result) \<Rightarrow> string \<Rightarrow> bytes
       \<Rightarrow> bool result" where
  "is_key_auth_witness_burned E eth_call decode account wit =
     keychain_query E eth_call decode ''isKeyAuthorizationWitnessBurned'' [AStr account, ABytes wit]"

section \<open>Properties\<close>

text \<open>
  A call to the keychain precompile is exactly its calldata: whenever the ABI encoder returns,
  the builder returns a valid call to the precompile's address, with value zero and that calldata;
  whenever the encoder raises, so does the builder.
\<close>

lemma keychain_call_exact:
  assumes "checksum_ok E"
  shows "keychain_call E fn args =
      bindE (abi_calldata E ''ACCOUNT_KEYCHAIN'' fn args) (\<lambda>dat.
        Inr \<lparr>call_to = ACCOUNT_KEYCHAIN_BYTES, call_value = 0, call_data = dat\<rparr>) \<and>
    (\<forall>c. keychain_call E fn args = Inr c \<longrightarrow> call_ok c)"
proof -
  have len: "length ACCOUNT_KEYCHAIN_BYTES = 20" by (simp add: ACCOUNT_KEYCHAIN_BYTES_def)
  with assms obtain s where s: "to_checksum_address E ACCOUNT_KEYCHAIN_BYTES = Inr s" "s \<noteq> []" "s \<noteq> ''0x''"
    "to_bytes_hexstr E s = Inr ACCOUNT_KEYCHAIN_BYTES"
    unfolding checksum_ok_def by blast
  have "call_create E (BStr s) 0 (BBytes dat) =
      Inr \<lparr>call_to = ACCOUNT_KEYCHAIN_BYTES, call_value = 0, call_data = dat\<rparr>" for dat
    using s len by (simp add: call_create_def call_init_def as_address_def)
  then show ?thesis
    using s(1) len by (auto simp: keychain_call_def ACCOUNT_KEYCHAIN_ADDRESS_def bindE_Inr_conv call_ok_def)
qed

text \<open>
  The restrictions tuple of documented arguments: limits given as triples and scopes as pairs of
  a target and a list of rules go into the tuple unchanged and in order, and an omitted list is an
  empty one; a \<open>TokenLimit\<close> object among the limits is a \<open>TypeError\<close>.
\<close>

lemma restrictions_tuple_documented:
  "build_restrictions_tuple expiry enforce (Some (map LimitSeq lims)) allow_any
      (Some (map (\<lambda>(t, rs). ScopeTuple [t, AList rs]) scopes)) =
     Inr (ATuple [AInt expiry, ABool enforce, AList (map ATuple lims), ABool allow_any,
       AList (map (\<lambda>(t, rs). ATuple [t, AList rs]) scopes)]) \<and>
   build_restrictions_tuple expiry enforce None allow_any None =
     Inr (ATuple [AInt expiry, ABool enforce, AList [], ABool allow_any, AList []]) \<and>
   build_restrictions_tuple expiry enforce (Some (map LimitSeq lims @ LimitObject l # rest)) allow_any sc =
     Inl (TypeError ''object is not iterable'')"
proof (intro conjI)
  have "mapE limit_tuple (map LimitSeq lims) = Inr (map ATuple lims)"
    by (induction lims) simp_all
  moreover have "mapE scope_tuple (map (\<lambda>(t, rs). ScopeTuple [t, AList rs]) scopes) =
      Inr (map (\<lambda>(t, rs). ATuple [t, AList rs]) scopes)"
    by (induction scopes) (auto simp: scope_tuple_def abi_list_def)
  ultimately show "build_restrictions_tuple expiry enforce (Some (map LimitSeq lims)) allow_any
      (Some (map (\<lambda>(t, rs). ScopeTuple [t, AList rs]) scopes)) =
     Inr (ATuple [AInt expiry, ABool enforce, AList (map ATuple lims), ABool allow_any,
       AList (map (\<lambda>(t, rs). ATuple [t, AList rs]) scopes)])"
    by (simp add: build_restrictions_tuple_def or_empty_def)
  have "mapE limit_tuple (map LimitSeq lims @ LimitObject l # rest) = Inl (TypeError ''object is not iterable'')"
    by (induction lims) simp_all
  then show "build_restrictions_tuple expiry enforce (Some (map LimitSeq lims @ LimitObject l # rest)) allow_any sc =
     Inl (TypeError ''object is not iterable'')"
    by (simp add: build_restrictions_tuple_def or_empty_def)
qed (simp add: build_restrictions_tuple_def or_empty_def)

text \<open>
  A scope for one function, given to \<open>authorize_key\<close> as a \<open>CallScope\<close> object, loses its
  selector: its rule list in the tuple is empty, which on chain allows any function of the target,
  although the same object sends its rule in the RLP form of an authorization.
\<close>

lemma scope_object_loses_selector:
  assumes "call_scope_init E target sel [] = Inr c" "cs_selector c \<noteq> ZERO_SELECTOR"
  shows "scope_tuple (ScopeObject c) = Inr (ATuple [ABytes (cs_target c), AList []]) \<and>
    wire_rules c = [\<lparr>sr_selector = cs_selector c, sr_recipients = []\<rparr>]"
  using assms by (auto simp: scope_tuple_def wire_rules_def call_scope_init_def bindE_Inr_conv)

end
