(* ===== verification/PyValue.thy ===== *)
theory PyValue
  imports Types
begin

text \<open>
  Python values as they come out of JSON or YAML: what the constructors that read dictionaries are
  given, unchecked. A dictionary is the list of its entries in insertion order, with distinct
  string keys; floats and non-string keys are outside the model.
\<close>

datatype pyval =
    PNone
  | PBool bool
  | PInt int
  | PStr string
  | PBytes bytes
  | PList "pyval list"
  | PTuple "pyval list"
  | PDict "(string \<times> pyval) list"

type_synonym pydict = "(string \<times> pyval) list"

section \<open>The operations used on them\<close>

definition type_name :: "pyval \<Rightarrow> string" where
  "type_name v =
     (case v of PNone \<Rightarrow> ''NoneType'' | PBool b \<Rightarrow> ''bool'' | PInt n \<Rightarrow> ''int'' | PStr s \<Rightarrow> ''str''
      | PBytes b \<Rightarrow> ''bytes'' | PList xs \<Rightarrow> ''list'' | PTuple xs \<Rightarrow> ''tuple'' | PDict d \<Rightarrow> ''dict'')"

text \<open>\<open>bool(v)\<close>.\<close>

definition truthy :: "pyval \<Rightarrow> bool" where
  "truthy v =
     (case v of PNone \<Rightarrow> False | PBool b \<Rightarrow> b | PInt n \<Rightarrow> n \<noteq> 0 | PStr s \<Rightarrow> s \<noteq> [] | PBytes b \<Rightarrow> b \<noteq> []
      | PList xs \<Rightarrow> xs \<noteq> [] | PTuple xs \<Rightarrow> xs \<noteq> [] | PDict d \<Rightarrow> d \<noteq> [])"

text \<open>\<open>v or w\<close>.\<close>

definition py_or :: "pyval \<Rightarrow> pyval \<Rightarrow> pyval" where
  "py_or v w = (if truthy v then v else w)"

text \<open>\<open>d.get(k, default)\<close> of a dictionary; another value has no such method.\<close>

definition dict_get :: "pydict \<Rightarrow> string \<Rightarrow> pyval \<Rightarrow> pyval" where
  "dict_get d k dflt = (case map_of d k of None \<Rightarrow> dflt | Some v \<Rightarrow> v)"

definition py_get :: "pyval \<Rightarrow> string \<Rightarrow> pyval \<Rightarrow> pyval result" where
  "py_get v k dflt =
     (case v of PDict d \<Rightarrow> Inr (dict_get d k dflt)
      | _ \<Rightarrow> Inl (AttributeError ''object has no attribute get''))"

text \<open>\<open>list(v)\<close>.\<close>

definition py_list :: "pyval \<Rightarrow> pyval list result" where
  "py_list v =
     (case v of
        PList xs \<Rightarrow> Inr xs
      | PTuple xs \<Rightarrow> Inr xs
      | PStr s \<Rightarrow> Inr (map (\<lambda>c. PStr [c]) s)
      | PBytes b \<Rightarrow> Inr (map (\<lambda>x. PInt (uint x)) b)
      | PDict d \<Rightarrow> Inr (map (\<lambda>e. PStr (fst e)) d)
      | _ \<Rightarrow> Inl (TypeError ''object is not iterable''))"

definition is_sequence :: "pyval \<Rightarrow> bool" where
  "is_sequence v = (case v of PList xs \<Rightarrow> True | PTuple xs \<Rightarrow> True | _ \<Rightarrow> False)"

text \<open>A number where arithmetic is done with it; \<open>bool\<close> is a subclass of \<open>int\<close>.\<close>

definition py_int :: "pyval \<Rightarrow> int option" where
  "py_int v = (case v of PInt n \<Rightarrow> Some n | PBool b \<Rightarrow> Some (if b then 1 else 0) | _ \<Rightarrow> None)"

text \<open>A value as an argument of the coercions of \<open>tempo/types.py\<close>.\<close>

definition bytes_like_of :: "pyval \<Rightarrow> bytes_like" where
  "bytes_like_of v = (case v of PStr s \<Rightarrow> BStr s | PBytes b \<Rightarrow> BBytes b | _ \<Rightarrow> BOther (type_name v))"

section \<open>Simplification rules\<close>

lemma truthy_simps [simp]:
  "truthy PNone = False" "truthy (PBool b) = b" "truthy (PInt n) = (n \<noteq> 0)" "truthy (PStr s) = (s \<noteq> [])"
  "truthy (PBytes bs) = (bs \<noteq> [])" "truthy (PList xs) = (xs \<noteq> [])" "truthy (PTuple xs) = (xs \<noteq> [])"
  "truthy (PDict d) = (d \<noteq> [])"
  by (simp_all add: truthy_def)

lemma py_get_PDict [simp]: "py_get (PDict d) k x = Inr (dict_get d k x)"
  by (simp add: py_get_def)

lemma dict_get_simps [simp]:
  "dict_get [] k x = x"
  "dict_get ((k', v) # d) k x = (if k = k' then v else dict_get d k x)"
  by (simp_all add: dict_get_def)

lemma py_list_simps [simp]:
  "py_list (PList xs) = Inr xs"
  "py_list (PTuple xs) = Inr xs"
  by (simp_all add: py_list_def)

lemma is_sequence_simps [simp]: "is_sequence (PList xs)" "is_sequence (PTuple xs)"
  by (simp_all add: is_sequence_def)

lemma py_int_simps [simp]: "py_int (PInt n) = Some n" "py_int PNone = None" "py_int (PStr s) = None"
  by (simp_all add: py_int_def)

lemma bytes_like_of_simps [simp]:
  "bytes_like_of (PStr s) = BStr s" "bytes_like_of (PBytes b) = BBytes b"
  by (simp_all add: bytes_like_of_def)

section \<open>Text of a value\<close>

fun dec_nat :: "nat \<Rightarrow> string" where
  "dec_nat n = (if n < 10 then [char_of (48 + n)] else dec_nat (n div 10) @ [char_of (48 + n mod 10)])"

declare dec_nat.simps [simp del]

definition dec_int :: "int \<Rightarrow> string" where
  "dec_int n = (if n < 0 then CHR ''-'' # dec_nat (nat (- n)) else dec_nat (nat n))"

text \<open>For evaluation, the same on binary integers.\<close>

function int_digits :: "int \<Rightarrow> string" where
  "int_digits n = (if n < 10 then [''0123456789'' ! nat n] else int_digits (n div 10) @ [''0123456789'' ! nat (n mod 10)])"
  by pat_completeness auto
termination by (relation "measure nat") auto

declare int_digits.simps [simp del]

lemma digit_char: "n < 10 \<Longrightarrow> ''0123456789'' ! n = char_of (48 + n)"
proof -
  assume n: "n < 10"
  have "list_all (\<lambda>n :: nat. ''0123456789'' ! n = char_of (48 + n)) [0..<10]"
    by code_simp
  moreover have "n \<in> set [0..<10]" using n by (simp del: upt_conv_Cons)
  ultimately show ?thesis unfolding list_all_iff by blast
qed

lemma int_digits_dec: "int_digits (int n) = dec_nat n"
proof (induction n rule: dec_nat.induct)
  case (1 n)
  show ?case
  proof (cases "n < 10")
    case True
    then show ?thesis by (subst int_digits.simps, subst dec_nat.simps) (simp add: digit_char)
  next
    case False
    have "''0123456789'' ! nat (int n mod 10) = char_of (48 + n mod 10)"
      by (simp add: nat_mod_distrib digit_char del: nth_Cons_numeral)
    then show ?thesis using False 1
      by (subst int_digits.simps, subst dec_nat.simps) (simp add: zdiv_int)
  qed
qed

lemma dec_int_code [code]: "dec_int n = (if n < 0 then CHR ''-'' # int_digits (- n) else int_digits n)"
  using int_digits_dec [of "nat n"] int_digits_dec [of "nat (- n)"] by (auto simp: dec_int_def split: if_splits)

text \<open>\<open>repr\<close> of text and of bytes.\<close>

definition repr_quote :: "string \<Rightarrow> char" where
  "repr_quote s = (if CHR 0x27 \<in> set s \<and> CHR 0x22 \<notin> set s then CHR 0x22 else CHR 0x27)"

definition hex_escape :: "nat \<Rightarrow> string" where
  "hex_escape n = [CHR 0x5C, CHR ''x'', hex_digit (n div 16), hex_digit (n mod 16)]"

definition repr_char :: "bool \<Rightarrow> char \<Rightarrow> char \<Rightarrow> string" where
  "repr_char ascii_only q c =
     (let n = of_char c :: nat in
      if c = q \<or> n = 92 then [CHR 0x5C, c]
      else if n = 9 then [CHR 0x5C, CHR ''t'']
      else if n = 10 then [CHR 0x5C, CHR ''n'']
      else if n = 13 then [CHR 0x5C, CHR ''r'']
      else if n < 32 \<or> n = 127 \<or> (128 \<le> n \<and> (ascii_only \<or> n \<le> 160 \<or> n = 173)) then hex_escape n
      else [c])"

definition repr_text :: "bool \<Rightarrow> string \<Rightarrow> string" where
  "repr_text ascii_only s =
     (let q = repr_quote s in [q] @ concat (map (repr_char ascii_only q) s) @ [q])"

fun comma_sep :: "string list \<Rightarrow> string" where
  "comma_sep [] = []"
| "comma_sep [x] = x"
| "comma_sep (x # y # r) = x @ '', '' @ comma_sep (y # r)"

fun py_repr :: "pyval \<Rightarrow> string" where
  "py_repr PNone = ''None''"
| "py_repr (PBool b) = (if b then ''True'' else ''False'')"
| "py_repr (PInt n) = dec_int n"
| "py_repr (PStr s) = repr_text False s"
| "py_repr (PBytes bs) = ''b'' @ repr_text True (map (\<lambda>b. char_of (unat b)) bs)"
| "py_repr (PList xs) = ''['' @ comma_sep (map py_repr xs) @ '']''"
| "py_repr (PTuple xs) =
     ''('' @ comma_sep (map py_repr xs) @ (if length xs = 1 then '',)'' else '')'')"
| "py_repr (PDict d) =
     ''{'' @ comma_sep (map (\<lambda>(k, v). repr_text False k @ '': '' @ py_repr v) d) @ ''}''"

text \<open>\<open>str(v)\<close>, and the value of \<open>v\<close> in an f-string.\<close>

definition py_str :: "pyval \<Rightarrow> string" where
  "py_str v = (case v of PStr s \<Rightarrow> s | _ \<Rightarrow> py_repr v)"

lemma py_str_simps [simp]: "py_str (PStr s) = s" "py_str (PInt n) = dec_int n"
  by (simp_all add: py_str_def)

section \<open>Equality\<close>

text \<open>\<open>v == w\<close>: \<open>True\<close> equals 1, dictionaries compare without order.\<close>

fun py_eq :: "pyval \<Rightarrow> pyval \<Rightarrow> bool" where
  "py_eq (PDict d) w =
     (case w of
        PDict e \<Rightarrow>
          length d = length e \<and>
          list_all (\<lambda>(k, v). case map_of e k of None \<Rightarrow> False | Some u \<Rightarrow> py_eq v u) d
      | _ \<Rightarrow> False)"
| "py_eq (PList xs) w = (case w of PList ys \<Rightarrow> list_all2 py_eq xs ys | _ \<Rightarrow> False)"
| "py_eq (PTuple xs) w = (case w of PTuple ys \<Rightarrow> list_all2 py_eq xs ys | _ \<Rightarrow> False)"
| "py_eq (PStr s) w = (case w of PStr t \<Rightarrow> s = t | _ \<Rightarrow> False)"
| "py_eq (PBytes s) w = (case w of PBytes t \<Rightarrow> s = t | _ \<Rightarrow> False)"
| "py_eq PNone w = (case w of PNone \<Rightarrow> True | _ \<Rightarrow> False)"
| "py_eq (PInt n) w = (py_int w = Some n)"
| "py_eq (PBool b) w = (py_int w = Some (if b then 1 else 0))"

section \<open>Decimal text is injective\<close>

definition dec_value :: "string \<Rightarrow> nat" where
  "dec_value s = foldl (\<lambda>a c. 10 * a + (of_char c - 48)) 0 s"

lemma of_char_digit: "n < 10 \<Longrightarrow> of_char (char_of (48 + n) :: char) = 48 + (n :: nat)"
  by simp

lemma dec_value_dec_nat: "dec_value (dec_nat n) = n"
proof (induction n rule: dec_nat.induct)
  case (1 n)
  then show ?case
    by (subst dec_nat.simps) (simp add: dec_value_def of_char_digit)
qed

lemma dec_nat_inj [simp]: "dec_nat m = dec_nat n \<longleftrightarrow> m = n"
  by (metis dec_value_dec_nat)

lemma dec_nat_digits: "\<forall>c \<in> set (dec_nat n). 48 \<le> (of_char c :: nat) \<and> (of_char c :: nat) \<le> 57"
proof (induction n rule: dec_nat.induct)
  case (1 n)
  have "n mod 10 < 10" by simp
  then have "n mod 10 \<le> 9" by linarith
  with 1 show ?case by (subst dec_nat.simps) (simp add: of_char_digit)
qed

lemma dec_nat_nonempty [simp]: "dec_nat n \<noteq> []"
  by (subst dec_nat.simps) simp

lemma dec_int_inj [simp]: "dec_int m = dec_int n \<longleftrightarrow> m = n"
proof -
  have "hd (dec_nat k) \<noteq> CHR ''-''" for k
    using dec_nat_digits [of k] by (cases "dec_nat k") (auto simp: dec_nat_nonempty [of k])
  then have "CHR ''-'' # s \<noteq> dec_nat k" "dec_nat k \<noteq> CHR ''-'' # s" for s k by (metis list.sel(1))+
  then show ?thesis by (auto simp: dec_int_def)
qed

end
