(* ===== verification/Ipv4.thy ===== *)
theory Ipv4
  imports PyValue
begin

text \<open>
  The part of the standard library's \<open>ipaddress\<close> that \<open>tempo/devnet/config.py\<close> uses:
  \<open>ip_network(subnet, strict=False).network_address + k\<close> for an IPv4 network given as text, a number
  or four bytes, and the text of the address.
\<close>

section \<open>Text helpers\<close>

fun join_with :: "string \<Rightarrow> string list \<Rightarrow> string" where
  "join_with sep [] = []"
| "join_with sep [x] = x"
| "join_with sep (x # y # r) = x @ sep @ join_with sep (y # r)"

text \<open>\<open>s.split(c)\<close> for a single character.\<close>

fun py_split :: "char \<Rightarrow> string \<Rightarrow> string list" where
  "py_split c [] = [[]]"
| "py_split c (x # s) =
     (if x = c then [] # py_split c s
      else (case py_split c s of [] \<Rightarrow> [[x]] | p # ps \<Rightarrow> (x # p) # ps))"

lemma py_split_no_sep: "c \<notin> set s \<Longrightarrow> py_split c s = [s]"
  by (induction s) auto

lemma py_split_append: "c \<notin> set s \<Longrightarrow> py_split c (s @ c # t) = s # py_split c t"
  by (induction s) auto

lemma py_split_join:
  "xs \<noteq> [] \<Longrightarrow> \<forall>x \<in> set xs. c \<notin> set x \<Longrightarrow> py_split c (join_with [c] xs) = xs"
  by (induction "[c]" xs rule: join_with.induct) (auto simp: py_split_no_sep py_split_append)

section \<open>Addresses\<close>

definition is_ascii_digit :: "char \<Rightarrow> bool" where
  "is_ascii_digit c = (let n = of_char c :: nat in 48 \<le> n \<and> n \<le> 57)"

definition all_digits :: "string \<Rightarrow> bool" where
  "all_digits s \<longleftrightarrow> s \<noteq> [] \<and> list_all is_ascii_digit s"

definition parse_octet :: "string \<Rightarrow> nat option" where
  "parse_octet s =
     (if \<not> all_digits s \<or> 3 < length s \<or> (s \<noteq> ''0'' \<and> hd s = CHR ''0'') \<or> 255 < dec_value s
      then None else Some (dec_value s))"

definition parse_ipv4 :: "string \<Rightarrow> nat option" where
  "parse_ipv4 s =
     (case map parse_octet (py_split CHR ''.'' s) of
        [Some a, Some b, Some c, Some d] \<Rightarrow> Some (((a * 256 + b) * 256 + c) * 256 + d)
      | _ \<Rightarrow> None)"

text \<open>\<open>str(IPv4Address(n))\<close>.\<close>

definition ipv4_text :: "nat \<Rightarrow> string" where
  "ipv4_text n = join_with ''.'' (map (\<lambda>b. dec_nat (unat b)) (nat_to_be 4 n))"

section \<open>Networks\<close>

fun trailing_zero_bits :: "nat \<Rightarrow> nat \<Rightarrow> nat" where
  "trailing_zero_bits 0 n = 0"
| "trailing_zero_bits (Suc k) n = (if odd n then 0 else Suc (trailing_zero_bits k (n div 2)))"

text \<open>The prefix length of a mask, which is a block of ones and then zeros.\<close>

definition prefix_of_mask :: "nat \<Rightarrow> nat option" where
  "prefix_of_mask n =
     (let z = trailing_zero_bits 32 n in if n div 2 ^ z = 2 ^ (32 - z) - 1 then Some (32 - z) else None)"

text \<open>A prefix length, a netmask or a host mask.\<close>

definition parse_mask :: "string \<Rightarrow> nat option" where
  "parse_mask s =
     (if all_digits s \<and> dec_value s \<le> 32 then Some (dec_value s)
      else case parse_ipv4 s of
             None \<Rightarrow> None
           | Some m \<Rightarrow> (case prefix_of_mask m of
                 Some p \<Rightarrow> Some p | None \<Rightarrow> prefix_of_mask (2 ^ 32 - 1 - m)))"

definition network_base :: "nat \<Rightarrow> nat \<Rightarrow> nat" where
  "network_base n p = n div 2 ^ (32 - p) * 2 ^ (32 - p)"

text \<open>
  The address and the prefix length of \<open>ip_network(v, strict=False)\<close>, if \<open>v\<close> names an IPv4 network;
  a value of another type is read as its text.
\<close>

definition ipv4_network :: "pyval \<Rightarrow> (nat \<times> nat) option" where
  "ipv4_network v =
     (case (case v of PBytes b \<Rightarrow> Some (if length b = 4 then Some (be_to_nat b) else None)
            | _ \<Rightarrow> map_option (\<lambda>n. if 0 \<le> n \<and> n < 2 ^ 32 then Some (nat n) else None) (py_int v)) of
        Some a \<Rightarrow> map_option (\<lambda>n. (n, 32)) a
      | None \<Rightarrow>
          (case py_split CHR ''/'' (py_str v) of
             [a] \<Rightarrow> map_option (\<lambda>n. (n, 32)) (parse_ipv4 a)
           | [a, m] \<Rightarrow>
               (case (parse_ipv4 a, parse_mask m) of
                  (Some n, Some p) \<Rightarrow> Some (network_base n p, p)
                | _ \<Rightarrow> None)
           | _ \<Rightarrow> None))"

text \<open>\<open>IPv4Address(a) + k\<close>: the sum has to be an IPv4 address.\<close>

definition ipv4_add :: "nat \<Rightarrow> int \<Rightarrow> nat result" where
  "ipv4_add a k =
     (if int a + k < 0 \<or> 2 ^ 32 \<le> int a + k
      then Inl (ValueError ''is not permitted (>= 2**32 or < 0) as an IPv4 address'')
      else Inr (nat (int a + k)))"

section \<open>The text of an address\<close>

lemma is_ascii_digit_dec: "list_all is_ascii_digit (dec_nat n)"
  using dec_nat_digits [of n] by (simp add: list_all_iff is_ascii_digit_def)

lemma dot_not_in_dec: "CHR ''.'' \<notin> set (dec_nat n)" "CHR '','' \<notin> set (dec_nat n)"
  "CHR '':'' \<notin> set (dec_nat n)"
  using dec_nat_digits [of n] by force+

lemma ipv4_text_split: "py_split CHR ''.'' (ipv4_text n) = map (\<lambda>b. dec_nat (unat b)) (nat_to_be 4 n)"
proof -
  have "length (nat_to_be 4 n) \<noteq> 0" by simp
  then have "map (\<lambda>b. dec_nat (unat b)) (nat_to_be 4 n) \<noteq> []" by (metis length_map list.size(3))
  then show ?thesis
    unfolding ipv4_text_def by (rule py_split_join) (simp add: dot_not_in_dec)
qed

lemma ipv4_text_inj: "m < 2 ^ 32 \<Longrightarrow> n < 2 ^ 32 \<Longrightarrow> ipv4_text m = ipv4_text n \<Longrightarrow> m = n"
proof -
  assume m: "m < 2 ^ 32" and n: "n < 2 ^ 32" and eq: "ipv4_text m = ipv4_text n"
  from eq have "map (\<lambda>b. dec_nat (unat b)) (nat_to_be 4 m) = map (\<lambda>b. dec_nat (unat b)) (nat_to_be 4 n)"
    by (metis ipv4_text_split)
  then have "nat_to_be 4 m = nat_to_be 4 n"
    by (rule map_injective) (auto simp: inj_on_def unsigned_word_eqI)
  then have "m mod 256 ^ 4 = n mod 256 ^ 4" by (metis be_to_nat_nat_to_be)
  with m n show "m = n" by simp
qed

lemma join_with_set: "set (join_with sep xs) \<subseteq> set sep \<union> \<Union> (set ` set xs)"
  by (induction sep xs rule: join_with.induct) auto

lemma ipv4_text_chars: "CHR '','' \<notin> set (ipv4_text n)" "CHR '':'' \<notin> set (ipv4_text n)"
  using join_with_set [of "''.''" "map (\<lambda>b. dec_nat (unat b)) (nat_to_be 4 n)"]
  by (auto simp: ipv4_text_def dot_not_in_dec)

lemma hd_dec_nat: "hd (dec_nat n) = CHR ''0'' \<Longrightarrow> n = 0"
proof (induction n rule: dec_nat.induct)
  case (1 n)
  show ?case
  proof (cases "n < 10")
    case True
    with 1 have "char_of (48 + n) = CHR ''0''" by (subst (asm) dec_nat.simps) simp
    then have "(of_char (char_of (48 + n) :: char) :: nat) = of_char (CHR ''0'')" by simp
    with True show ?thesis by (simp add: of_char_digit)
  next
    case False
    with 1 have "n div 10 = 0" by (subst (asm) (2) dec_nat.simps) simp
    with False show ?thesis by simp
  qed
qed

lemma length_dec_nat: "n < 10 ^ Suc k \<Longrightarrow> length (dec_nat n) \<le> Suc k"
proof (induction k arbitrary: n)
  case 0
  then show ?case by (subst dec_nat.simps) simp
next
  case (Suc k)
  then have "n div 10 < 10 ^ Suc k" by (simp add: less_mult_imp_div_less)
  with Suc.IH [of "n div 10"] show ?case by (subst dec_nat.simps) simp
qed

lemma parse_octet_dec: "n < 256 \<Longrightarrow> parse_octet (dec_nat n) = Some n"
proof -
  assume n: "n < 256"
  have "dec_nat 0 = ''0''" by code_simp
  then have "hd (dec_nat n) = CHR ''0'' \<Longrightarrow> dec_nat n = ''0''"
    using hd_dec_nat [of n] by auto
  moreover have "length (dec_nat n) \<le> 3" using n length_dec_nat [of n 2] by simp
  ultimately show ?thesis
    using n by (auto simp: parse_octet_def all_digits_def is_ascii_digit_dec dec_value_dec_nat)
qed

lemma parse_ipv4_text: "n < 2 ^ 32 \<Longrightarrow> parse_ipv4 (ipv4_text n) = Some n"
proof -
  assume n: "n < 2 ^ 32"
  have l: "length (nat_to_be 4 n) = 4" by simp
  obtain a b c d where abcd: "nat_to_be 4 n = [a, b, c, d]"
    using l by (auto simp: numeral_eq_Suc length_Suc_conv simp del: nat_to_be.simps length_nat_to_be)
  then have v: "((unat a * 256 + unat b) * 256 + unat c) * 256 + unat d = n"
    using be_to_nat_nat_to_be [of 4 n] n by (simp add: be_to_nat_def)
  have "map parse_octet (py_split CHR ''.'' (ipv4_text n)) =
      [Some (unat a), Some (unat b), Some (unat c), Some (unat d)]"
    unfolding ipv4_text_split abcd by (simp add: parse_octet_dec unat_byte_less)
  then have "parse_ipv4 (ipv4_text n) = Some (((unat a * 256 + unat b) * 256 + unat c) * 256 + unat d)"
    by (simp add: parse_ipv4_def)
  then show ?thesis by (simp only: v)
qed

lemma network_base_le: "network_base n p \<le> n"
  by (simp add: network_base_def div_times_less_eq_dividend)


section \<open>Bounds\<close>

lemma parse_octet_less: "parse_octet s = Some n \<Longrightarrow> n < 256"
  by (auto simp: parse_octet_def split: if_splits)

lemma parse_ipv4_less: "parse_ipv4 s = Some n \<Longrightarrow> n < 2 ^ 32"
proof -
  assume "parse_ipv4 s = Some n"
  then obtain a b c d where m: "map parse_octet (py_split CHR ''.'' s) = [Some a, Some b, Some c, Some d]"
    and n: "n = ((a * 256 + b) * 256 + c) * 256 + d"
    by (auto simp: parse_ipv4_def split: list.splits option.splits)
  from m have "a < 256" "b < 256" "c < 256" "d < 256"
    by (auto simp: map_eq_Cons_conv parse_octet_less)
  with n show ?thesis by simp
qed

lemma network_base_idem: "network_base (network_base n p) p = network_base n p"
  by (simp add: network_base_def)

lemma network_base_32: "network_base n 32 = n"
  by (simp add: network_base_def)

lemma ipv4_network_base:
  assumes "ipv4_network v = Some (base, p)"
  shows "base < 2 ^ 32 \<and> network_base base p = base"
proof -
  have slash: "base < 2 ^ 32 \<and> network_base base p = base"
    if "(case py_split CHR ''/'' (py_str v) of
             [a] \<Rightarrow> map_option (\<lambda>n. (n, 32)) (parse_ipv4 a)
           | [a, m] \<Rightarrow>
               (case (parse_ipv4 a, parse_mask m) of
                  (Some n, Some p) \<Rightarrow> Some (network_base n p, p)
                | _ \<Rightarrow> None)
           | _ \<Rightarrow> None) = Some (base, p)"
  proof -
    from that consider a where "parse_ipv4 a = Some base" "p = 32"
      | a n where "parse_ipv4 a = Some n" "base = network_base n p"
      by (auto split: list.splits option.splits)
    then show ?thesis
    proof cases
      case 1
      then show ?thesis by (auto simp: network_base_32 dest: parse_ipv4_less)
    next
      case 2
      then show ?thesis
        using parse_ipv4_less network_base_le [of n p] by (fastforce simp: network_base_idem)
    qed
  qed
  show ?thesis
  proof (cases v)
    case (PBytes b)
    with assms be_to_nat_less [of b] show ?thesis
      by (auto simp: ipv4_network_def network_base_32 split: if_splits)
  next
    case (PBool b)
    with assms show ?thesis by (cases b) (auto simp: ipv4_network_def py_int_def network_base_32)
  next
    case (PInt n)
    with assms show ?thesis by (auto simp: ipv4_network_def network_base_32 split: if_splits)
  qed (use assms slash in \<open>simp_all add: ipv4_network_def py_int_def\<close>)
qed

text \<open>An offset stays in the network as long as it fits in the host bits.\<close>

lemma network_base_offset:
  assumes "network_base base p = base"
  shows "network_base (base + k) p = base \<longleftrightarrow> k < 2 ^ (32 - p)"
proof -
  let ?m = "2 ^ (32 - p) :: nat"
  from assms obtain q where q: "base = q * ?m" unfolding network_base_def by metis
  have "(base + k) div ?m = q + k div ?m" unfolding q by simp
  then have "network_base (base + k) p = base + k div ?m * ?m"
    by (simp add: network_base_def distrib_right q)
  moreover have "k div ?m * ?m = 0 \<longleftrightarrow> k < ?m" by (simp add: div_eq_0_iff)
  ultimately show ?thesis by linarith
qed

end
