(* ===== verification/Files.thy ===== *)
theory Files
  imports Ipv4 Stdlib
begin

text \<open>
  The part of \<open>pathlib\<close>, \<open>shutil\<close> and the file system that the devnet modules use. A path is its root
  and its components, as \<open>pathlib\<close> splits it; a file system maps paths to text files and directories
  (links, permissions and the identity of \<open>a/../b\<close> and \<open>b\<close> are not modelled). An action returns a value
  or raises, and leaves a file system in both cases.
\<close>

section \<open>Paths\<close>

type_synonym path = "string \<times> string list"

definition starts_with :: "string \<Rightarrow> string \<Rightarrow> bool" where
  "starts_with p s \<longleftrightarrow> take (length p) s = p"

definition path_root :: "string \<Rightarrow> string" where
  "path_root s =
     (if starts_with ''//'' s \<and> \<not> starts_with ''///'' s then ''//''
      else if starts_with ''/'' s then ''/'' else [])"

definition path_parts :: "string \<Rightarrow> string list" where
  "path_parts s = filter (\<lambda>x. x \<noteq> [] \<and> x \<noteq> ''.'') (py_split CHR ''/'' s)"

text \<open>\<open>p / s\<close> for a string: an absolute \<open>s\<close> replaces \<open>p\<close>.\<close>

definition path_add :: "path \<Rightarrow> string \<Rightarrow> path" where
  "path_add p s =
     (if path_root s \<noteq> [] then (path_root s, path_parts s) else (fst p, snd p @ path_parts s))"

text \<open>\<open>p / v\<close> for any value.\<close>

definition path_join :: "path \<Rightarrow> pyval \<Rightarrow> path result" where
  "path_join p v =
     (case v of PStr s \<Rightarrow> Inr (path_add p s)
      | _ \<Rightarrow> Inl (TypeError ''unsupported operand type(s) for /''))"

definition path_text :: "path \<Rightarrow> string" where
  "path_text p = (if snd p = [] \<and> fst p = [] then ''.'' else fst p @ join_with ''/'' (snd p))"

definition path_name :: "path \<Rightarrow> string" where
  "path_name p = (if snd p = [] then [] else last (snd p))"

definition path_parent :: "path \<Rightarrow> path" where
  "path_parent p = (fst p, butlast (snd p))"

definition path_under :: "path \<Rightarrow> path \<Rightarrow> bool" where
  "path_under p q \<longleftrightarrow> fst p = fst q \<and> take (length (snd p)) (snd q) = snd p"

section \<open>File systems\<close>

datatype fnode = TextFile string | Folder

type_synonym fs = "(path \<times> fnode) list"

abbreviation node_at :: "fs \<Rightarrow> path \<Rightarrow> fnode option" where
  "node_at F p \<equiv> map_of F p"

definition is_dir :: "fs \<Rightarrow> path \<Rightarrow> bool" where
  "is_dir F p \<longleftrightarrow> snd p = [] \<or> node_at F p = Some Folder"

definition path_exists :: "fs \<Rightarrow> path \<Rightarrow> bool" where
  "path_exists F p \<longleftrightarrow> snd p = [] \<or> node_at F p \<noteq> None"

definition read_text :: "fs \<Rightarrow> path \<Rightarrow> string result" where
  "read_text F p =
     (case node_at F p of
        Some (TextFile s) \<Rightarrow> Inr s | _ \<Rightarrow> Inl (OSError ''no such file or is a directory''))"

text \<open>\<open>p.iterdir()\<close>, in the order of the entries of the model.\<close>

definition iterdir :: "fs \<Rightarrow> path \<Rightarrow> path list" where
  "iterdir F p = filter (\<lambda>q. snd q \<noteq> [] \<and> path_parent q = p) (remdups (map fst F))"

definition fs_drop :: "(path \<Rightarrow> bool) \<Rightarrow> fs \<Rightarrow> fs" where
  "fs_drop P F = filter (\<lambda>e. \<not> P (fst e)) F"

definition fs_put :: "path \<Rightarrow> fnode \<Rightarrow> fs \<Rightarrow> fs" where
  "fs_put p n F = (p, n) # fs_drop (\<lambda>q. q = p) F"

section \<open>Actions\<close>

type_synonym 'a act = "fs \<Rightarrow> 'a result \<times> fs"

definition bindA :: "'a act \<Rightarrow> ('a \<Rightarrow> 'b act) \<Rightarrow> 'b act" where
  "bindA m f F = (case m F of (Inl e, G) \<Rightarrow> (Inl e, G) | (Inr a, G) \<Rightarrow> f a G)"

definition pureA :: "'a result \<Rightarrow> 'a act" where
  "pureA r F = (r, F)"

definition readA :: "(fs \<Rightarrow> 'a result) \<Rightarrow> 'a act" where
  "readA g F = (g F, F)"

definition whenA :: "bool \<Rightarrow> unit act \<Rightarrow> unit act" where
  "whenA b m = (if b then m else pureA (Inr ()))"

text \<open>A \<open>for\<close> loop and a loop that collects values.\<close>

fun mapA :: "('a \<Rightarrow> 'b act) \<Rightarrow> 'a list \<Rightarrow> 'b list act" where
  "mapA f [] = pureA (Inr [])"
| "mapA f (x # xs) = bindA (f x) (\<lambda>y. bindA (mapA f xs) (\<lambda>ys. pureA (Inr (y # ys))))"

definition forA :: "'a list \<Rightarrow> ('a \<Rightarrow> unit act) \<Rightarrow> unit act" where
  "forA xs f = bindA (mapA f xs) (\<lambda>_. pureA (Inr ()))"

definition write_text :: "path \<Rightarrow> string \<Rightarrow> unit act" where
  "write_text p s F =
     (if snd p \<noteq> [] \<and> is_dir F (path_parent p) \<and> node_at F p \<noteq> Some Folder
      then (Inr (), fs_put p (TextFile s) F)
      else (Inl (OSError ''cannot write''), F))"

text \<open>\<open>p.mkdir(exist_ok=True)\<close>, and the same with \<open>parents=True\<close>.\<close>

definition make_dir :: "path \<Rightarrow> unit act" where
  "make_dir p F =
     (if is_dir F p then (Inr (), F)
      else if node_at F p = None \<and> is_dir F (path_parent p) then (Inr (), fs_put p Folder F)
      else (Inl (OSError ''cannot create directory''), F))"

fun make_dirs_from :: "path \<Rightarrow> string list \<Rightarrow> unit act" where
  "make_dirs_from p [] = pureA (Inr ())"
| "make_dirs_from p (x # xs) =
     bindA (make_dir (fst p, snd p @ [x])) (\<lambda>_. make_dirs_from (fst p, snd p @ [x]) xs)"

definition make_dirs :: "path \<Rightarrow> unit act" where
  "make_dirs p = make_dirs_from (fst p, []) (snd p)"

definition rmtree :: "path \<Rightarrow> unit act" where
  "rmtree p F =
     (if node_at F p = Some Folder then (Inr (), fs_drop (path_under p) F)
      else (Inl (OSError ''not a directory''), F))"

text \<open>
  \<open>src.rename(dst)\<close>: a directory may take the place of an empty directory, a file that of a file; the
  parent of the target has to exist, and a directory cannot be moved into itself.
\<close>

definition moved :: "path \<Rightarrow> path \<Rightarrow> path \<Rightarrow> path" where
  "moved src dst q =
     (if path_under src q then (fst dst, snd dst @ drop (length (snd src)) (snd q)) else q)"

definition may_replace :: "fnode \<Rightarrow> path \<Rightarrow> fs \<Rightarrow> bool" where
  "may_replace n dst F =
     (case (n, node_at F dst) of
        (_, None) \<Rightarrow> True
      | (Folder, Some Folder) \<Rightarrow> iterdir F dst = []
      | (TextFile _, Some (TextFile _)) \<Rightarrow> True
      | _ \<Rightarrow> False)"

definition rename_path :: "path \<Rightarrow> path \<Rightarrow> unit act" where
  "rename_path src dst F =
     (case node_at F src of
        None \<Rightarrow> (Inl (OSError ''no such file or directory''), F)
      | Some n \<Rightarrow>
          if src = dst then (Inr (), F)
          else if snd dst = [] \<or> \<not> is_dir F (path_parent dst) \<or> path_under src dst
            \<or> \<not> may_replace n dst F
          then (Inl (OSError ''cannot rename''), F)
          else (Inr (), map (\<lambda>(q, n). (moved src dst q, n)) (fs_drop (\<lambda>q. q = dst) F)))"

section \<open>Laws\<close>

lemma bindA_pure [simp]:
  "bindA (pureA (Inr a)) f = f a"
  "bindA (pureA (Inl e)) f = pureA (Inl e)"
  by (simp_all add: bindA_def pureA_def fun_eq_iff)

lemma bindA_assoc: "bindA (bindA m f) g = bindA m (\<lambda>a. bindA (f a) g)"
  by (auto simp: bindA_def fun_eq_iff split: prod.splits sum.splits)

lemma bindA_Inr_conv:
  "bindA m f F = (Inr b, H) \<longleftrightarrow> (\<exists>a G. m F = (Inr a, G) \<and> f a G = (Inr b, H))"
  by (auto simp: bindA_def split: prod.splits sum.splits)

lemma pureA_conv: "pureA r F = (s, G) \<longleftrightarrow> r = s \<and> F = G"
  by (simp add: pureA_def)

lemma readA_conv: "readA g F = (s, G) \<longleftrightarrow> g F = s \<and> F = G"
  by (simp add: readA_def)

lemma forA_simps [simp]:
  "forA [] f = pureA (Inr ())"
  "forA (x # xs) f = bindA (f x) (\<lambda>_. forA xs f)"
  by (simp_all add: forA_def bindA_assoc)

lemma node_at_drop: "node_at (fs_drop P F) q = (if P q then None else node_at F q)"
  by (induction F) (auto simp: fs_drop_def)

lemma node_at_put [simp]: "node_at (fs_put p n F) q = (if q = p then Some n else node_at F q)"
  by (simp add: fs_put_def node_at_drop)

lemma is_dir_put:
  "is_dir (fs_put p n F) q \<longleftrightarrow> snd q = [] \<or> (if q = p then n = Folder else is_dir F q)"
  by (auto simp: is_dir_def)

lemma path_under_refl [simp]: "path_under p p"
  by (simp add: path_under_def)

lemma path_under_join [simp]: "path_under p (fst p, snd p @ r)"
  by (simp add: path_under_def)

text \<open>Actions leave alone what they do not name.\<close>

lemma write_text_frame: "write_text p s F = (r, G) \<Longrightarrow> q \<noteq> p \<Longrightarrow> node_at G q = node_at F q"
  by (auto simp: write_text_def split: if_splits)

lemma write_text_Inr:
  "write_text p s F = (Inr u, G) \<longleftrightarrow>
     snd p \<noteq> [] \<and> is_dir F (path_parent p) \<and> node_at F p \<noteq> Some Folder \<and> G = fs_put p (TextFile s) F"
  by (auto simp: write_text_def)

lemma make_dir_Inr:
  "make_dir p F = (Inr u, G) \<Longrightarrow> is_dir G p \<and>
     (\<forall>q. node_at G q = (if q = p \<and> snd p \<noteq> [] then Some Folder else node_at F q))"
  by (auto simp: make_dir_def is_dir_def split: if_splits)

section \<open>Moving directories\<close>

lemma map_of_moved:
  assumes "\<forall>e \<in> set L. \<not> path_under dst (fst e)" "\<not> path_under src dst" "\<not> path_under dst src"
  shows "map_of (map (\<lambda>(q, n). (moved src dst q, n)) L) x =
    (if path_under dst x then map_of L (fst src, snd src @ drop (length (snd dst)) (snd x))
     else if path_under src x then None else map_of L x)"
  using assms(1)
proof (induction L)
  case (Cons e L)
  obtain q n where e: "e = (q, n)" by (cases e)
  have nd: "\<not> path_under dst q" using Cons.prems e by simp
  have move: "x = (fst dst, snd dst @ drop (length (snd src)) (snd q)) \<longleftrightarrow>
      path_under dst x \<and> q = (fst src, snd src @ drop (length (snd dst)) (snd x))" if "path_under src q"
  proof -
    have "b = a @ drop (length a) b" if "take (length a) b = a" for a b :: "string list"
      using that append_take_drop_id [of "length a" b] by simp
    with that show ?thesis by (cases x; cases q) (auto simp: path_under_def)
  qed
  show ?case
  proof (cases "path_under src q")
    case True
    then show ?thesis
      using Cons e move [OF True] assms by (auto simp: moved_def)
  next
    case False
    moreover have "q \<noteq> (fst src, snd src @ drop (length (snd dst)) (snd x))"
      using False by (auto simp: path_under_def)
    ultimately show ?thesis
      using Cons e nd by (auto simp: moved_def)
  qed
qed simp

lemma rename_folder:
  assumes "node_at F src = Some Folder" "\<forall>q. path_under dst q \<longrightarrow> node_at F q = None"
    and "snd dst \<noteq> []" "is_dir F (path_parent dst)" "\<not> path_under src dst" "\<not> path_under dst src"
  shows "\<exists>G. rename_path src dst F = (Inr (), G) \<and>
    (\<forall>x. node_at G x = (if path_under dst x
        then node_at F (fst src, snd src @ drop (length (snd dst)) (snd x))
        else if path_under src x then None else node_at F x))"
proof -
  have "src \<noteq> dst" using assms(5) by auto
  moreover have none: "node_at F dst = None" using assms(2) path_under_refl by blast
  moreover from this have drop: "fs_drop (\<lambda>q. q = dst) F = F"
    by (auto simp: fs_drop_def filter_id_conv map_of_eq_None_iff)
  moreover have "\<forall>e \<in> set F. \<not> path_under dst (fst e)"
    using assms(2) by (metis map_of_eq_None_iff image_eqI)
  ultimately show ?thesis
    using assms map_of_moved [of F dst src] none
    by (simp add: rename_path_def may_replace_def del: split_paired_All)
qed

text \<open>The entries of one directory: \<open>child D q\<close> is the entry of \<open>D\<close> that \<open>q\<close> lies in.\<close>

definition sib :: "path \<Rightarrow> string \<Rightarrow> path" where
  "sib D x = (fst D, snd D @ [x])"

definition child :: "path \<Rightarrow> path \<Rightarrow> string option" where
  "child D q =
     (if path_under D q \<and> length (snd D) < length (snd q) then Some (snd q ! length (snd D)) else None)"

lemma under_sib: "path_under (sib D x) q \<longleftrightarrow> child D q = Some x"
proof -
  have "take (Suc n) xs = ys @ [x] \<longleftrightarrow> take n xs = ys \<and> n < length xs \<and> xs ! n = x"
    if "length ys = n" for n and xs ys :: "string list"
    using that by (cases "n < length xs") (auto simp: take_Suc_conv_app_nth dest: arg_cong [where f = length])
  from this [of "snd D" "length (snd D)" "snd q"]
  show ?thesis by (auto simp: path_under_def sib_def child_def)
qed

lemma child_sib [simp]: "child D (sib D x) = Some x"
  by (simp add: child_def sib_def path_under_def)

definition respell :: "path \<Rightarrow> string \<Rightarrow> path \<Rightarrow> path" where
  "respell D x q = (fst D, snd D @ x # drop (Suc (length (snd D))) (snd q))"

lemma child_respell [simp]: "child D (respell D x q) = Some x"
  by (simp add: child_def respell_def path_under_def)

lemma respell_respell [simp]: "respell D x (respell D y q) = respell D x q"
  by (simp add: respell_def)

lemma rename_sibling:
  assumes "node_at F (sib D s) = Some Folder" "\<forall>q. child D q = Some m \<longrightarrow> node_at F q = None"
    and "is_dir F D" "s \<noteq> m"
  shows "\<exists>G. rename_path (sib D s) (sib D m) F = (Inr (), G) \<and>
    (\<forall>x. node_at G x = (if child D x = Some m then node_at F (respell D s x)
        else if child D x = Some s then None else node_at F x))"
proof -
  have "snd (sib D m) \<noteq> []" "path_parent (sib D m) = D"
    "(fst (sib D s), snd (sib D s) @ drop (length (snd (sib D m))) (snd x)) = respell D s x" for x
    by (simp_all add: sib_def path_parent_def respell_def)
  with rename_folder [of F "sib D s" "sib D m", unfolded under_sib] assms show ?thesis
    by (simp del: split_paired_All cong: if_cong)
qed

lemma is_dir_cong: "node_at G D = node_at F D \<Longrightarrow> is_dir G D = is_dir F D"
  by (simp add: is_dir_def)

lemma child_self [simp]: "child D D = None"
  by (simp add: child_def)

text \<open>Moving many entries of one directory: each keeps its contents under its new name.\<close>

definition after_moves :: "path \<Rightarrow> (string \<times> string) list \<Rightarrow> fs \<Rightarrow> path \<Rightarrow> fnode option" where
  "after_moves D moves F x =
     (case child D x of
        None \<Rightarrow> node_at F x
      | Some y \<Rightarrow>
          (case map_of (map prod.swap moves) y of
             Some s \<Rightarrow> node_at F (respell D s x)
           | None \<Rightarrow> if y \<in> fst ` set moves then None else node_at F x))"

text \<open>What one renaming leaves to the others.\<close>

lemma after_moves_step:
  assumes G: "\<forall>x. node_at G x = (if child D x = Some m then node_at F (respell D s x)
        else if child D x = Some s then None else node_at F x)"
    and sm: "s \<noteq> m" "s \<notin> fst ` set moves" "m \<notin> snd ` set moves" "s \<notin> snd ` set moves" "m \<notin> fst ` set moves"
  shows "after_moves D moves G x = after_moves D ((s, m) # moves) F x"
proof (cases "child D x")
  case None
  then show ?thesis using G by (simp add: after_moves_def del: split_paired_All)
next
  case (Some y)
  have swap: "map_of (map prod.swap moves) y = Some s' \<Longrightarrow> s' \<in> fst ` set moves \<and> y \<in> snd ` set moves" for s'
    by (force dest: map_of_SomeD)
  show ?thesis
  proof (cases "map_of (map prod.swap moves) y")
    case None
    then show ?thesis
      using Some G sm by (auto simp: after_moves_def simp del: split_paired_All)
  next
    case (Some s')
    with swap [OF this] sm have "s' \<noteq> s" "s' \<noteq> m" "y \<noteq> m" "y \<noteq> s" by auto
    then show ?thesis
      using Some \<open>child D x = Some y\<close> G by (simp add: after_moves_def del: split_paired_All)
  qed
qed

lemma entries_after_rename:
  assumes G: "\<forall>x. node_at G x = (if child D x = Some m then node_at F (respell D s x)
        else if child D x = Some s then None else node_at F x)"
  shows "is_dir F D \<Longrightarrow> is_dir G D"
    "s' \<noteq> m \<Longrightarrow> s' \<noteq> s \<Longrightarrow> node_at G (sib D s') = node_at F (sib D s')"
    "child D q = Some m' \<Longrightarrow> m' \<noteq> m \<Longrightarrow> node_at F q = None \<Longrightarrow> node_at G q = None"
  using G by (simp_all add: is_dir_def del: split_paired_All)

lemma rename_siblings:
  assumes "distinct (map fst moves)" "distinct (map snd moves)" "fst ` set moves \<inter> snd ` set moves = {}"
    and "is_dir F D" "\<forall>s \<in> fst ` set moves. node_at F (sib D s) = Some Folder"
    and "\<forall>m \<in> snd ` set moves. \<forall>q. child D q = Some m \<longrightarrow> node_at F q = None"
  shows "\<exists>G. forA (map (\<lambda>(s, m). (sib D s, sib D m)) moves) (\<lambda>(src, dst). rename_path src dst) F = (Inr (), G) \<and>
    (\<forall>x. node_at G x = after_moves D moves F x)"
  using assms
proof (induction moves arbitrary: F)
  case Nil
  then show ?case by (auto simp: pureA_def after_moves_def split: option.splits)
next
  case (Cons e moves)
  obtain s m where e: "e = (s, m)" by (cases e)
  have sm: "s \<noteq> m" "s \<notin> fst ` set moves" "m \<notin> snd ` set moves" "s \<notin> snd ` set moves" "m \<notin> fst ` set moves"
    using Cons.prems e by (auto simp: image_iff)
  from rename_sibling [of F D s m] Cons.prems e sm obtain G where
    ren: "rename_path (sib D s) (sib D m) F = (Inr (), G)"
    and G: "\<forall>x. node_at G x = (if child D x = Some m then node_at F (respell D s x)
        else if child D x = Some s then None else node_at F x)"
    by (auto simp del: split_paired_All)
  have "is_dir G D" using Cons.prems(4) by (rule entries_after_rename [OF G])
  moreover have "\<forall>s' \<in> fst ` set moves. node_at G (sib D s') = Some Folder"
  proof
    fix s' assume s': "s' \<in> fst ` set moves"
    then have "s' \<noteq> m" "s' \<noteq> s" using sm by auto
    then show "node_at G (sib D s') = Some Folder"
      using entries_after_rename(2) [OF G] Cons.prems(5) s' by auto
  qed
  moreover have "\<forall>m' \<in> snd ` set moves. \<forall>q. child D q = Some m' \<longrightarrow> node_at G q = None"
  proof (intro ballI allI impI)
    fix m' q assume m': "m' \<in> snd ` set moves" "child D q = Some m'"
    then have "m' \<noteq> m" "node_at F q = None" using sm Cons.prems(6) by (auto simp del: split_paired_All)
    with m'(2) show "node_at G q = None" by (rule entries_after_rename(3) [OF G])
  qed
  ultimately obtain H where
    rest: "forA (map (\<lambda>(s, m). (sib D s, sib D m)) moves) (\<lambda>(src, dst). rename_path src dst) G = (Inr (), H)"
    and H: "\<forall>x. node_at H x = after_moves D moves G x"
    using Cons.IH [of G] Cons.prems e by (auto simp del: split_paired_All)
  have "node_at H x = after_moves D (e # moves) F x" for x
    using H after_moves_step [OF G sm] e by (simp del: split_paired_All)
  with ren rest e show ?case by (auto simp: bindA_def)
qed

end
