(* ===== verification/Abi.thy ===== *)
theory Abi
  imports Contracts Reference Files
begin

text \<open>
  The declarations of the contracts: the ABI texts of \<open>tempo/contracts/keychain.py\<close> and
  \<open>tempo/contracts/tip20.py\<close>, a reader of the human-readable ABI format, which argument values a declared
  function takes, and that the call builders pass such values.
\<close>

section \<open>The texts\<close>

definition nl :: string where "nl = [CHR 0x0A]"

definition ACCOUNT_KEYCHAIN_ABI :: "string list" where
  "ACCOUNT_KEYCHAIN_ABI =
     [''struct TokenLimit {'' @ nl @ ''        address token;'' @ nl @ ''        uint256 amount;'' @ nl
        @ ''        uint64 period;'' @ nl @ ''    }'',
      ''struct SelectorRule {'' @ nl @ ''        bytes4 selector;'' @ nl @ ''        address[] recipients;'' @ nl
        @ ''    }'',
      ''struct CallScope {'' @ nl @ ''        address target;'' @ nl @ ''        SelectorRule[] selectorRules;'' @ nl
        @ ''    }'',
      ''struct KeyRestrictions {'' @ nl @ ''        uint64 expiry;'' @ nl @ ''        bool enforceLimits;'' @ nl
        @ ''        TokenLimit[] limits;'' @ nl @ ''        bool allowAnyCalls;'' @ nl
        @ ''        CallScope[] allowedCalls;'' @ nl @ ''    }'',
      ''function authorizeKey(address keyId, uint8 signatureType, KeyRestrictions restrictions)'',
      ''function revokeKey(address keyId)'',
      ''function updateSpendingLimit(address keyId, address token, uint256 newLimit)'',
      ''function setAllowedCalls(address keyId, CallScope[] scopes)'',
      ''function removeAllowedCalls(address keyId, address target)'',
      ''function authorizeAdminKey(address keyId, uint8 signatureType, bytes32 witness)'',
      ''function burnKeyAuthorizationWitness(bytes32 witness)'',
      ''function isKeyAuthorizationWitnessBurned(address account, bytes32 witness) view returns (bool)'',
      ''function isAdminKey(address account, address keyId) view returns (bool)'']"

definition TIP20_ABI :: "string list" where
  "TIP20_ABI =
     [''function transfer(address to, uint256 amount) returns (bool)'',
      ''function transferWithMemo(address to, uint256 amount, bytes32 memo) returns (bool)'',
      ''function transferFrom(address sender, address to, uint256 amount) returns (bool)'',
      ''function transferFromWithMemo(address sender, address to, uint256 amount, bytes32 memo) returns (bool)'',
      ''function approve(address spender, uint256 amount) returns (bool)'',
      ''function mint(address to, uint256 amount) returns (bool)'',
      ''function mintWithMemo(address to, uint256 amount, bytes32 memo) returns (bool)'',
      ''function burn(uint256 amount) returns (bool)'',
      ''function burnWithMemo(uint256 amount, bytes32 memo) returns (bool)'',
      ''function burnBlocked(address sender, uint256 amount) returns (bool)'',
      ''function pause()'',
      ''function unpause()'',
      ''function setSupplyCap(uint256 newSupplyCap)'',
      ''function changeTransferPolicyId(uint64 newPolicyId)'',
      ''function claimRewards()'',
      ''function distributeReward(uint256 amount)'',
      ''function setLogoURI(string logoURI)'',
      ''function setNextQuoteToken(address newQuoteToken)'',
      ''function setRewardRecipient(address newRewardRecipient)'',
      ''function completeQuoteTokenUpdate()'',
      ''function permit(address owner, address spender, uint256 value,''
        @ '' uint256 deadline, uint8 v, bytes32 r, bytes32 s)'',
      ''event Transfer(address indexed from, address indexed to, uint256 amount)'',
      ''event TransferWithMemo(address indexed from, address indexed to, uint256 amount, bytes32 memo)'',
      ''event Approval(address indexed owner, address indexed spender, uint256 amount)'']"

definition TIP20_ROLES_ABI :: "string list" where
  "TIP20_ROLES_ABI =
     [''function grantRole(bytes32 role, address account)'',
      ''function revokeRole(bytes32 role, address account)'',
      ''function renounceRole(bytes32 role)'',
      ''function setRoleAdmin(bytes32 role, bytes32 adminRole)'',
      ''function hasRole(address account, bytes32 role) view returns (bool)'',
      ''function getRoleAdmin(bytes32 role) view returns (bytes32)'']"

section \<open>Reading declarations\<close>

datatype abi_type =
  TAddress | TBool | TText | TUint nat | TFixed nat | TArray abi_type | TStruct string

datatype abi_decl =
    StructDecl string "abi_type list"
  | FunctionDecl string "abi_type list"
  | EventDecl string "abi_type list"

text \<open>Words and the punctuation between them.\<close>

fun abi_tokens :: "string \<Rightarrow> string \<Rightarrow> string list" where
  "abi_tokens w [] = (if w = [] then [] else [w])"
| "abi_tokens w (ch # s) =
     (if ch \<in> set ('' '' @ nl) then (if w = [] then [] else [w]) @ abi_tokens [] s
      else if ch \<in> set ''(),{};'' then (if w = [] then [] else [w]) @ [[ch]] @ abi_tokens [] s
      else abi_tokens (w @ [ch]) s)"

fun decimal :: "nat \<Rightarrow> string \<Rightarrow> nat option" where
  "decimal n [] = Some n"
| "decimal n (ch # s) =
     (let d = of_char ch :: nat in
      if 48 \<le> d \<and> d \<le> 57 then decimal (10 * n + (d - 48)) s else None)"

text \<open>The number after a prefix.\<close>

definition sized :: "string \<Rightarrow> string \<Rightarrow> nat option" where
  "sized p w = (if starts_with p w \<and> length p < length w then decimal 0 (drop (length p) w) else None)"

definition base_type :: "string \<Rightarrow> abi_type" where
  "base_type w =
     (if w = ''address'' then TAddress else if w = ''bool'' then TBool else if w = ''string'' then TText
      else case sized ''uint'' w of
        Some n \<Rightarrow> TUint n
      | None \<Rightarrow> (case sized ''bytes'' w of Some n \<Rightarrow> TFixed n | None \<Rightarrow> TStruct w))"

definition abi_type_of :: "string \<Rightarrow> abi_type" where
  "abi_type_of w =
     (if 2 < length w \<and> drop (length w - 2) w = ''[]'' then TArray (base_type (take (length w - 2) w))
      else base_type w)"

text \<open>Parameters up to the closing bracket, or fields; each starts with its type.\<close>

fun abi_groups :: "string \<Rightarrow> string list \<Rightarrow> string list \<Rightarrow> string list list" where
  "abi_groups sep [] ts = (if ts = [] then [] else [ts])"
| "abi_groups sep (t # rest) ts =
     (if t = sep then (if ts = [] then [] else [ts]) @ abi_groups sep rest [] else abi_groups sep rest (ts @ [t]))"

definition types_until :: "string \<Rightarrow> string \<Rightarrow> string list \<Rightarrow> abi_type list" where
  "types_until stop sep ts =
     map (\<lambda>g. abi_type_of (hd g)) (abi_groups sep (takeWhile (\<lambda>t. t \<noteq> stop) ts) [])"

definition abi_decl_of :: "string \<Rightarrow> abi_decl option" where
  "abi_decl_of s =
     (case abi_tokens [] s of
        kind # nm # br # rest \<Rightarrow>
          if kind = ''struct'' \<and> br = ''{'' then Some (StructDecl nm (types_until ''}'' '';'' rest))
          else if kind = ''function'' \<and> br = ''('' then Some (FunctionDecl nm (types_until '')'' '','' rest))
          else if kind = ''event'' \<and> br = ''('' then Some (EventDecl nm (types_until '')'' '','' rest))
          else None
      | _ \<Rightarrow> None)"

definition abi_functions :: "string list \<Rightarrow> (string \<times> abi_type list) list" where
  "abi_functions texts =
     concat (map (\<lambda>s. case abi_decl_of s of Some (FunctionDecl f ts) \<Rightarrow> [(f, ts)] | _ \<Rightarrow> []) texts)"

definition abi_structs :: "string list \<Rightarrow> (string \<times> abi_type list) list" where
  "abi_structs texts =
     concat (map (\<lambda>s. case abi_decl_of s of Some (StructDecl f ts) \<Rightarrow> [(f, ts)] | _ \<Rightarrow> []) texts)"

lemma keychain_functions:
  "abi_functions ACCOUNT_KEYCHAIN_ABI =
     [(''authorizeKey'', [TAddress, TUint 8, TStruct ''KeyRestrictions'']), (''revokeKey'', [TAddress]),
      (''updateSpendingLimit'', [TAddress, TAddress, TUint 256]),
      (''setAllowedCalls'', [TAddress, TArray (TStruct ''CallScope'')]),
      (''removeAllowedCalls'', [TAddress, TAddress]),
      (''authorizeAdminKey'', [TAddress, TUint 8, TFixed 32]), (''burnKeyAuthorizationWitness'', [TFixed 32]),
      (''isKeyAuthorizationWitnessBurned'', [TAddress, TFixed 32]), (''isAdminKey'', [TAddress, TAddress])]"
  by code_simp

lemma keychain_structs:
  "abi_structs ACCOUNT_KEYCHAIN_ABI =
     [(''TokenLimit'', [TAddress, TUint 256, TUint 64]), (''SelectorRule'', [TFixed 4, TArray TAddress]),
      (''CallScope'', [TAddress, TArray (TStruct ''SelectorRule'')]),
      (''KeyRestrictions'',
         [TUint 64, TBool, TArray (TStruct ''TokenLimit''), TBool, TArray (TStruct ''CallScope'')])]"
  by code_simp

section \<open>Values of a type\<close>

type_synonym structs = "(string \<times> abi_type list) list"

definition is_address_text :: "string \<Rightarrow> bool" where
  "is_address_text s \<longleftrightarrow>
     length s = 42 \<and> starts_with ''0x'' s \<and> list_all (\<lambda>ch. ch \<in> set ''0123456789abcdefABCDEF'') (drop 2 s)"

function fits :: "structs \<Rightarrow> abi_type \<Rightarrow> abi_val \<Rightarrow> bool" where
  "fits S t v =
     (case (t, v) of
        (TAddress, AStr s) \<Rightarrow> is_address_text s
      | (TAddress, ABytes b) \<Rightarrow> length b = 20
      | (TBool, ABool b) \<Rightarrow> True
      | (TText, AStr s) \<Rightarrow> True
      | (TUint n, AInt i) \<Rightarrow> 0 \<le> i \<and> i < 2 ^ n
      | (TFixed n, ABytes b) \<Rightarrow> length b \<le> n
      | (TArray u, AList vs) \<Rightarrow> (\<forall>w \<in> set vs. fits S u w)
      | (TStruct nm, ATuple vs) \<Rightarrow>
          (case map_of S nm of
             None \<Rightarrow> False
           | Some ts \<Rightarrow> length ts = length vs \<and> (\<forall>(u, w) \<in> set (zip ts vs). fits S u w))
      | _ \<Rightarrow> False)"
  by pat_completeness auto
termination
  by (relation "measure (\<lambda>(S, t, v). size v)")
    (auto dest!: set_zip_rightD simp: less_Suc_eq_le intro!: size_list_estimation')

declare fits.simps [simp del]

lemma fits_simps [simp]:
  "fits S TAddress (AStr s) = is_address_text s" "fits S TAddress (ABytes b) = (length b = 20)"
  "fits S TBool (ABool p)" "fits S (TUint n) (AInt i) = (0 \<le> i \<and> i < 2 ^ n)"
  "fits S (TFixed n) (ABytes b) = (length b \<le> n)"
  "fits S (TArray u) (AList vs) = list_all (fits S u) vs"
  "fits S (TStruct nm) (ATuple vs) =
     (case map_of S nm of None \<Rightarrow> False | Some ts \<Rightarrow> list_all2 (fits S) ts vs)"
  by (subst fits.simps, simp add: list_all_iff list_all2_iff split: option.split)+

text \<open>A function of that name with as many parameters, and one that takes the values.\<close>

definition declared :: "string list \<Rightarrow> string \<Rightarrow> nat \<Rightarrow> bool" where
  "declared texts fn n \<longleftrightarrow> list_ex (\<lambda>(f, ts). f = fn \<and> length ts = n) (abi_functions texts)"

definition accepted :: "string list \<Rightarrow> string \<Rightarrow> abi_val list \<Rightarrow> bool" where
  "accepted texts fn args \<longleftrightarrow>
     list_ex (\<lambda>(f, ts). f = fn \<and> list_all2 (fits (abi_structs texts)) ts args) (abi_functions texts)"

text \<open>
  The contract library: it encodes values that a declared function takes, and has no function of a
  number of parameters that no declaration has.
\<close>

definition abi_ok :: "ext \<Rightarrow> bool" where
  "abi_ok E \<longleftrightarrow>
     (\<forall>fn args.
        (accepted ACCOUNT_KEYCHAIN_ABI fn args \<longrightarrow> \<not> isl (abi_calldata E ''ACCOUNT_KEYCHAIN'' fn args)) \<and>
        (\<not> declared ACCOUNT_KEYCHAIN_ABI fn (length args) \<longrightarrow> isl (abi_calldata E ''ACCOUNT_KEYCHAIN'' fn args)))"

definition keychain_returns :: "call result \<Rightarrow> bool" where
  "keychain_returns r \<longleftrightarrow>
     (case r of Inl e \<Rightarrow> False | Inr c \<Rightarrow> call_to c = ACCOUNT_KEYCHAIN_BYTES \<and> call_value c = 0 \<and> call_ok c)"

lemma accepted_returns:
  assumes "checksum_ok E" "abi_ok E" "accepted ACCOUNT_KEYCHAIN_ABI fn args"
  shows "keychain_returns (keychain_call E fn args)"
proof -
  have "\<not> isl (abi_calldata E ''ACCOUNT_KEYCHAIN'' fn args)" using assms(2,3) unfolding abi_ok_def by blast
  then obtain d where "abi_calldata E ''ACCOUNT_KEYCHAIN'' fn args = Inr d"
    by (cases "abi_calldata E ''ACCOUNT_KEYCHAIN'' fn args") simp_all
  with keychain_call_exact [OF assms(1), of fn args] show ?thesis by (simp add: keychain_returns_def)
qed

lemma undeclared_raises:
  assumes "abi_ok E" "\<not> declared ACCOUNT_KEYCHAIN_ABI fn (length args)"
  shows "isl (keychain_call E fn args)"
proof -
  have "isl (abi_calldata E ''ACCOUNT_KEYCHAIN'' fn args)" using assms unfolding abi_ok_def by blast
  then obtain e where "abi_calldata E ''ACCOUNT_KEYCHAIN'' fn args = Inl e"
    by (cases "abi_calldata E ''ACCOUNT_KEYCHAIN'' fn args") simp_all
  then show ?thesis by (simp add: keychain_call_def)
qed

section \<open>The builders\<close>

abbreviation keychain_fits :: "abi_type \<Rightarrow> abi_val \<Rightarrow> bool" where
  "keychain_fits \<equiv> fits (abi_structs ACCOUNT_KEYCHAIN_ABI)"

lemma authorize_key_returns:
  assumes "checksum_ok E" "abi_ok E" "is_address_text key_id" "keychain_fits (TUint 8) (AInt sig_type)"
    and "keychain_fits (TUint 64) (AInt expiry)"
    and "list_all (keychain_fits (TStruct ''TokenLimit'')) (map ATuple lims)"
    and "list_all (\<lambda>(t, rs). keychain_fits (TStruct ''CallScope'') (ATuple [t, AList rs])) scopes"
  shows "keychain_returns (authorize_key E key_id sig_type expiry enforce (Some (map LimitSeq lims)) allow_any
      (Some (map (\<lambda>(t, rs). ScopeTuple [t, AList rs]) scopes)))"
proof -
  have "list_all (keychain_fits (TStruct ''CallScope'')) (map (\<lambda>(t, rs). ATuple [t, AList rs]) scopes)"
    using assms(7) by (auto simp: list_all_iff simp del: fits_simps)
  then have "accepted ACCOUNT_KEYCHAIN_ABI ''authorizeKey'' [AStr key_id, AInt sig_type,
      ATuple [AInt expiry, ABool enforce, AList (map ATuple lims), ABool allow_any,
        AList (map (\<lambda>(t, rs). ATuple [t, AList rs]) scopes)]]"
    using assms(3-6) unfolding accepted_def keychain_functions keychain_structs by simp
  from accepted_returns [OF assms(1,2) this] show ?thesis
    using restrictions_tuple_documented [of expiry enforce lims allow_any scopes] by (simp add: authorize_key_def)
qed

text \<open>Every text is a declaration, and no name has two functions.\<close>

definition well_declared :: "string list \<Rightarrow> bool" where
  "well_declared texts \<longleftrightarrow>
     list_all (\<lambda>s. abi_decl_of s \<noteq> None) texts \<and> distinct (map fst (abi_functions texts))"

lemma tables_well_declared:
  "well_declared ACCOUNT_KEYCHAIN_ABI" "well_declared TIP20_ABI" "well_declared TIP20_ROLES_ABI"
  by code_simp+

lemma accepted_declared: "accepted texts fn args \<Longrightarrow> declared texts fn (length args)"
  by (auto simp: accepted_def declared_def list_ex_iff dest: list_all2_lengthD)


text \<open>The reference functions with a contract library that encodes nothing but what is declared.\<close>

definition abi_ext :: ext where
  "abi_ext = ref_ext\<lparr>abi_calldata := (\<lambda>contract fn args.
     if accepted ACCOUNT_KEYCHAIN_ABI fn args then Inr [] else Inl (ValueError ''no matching function''))\<rparr>"

lemma abi_ext_ok: "checksum_ok abi_ext" "abi_ok abi_ext"
proof -
  show "checksum_ok abi_ext" using ref_checksum_ok by (simp add: checksum_ok_def abi_ext_def)
  show "abi_ok abi_ext" using accepted_declared by (auto simp: abi_ok_def abi_ext_def)
qed

definition demo_key_id :: string where "demo_key_id = ''0x'' @ replicate 40 (CHR ''7'')"


end
