(* ===== verification/Signer.thy ===== *)
theory Signer
  imports Models Samples
begin

text \<open>
  \<open>tempo/signer.py\<close>: the class \<open>Signer\<close> around an \<open>eth_account\<close> account, and the recovery and
  verification of secp256k1 signatures. An account is the secret scalar \<open>account_from_key\<close>
  gives; signing and recovery themselves are external.
\<close>

record signer =
  account :: nat

definition signer_init :: "ext \<Rightarrow> string \<Rightarrow> signer result" where
  "signer_init E private_key_hex =
     bindE (account_from_key E private_key_hex) (\<lambda>k. Inr \<lparr>account = k\<rparr>)"

definition signer_address :: "ext \<Rightarrow> signer \<Rightarrow> bytes result" where
  "signer_address E k = to_bytes_hexstr E (account_address E (account k))"

definition signer_checksum_address :: "ext \<Rightarrow> signer \<Rightarrow> string" where
  "signer_checksum_address E k = account_address E (account k)"

definition signer_private_key :: "ext \<Rightarrow> signer \<Rightarrow> string" where
  "signer_private_key E k = account_key_hex E (account k)"

definition sign :: "ext \<Rightarrow> signer \<Rightarrow> bytes \<Rightarrow> signature result" where
  "sign E k message_hash =
     bindE (sign_msg_hash E (account k) message_hash) (\<lambda>(r, s, v). signature_init r s v)"

definition sign_data :: "ext \<Rightarrow> signer \<Rightarrow> bytes \<Rightarrow> signature result" where
  "sign_data E k dat = sign E k (keccak256 E dat)"

definition recover_address :: "ext \<Rightarrow> bytes \<Rightarrow> signature \<Rightarrow> bytes result" where
  "recover_address E message_hash sg =
     (if sig_r sg \<le> 0 \<or> sig_r sg \<ge> SECP256K1_N then Inl (ValueError ''r out of range'')
      else if sig_s sg \<le> 0 \<or> sig_s sg > SECP256K1_HALF_N
      then Inl (ValueError ''s out of range (expected low-s)'')
      else if sig_v sg \<notin> {0, 1, 27, 28} then Inl (ValueError ''v must be 0, 1, 27, or 28'')
      else
        bindE (int_to_bytes 32 (sig_r sg)) (\<lambda>r_bytes.
        bindE (int_to_bytes 32 (sig_s sg)) (\<lambda>s_bytes.
        bindE (byte_of_int (sig_v sg)) (\<lambda>v_bytes.
        bindE (recover_hash E message_hash (r_bytes @ s_bytes @ v_bytes)) (\<lambda>recovered.
          to_bytes_hexstr E recovered)))))"

definition signer_verify_signature :: "ext \<Rightarrow> signer \<Rightarrow> bytes \<Rightarrow> signature \<Rightarrow> bool result" where
  "signer_verify_signature E k message_hash sg =
     bindE (recover_address E message_hash sg) (\<lambda>recovered.
     bindE (signer_address E k) (\<lambda>a. Inr (recovered = a)))"

text \<open>The module's function \<open>verify_signature(message_hash, sig, address)\<close>.\<close>

definition hash_verify_signature :: "ext \<Rightarrow> bytes \<Rightarrow> signature \<Rightarrow> bytes_like \<Rightarrow> bool result" where
  "hash_verify_signature E message_hash sg address =
     bindE (recover_address E message_hash sg) (\<lambda>recovered.
     bindE (as_address E address) (\<lambda>a. Inr (recovered = a)))"

section \<open>Signing and recovery\<close>

lemma signer_address_ok:
  "account_ok E \<Longrightarrow> \<exists>a. signer_address E k = Inr a \<and> length a = 20"
  unfolding account_ok_def signer_address_def by blast

text \<open>On a valid signature recovery is \<open>_recover_hash\<close> on the 65 bytes of \<open>to_bytes\<close>.\<close>

lemma recover_address_valid:
  assumes "signature_ok sg"
  shows "recover_address E h sg =
    bindE (sig_to_bytes sg) (\<lambda>b. bindE (recover_hash E h b) (to_bytes_hexstr E))"
  using assms by (auto simp: recover_address_def sig_to_bytes_def signature_ok_def bindE_assoc)

lemma sign_ok:
  assumes "ecdsa_ok E" "length h = 32"
  obtains sg where "sign E k h = Inr sg" "signature_ok sg"
    "recover_address E h sg = signer_address E k"
    "recover_address E h (sig_canonical sg) = signer_address E k"
proof -
  from assms obtain r s v where m: "sign_msg_hash E (account k) h = Inr (r, s, v)"
    and ok: "0 < r" "r < SECP256K1_N" "0 < s" "s \<le> SECP256K1_HALF_N" "v \<in> {0, 1}"
    and rec: "\<And>w. w \<in> {v, 27 + v} \<Longrightarrow>
      recover_hash E h (nat_to_be 32 (nat r) @ nat_to_be 32 (nat s) @ [word_of_int w])
        = Inr (account_address E (account k))"
    unfolding ecdsa_ok_def by metis
  let ?sg = "\<lparr>sig_r = r, sig_s = s, sig_v = v\<rparr>"
  have sg: "signature_ok ?sg" using ok by (auto simp: signature_ok_def)
  have y: "y_parity ?sg = v" using ok by (auto simp: y_parity_def)
  have "recover_address E h ?sg = signer_address E k"
    using rec [of v] by (simp add: recover_address_valid [OF sg] sig_to_bytes_layout [OF sg] signer_address_def)
  moreover have "recover_address E h (sig_canonical ?sg) = signer_address E k"
    using rec [of "27 + v"] sig_canonical_ok [OF sg]
    by (simp add: recover_address_valid sig_to_bytes_layout signer_address_def)
       (simp add: sig_canonical_def y)
  moreover have "sign E k h = Inr ?sg" using m sg by (simp add: sign_def signature_init_conv)
  ultimately show thesis using that sg by blast
qed

text \<open>
  C14. A signature made by a signer over a 32-byte hash is valid and recovers to the signer's own
  20-byte address, also after \<open>to_canonical_bytes\<close> and \<open>from_bytes\<close> moved its recovery id to 27 or
  28; both verification functions accept it.
\<close>

theorem sign_recovers:
  assumes "ecdsa_ok E" "account_ok E" "length h = 32"
  shows "\<exists>sg a b sg'. sign E k h = Inr sg \<and> signature_ok sg \<and>
    signer_address E k = Inr a \<and> length a = 20 \<and> recover_address E h sg = Inr a \<and>
    sig_to_canonical_bytes sg = Inr b \<and> sig_from_bytes b = Inr sg' \<and> recover_address E h sg' = Inr a \<and>
    signer_verify_signature E k h sg = Inr True \<and> hash_verify_signature E h sg (BBytes a) = Inr True"
proof -
  obtain sg where sg: "sign E k h = Inr sg" "signature_ok sg" "recover_address E h sg = signer_address E k"
    "recover_address E h (sig_canonical sg) = signer_address E k" by (rule sign_ok [OF assms(1,3)])
  obtain a where a: "signer_address E k = Inr a" "length a = 20"
    using signer_address_ok [OF assms(2)] by blast
  obtain b where b: "sig_to_canonical_bytes sg = Inr b" "sig_from_bytes b = Inr (sig_canonical sg)"
    using sig_canonical_ok [OF sg(2)] sig65.enc_total sig65.dec_enc by (metis sig_canonical_bytes)
  show ?thesis
    using sg a b by (intro exI [of _ sg] exI [of _ a] exI [of _ b] exI [of _ "sig_canonical sg"])
      (simp add: signer_verify_signature_def hash_verify_signature_def)
qed

theorem sign_recovers_witness:
  "\<exists>sg a. sign ref_ext \<lparr>account = 7\<rparr> (replicate 32 1) = Inr sg \<and>
     recover_address ref_ext (replicate 32 1) sg = Inr a \<and>
     hash_verify_signature ref_ext (replicate 32 1) sg (BBytes a) = Inr True"
  using sign_recovers [OF ref_ecdsa_ok ref_account_ok length_replicate] by blast

text \<open>
  C15. Recovery refuses exactly the values a \<open>Signature\<close> cannot hold, high-s (malleable) ones
  among them, with a \<open>ValueError\<close>, whatever the recovery code would say; on any other value its
  result is that of \<open>_recover_hash\<close> on the 65-byte form.
\<close>

theorem recover_address_guards:
  "recover_address E h sg =
     (if signature_ok sg then bindE (sig_to_bytes sg) (\<lambda>b. bindE (recover_hash E h b) (to_bytes_hexstr E))
      else if sig_r sg \<notin> {0 <..< SECP256K1_N} then Inl (ValueError ''r out of range'')
      else if sig_s sg \<notin> {0 <.. SECP256K1_HALF_N}
      then Inl (ValueError ''s out of range (expected low-s)'')
      else Inl (ValueError ''v must be 0, 1, 27, or 28''))"
proof (cases "signature_ok sg")
  case True
  then show ?thesis by (simp add: recover_address_valid)
next
  case False
  then show ?thesis by (auto simp: recover_address_def signature_ok_def)
qed

end
