(* ===== verification/Payloads.thy ===== *)
theory Payloads
  imports Samples
begin

text \<open>
  What the three payloads of \<open>tempo/transaction.py\<close> commit to. The sender's payload
  (\<open>serialize_for_signing\<close>) determines every field it is meant to bind and ignores the rest;
  the fee payer's payload binds the fee token and the sender's address; the broadcast form
  determines the transaction. All of it holds for any RLP encoder that \<open>rlp.decode\<close> inverts.
\<close>

section \<open>Shared facts\<close>

text \<open>A fee payer is involved: the condition \<open>serialize_for_signing\<close> skips the fee token on.\<close>

definition sponsored :: "tempo_tx \<Rightarrow> bool" where
  "sponsored t \<longleftrightarrow> awaiting_fee_payer t \<or> fee_payer_signature t \<noteq> None"

lemma sponsored_view: "sponsored t \<longleftrightarrow> fee_payer_view t \<noteq> FpAbsent"
  by (simp add: sponsored_def fee_payer_view_def split: option.splits)

lemma serialize_for_signing_Inr_conv:
  "serialize_for_signing E t = Inr p \<longleftrightarrow>
     ints_ok t \<and>
     (\<exists>b. rlp_encode E (RList (core_fields t (sponsored t) @ key_auth_fields t)) = Inr b \<and>
          p = ''0x76'' @ bytes_hex b)"
  by (auto simp: serialize_for_signing_def bindE_Inr_conv build_rlp_fields_drop sponsored_def)

lemma serialize_for_fee_payer_signing_Inr_conv:
  "serialize_for_fee_payer_signing E t s = Inr p \<longleftrightarrow>
     ints_ok t \<and>
     (\<exists>a b. as_address E s = Inr a \<and>
        rlp_encode E (RList ((core_fields t False)[11 := RBytes a] @ key_auth_fields t)) = Inr b \<and>
        p = ''0x78'' @ bytes_hex b)"
  by (auto simp: serialize_for_fee_payer_signing_def bindE_Inr_conv build_rlp_fields_drop
      list_update_append)

lemma prefix_hex: "x @ bytes_hex b = x @ bytes_hex c \<longleftrightarrow> b = c"
  by (simp add: bytes_hex_inj)

lemma core_split:
  assumes "length cs = 13" "length ds = 13" "cs @ xs = ds @ ys"
  shows "cs = ds \<and> xs = ys"
  using assms by simp

lemma rlp_fields_determine:
  assumes "rlp_faithful E" "length cs = 13" "length ds = 13"
    and "rlp_encode E (RList (cs @ xs)) = Inr b" "rlp_encode E (RList (ds @ ys)) = Inr b"
  shows "map rlp_norm cs = map rlp_norm ds \<and> map rlp_norm xs = map rlp_norm ys"
  using rlp_faithfulD [OF assms(1,4,5)] assms(2,3) by simp

text \<open>The prefix and the encoding as one byte string.\<close>

lemma prefixed_hex:
  "''0x76'' @ bytes_hex b = ''0x'' @ bytes_hex (0x76 # b)"
  "''0x78'' @ bytes_hex b = ''0x'' @ bytes_hex (0x78 # b)"
  by (simp_all add: hex_digit_def hex_chars_def)

lemma compute_hash_prefixed:
  assumes "hexstr_ok E"
  shows "compute_hash E (''0x76'' @ bytes_hex b) = Inr (keccak256 E (0x76 # b))"
    and "compute_hash E (''0x78'' @ bytes_hex b) = Inr (keccak256 E (0x78 # b))"
  using assms unfolding prefixed_hex hexstr_ok_def compute_hash_def
  by (simp_all del: bytes_hex.simps)

section \<open>The sender's payload\<close>

lemma signing_payload_determines:
  assumes "rlp_faithful E" "tx_wf t" "tx_wf u"
    and "serialize_for_signing E t = Inr p" "serialize_for_signing E u = Inr p"
  shows "tx_view_of t (sponsored t) = tx_view_of u (sponsored u)"
proof -
  from assms(4,5) obtain b where ints: "ints_ok t" "ints_ok u"
    and enc: "rlp_encode E (RList (core_fields t (sponsored t) @ key_auth_fields t)) = Inr b"
      "rlp_encode E (RList (core_fields u (sponsored u) @ key_auth_fields u)) = Inr b"
    by (auto simp: serialize_for_signing_Inr_conv bytes_hex_inj)
  show ?thesis
    by (rule core_fields_determine [OF assms(2,3) ints])
       (use rlp_fields_determine [OF assms(1) _ _ enc] in simp_all)
qed

lemma signing_payload_cong:
  assumes "tx_view_of t (sponsored t) = tx_view_of u (sponsored u)"
  shows "sponsored t = sponsored u"
  using assms by (simp add: sponsored_view tx_view_of_def)

text \<open>
  C1. The sender's payload commits to the transaction: two well-formed transactions with the same
  payload agree on the chain, the fees, the gas, every call, the access list, both nonces, the
  validity window, the key authorization and the state of the fee payer field, and, when no fee
  payer is involved, on the fee token.
\<close>

theorem sign_payload_commits:
  assumes "rlp_faithful E" "tx_wf t" "tx_wf u"
    and "serialize_for_signing E t = Inr p" "serialize_for_signing E u = Inr p"
  shows "tx_view_of t (sponsored t) = tx_view_of u (sponsored u) \<and> sponsored t = sponsored u"
  using signing_payload_determines [OF assms] signing_payload_cong by blast

lemma demo_serialize:
  "\<exists>p. serialize_for_signing ref_ext demo_tx = Inr p \<and>
     serialize_for_signing ref_ext demo_signed = Inr p"
  by (simp add: serialize_for_signing_Inr_conv demo_defs fields_eval rlp_eval sponsored_def)

theorem sign_payload_commits_witness:
  "tx_view_of demo_tx (sponsored demo_tx) = tx_view_of demo_signed (sponsored demo_signed)"
proof -
  obtain p where "serialize_for_signing ref_ext demo_tx = Inr p"
    "serialize_for_signing ref_ext demo_signed = Inr p" using demo_serialize by blast
  from sign_payload_commits [OF ref_rlp_faithful demo_wf(1,2) this] show ?thesis by blast
qed

lemma sign_payload_frame:
  "serialize_for_signing E
     (t\<lparr>sender_signature := sg, sender_address := a, tempo_authorization_list := l,
        fee_token := (if sponsored t then tok else fee_token t)\<rparr>)
   = serialize_for_signing E t"
  by (simp add: serialize_for_signing_def build_rlp_fields_def Let_def sponsored_def
      encode_fee_token_def encode_fee_payer_field_def split: option.splits)

text \<open>
  The sender's payload depends on nothing it should not: not on the sender's own signature
  and cached address, not on the reserved authorization list, and, once a fee payer is involved,
  not on the fee token, which is then the fee payer's to choose.
\<close>

lemma sign_payload_ignores:
  "serialize_for_signing E
     (t\<lparr>sender_signature := sg, sender_address := a, tempo_authorization_list := l,
        fee_token := (if sponsored t then tok else fee_token t)\<rparr>)
   = serialize_for_signing E t"
  by (rule sign_payload_frame)

section \<open>The fee payer's payload\<close>

lemma norm_update_nth:
  assumes "map rlp_norm (xs[k := x]) = map rlp_norm (ys[k := y])" "length xs = length ys"
  shows "k < length xs \<Longrightarrow> rlp_norm x = rlp_norm y"
    and "i < length xs \<Longrightarrow> i \<noteq> k \<Longrightarrow> rlp_norm (xs ! i) = rlp_norm (ys ! i)"
proof -
  have nth: "map rlp_norm (xs[k := x]) ! i = map rlp_norm (ys[k := y]) ! i" for i
    using assms(1) by simp
  show "k < length xs \<Longrightarrow> rlp_norm x = rlp_norm y"
    using nth [of k] assms(2) by simp
  show "i < length xs \<Longrightarrow> i \<noteq> k \<Longrightarrow> rlp_norm (xs ! i) = rlp_norm (ys ! i)"
    using nth [of i] assms(2) by simp
qed

text \<open>
  C6. The fee payer's payload commits to the fee token it pays in and to the sender it pays for:
  equal payloads mean equal fee tokens, equal sender addresses, and equal calls, fees, nonces,
  validity window and key authorization.
\<close>

theorem fee_payer_payload_commits:
  assumes "rlp_faithful E" "tx_wf t" "tx_wf u"
    and "serialize_for_fee_payer_signing E t s = Inr p" "serialize_for_fee_payer_signing E u r = Inr p"
  shows "fee_token t = fee_token u \<and> as_address E s = as_address E r \<and> base_view t = base_view u \<and>
    map_option rlp_norm (key_authorization t) = map_option rlp_norm (key_authorization u)"
proof -
  from assms(4,5) obtain a c b where ints: "ints_ok t" "ints_ok u"
    and ad: "as_address E s = Inr a" "as_address E r = Inr c"
    and enc: "rlp_encode E (RList ((core_fields t False)[11 := RBytes a] @ key_auth_fields t)) = Inr b"
      "rlp_encode E (RList ((core_fields u False)[11 := RBytes c] @ key_auth_fields u)) = Inr b"
    by (auto simp: serialize_for_fee_payer_signing_Inr_conv bytes_hex_inj)
  from rlp_fields_determine [OF assms(1) _ _ enc]
  have core: "map rlp_norm ((core_fields t False)[11 := RBytes a]) =
      map rlp_norm ((core_fields u False)[11 := RBytes c])"
    and ka: "map rlp_norm (key_auth_fields t) = map rlp_norm (key_auth_fields u)" by simp_all
  note nth = norm_update_nth(2) [OF core, simplified]
  have "base_view t = base_view u"
    by (rule base_fields_determine [OF assms(2,3) ints]) (rule nth, simp_all)
  moreover have "fee_token t = fee_token u"
    using fee_token_determines [of t u False False] tx_wf_parts [OF assms(2)] tx_wf_parts [OF assms(3)]
      nth [of 10] unfolding core_fields_nth by simp
  moreover have "a = c" using norm_update_nth(1) [OF core] by simp
  ultimately show ?thesis using ad ka by (auto simp: key_auth_fields_def split: option.splits)
qed

lemma demo_fee_payer_serialize:
  "\<exists>p. serialize_for_fee_payer_signing ref_ext demo_tx (BBytes (replicate 20 0x22)) = Inr p \<and>
     serialize_for_fee_payer_signing ref_ext demo_signed (BBytearray (replicate 20 0x22)) = Inr p"
  by (simp add: serialize_for_fee_payer_signing_Inr_conv as_address_def demo_defs fields_eval rlp_eval)

theorem fee_payer_payload_commits_witness:
  "fee_token demo_tx = fee_token demo_signed \<and>
   as_address ref_ext (BBytes (replicate 20 0x22)) = as_address ref_ext (BBytearray (replicate 20 0x22))"
  using demo_fee_payer_serialize
    fee_payer_payload_commits [OF ref_rlp_faithful demo_wf(1,2)] by blast

lemma fee_payer_payload_frame_all:
  "serialize_for_fee_payer_signing E
     (t\<lparr>sender_signature := sg, fee_payer_signature := fp, awaiting_fee_payer := w, sender_address := a\<rparr>) s
   = serialize_for_fee_payer_signing E t s"
  by (cases "key_authorization t"; cases "fee_token t")
     (simp_all add: serialize_for_fee_payer_signing_def build_rlp_fields_def bindE_assoc
        encode_fee_token_def)

text \<open>
  The fee payer's payload strips both signatures: neither of them, nor the awaiting flag, nor
  the cached sender address has any influence on it.
\<close>

lemma fee_payer_payload_strips_signatures:
  "serialize_for_fee_payer_signing E
     (t\<lparr>sender_signature := sg, fee_payer_signature := fp, awaiting_fee_payer := w, sender_address := a\<rparr>) s
   = serialize_for_fee_payer_signing E t s"
  by (rule fee_payer_payload_frame_all)

section \<open>Domain separation\<close>

lemma get_sign_payload_Inr:
  assumes "hexstr_ok E" "get_sign_payload E t = Inr h"
  obtains b where "ints_ok t"
    "rlp_encode E (RList (core_fields t (sponsored t) @ key_auth_fields t)) = Inr b"
    "h = keccak256 E (0x76 # b)"
  using assms by (auto simp: get_sign_payload_def bindE_Inr_conv serialize_for_signing_Inr_conv
      compute_hash_prefixed [simplified])

lemma get_fee_payer_sign_payload_Inr:
  assumes "hexstr_ok E" "get_fee_payer_sign_payload E t s = Inr h"
  obtains a b where "ints_ok t" "as_address E s = Inr a"
    "rlp_encode E (RList ((core_fields t False)[11 := RBytes a] @ key_auth_fields t)) = Inr b"
    "h = keccak256 E (0x78 # b)"
  using assms by (auto simp: get_fee_payer_sign_payload_def bindE_Inr_conv
      serialize_for_fee_payer_signing_Inr_conv compute_hash_prefixed [simplified])

lemma payload_hashes:
  assumes "hexstr_ok E"
  shows "serialize_for_signing E t = Inr p \<Longrightarrow> \<exists>h. get_sign_payload E t = Inr h"
    and "serialize_for_fee_payer_signing E t s = Inr p \<Longrightarrow> \<exists>h. get_fee_payer_sign_payload E t s = Inr h"
proof -
  assume p: "serialize_for_signing E t = Inr p"
  then obtain b where "p = ''0x76'' @ bytes_hex b" unfolding serialize_for_signing_Inr_conv by blast
  with p show "\<exists>h. get_sign_payload E t = Inr h"
    using compute_hash_prefixed(1) [OF assms, of b] by (simp add: get_sign_payload_def)
next
  assume p: "serialize_for_fee_payer_signing E t s = Inr p"
  then obtain b where "p = ''0x78'' @ bytes_hex b"
    unfolding serialize_for_fee_payer_signing_Inr_conv by blast
  with p show "\<exists>h. get_fee_payer_sign_payload E t s = Inr h"
    using compute_hash_prefixed(2) [OF assms, of b] by (simp add: get_fee_payer_sign_payload_def)
qed

text \<open>
  C11. The two roles sign in separate domains: what the sender signs is the hash of \<open>0x76\<close> followed
  by the encoded field list, what the fee payer signs the hash of \<open>0x78\<close> followed by the field list
  with the sender's address in field 11; no byte string is a preimage of both kinds.
\<close>

theorem payload_domains_separate:
  assumes "hexstr_ok E" "get_sign_payload E t = Inr h" "get_fee_payer_sign_payload E u s = Inr g"
  shows "\<exists>b c a. h = keccak256 E (0x76 # b) \<and> g = keccak256 E (0x78 # c) \<and> 0x76 # b \<noteq> 0x78 # c \<and>
    build_rlp_fields t (sponsored t) True = Inr (core_fields t (sponsored t) @ key_auth_fields t) \<and>
    rlp_encode E (RList (core_fields t (sponsored t) @ key_auth_fields t)) = Inr b \<and>
    as_address E s = Inr a \<and>
    rlp_encode E (RList ((core_fields u False @ key_auth_fields u)[11 := RBytes a])) = Inr c"
proof -
  obtain b where b: "ints_ok t"
    "rlp_encode E (RList (core_fields t (sponsored t) @ key_auth_fields t)) = Inr b"
    "h = keccak256 E (0x76 # b)" by (rule get_sign_payload_Inr [OF assms(1,2)])
  obtain a c where c: "as_address E s = Inr a"
    "rlp_encode E (RList ((core_fields u False)[11 := RBytes a] @ key_auth_fields u)) = Inr c"
    "g = keccak256 E (0x78 # c)" by (rule get_fee_payer_sign_payload_Inr [OF assms(1,3)])
  have "0x76 # b \<noteq> (0x78 :: byte) # c" by simp
  with b c show ?thesis by (auto simp: build_rlp_fields_drop list_update_append)
qed

lemma demo_payloads:
  "\<exists>h g. get_sign_payload ref_ext demo_tx = Inr h \<and>
     get_fee_payer_sign_payload ref_ext demo_tx (BBytes (replicate 20 0x22)) = Inr g"
  using demo_serialize demo_fee_payer_serialize payload_hashes [OF ref_hexstr_ok] by blast

theorem payload_domains_separate_witness:
  "\<exists>h g b c. get_sign_payload ref_ext demo_tx = Inr h \<and>
     get_fee_payer_sign_payload ref_ext demo_tx (BBytes (replicate 20 0x22)) = Inr g \<and>
     h = keccak256 ref_ext (0x76 # b) \<and> g = keccak256 ref_ext (0x78 # c)"
  using demo_payloads payload_domains_separate [OF ref_hexstr_ok] by blast

section \<open>The broadcast form\<close>

text \<open>A key authorization is a list; the sender signature is what a constructor returned.\<close>

definition sender_ok :: "tempo_tx \<Rightarrow> bool" where
  "sender_ok t \<longleftrightarrow>
     (case sender_signature t of None \<Rightarrow> True | Some (SecpSig sg) \<Rightarrow> signature_ok sg
      | Some (KeychainSig ks) \<Rightarrow> keychain_ok ks)"

definition key_auth_ok :: "tempo_tx \<Rightarrow> bool" where
  "key_auth_ok t \<longleftrightarrow>
     (case key_authorization t of None \<Rightarrow> True | Some (RList xs) \<Rightarrow> True | _ \<Rightarrow> False)"

lemma envelope_fields_total:
  "sender_ok t \<Longrightarrow> \<exists>es. envelope_fields t = Inr es"
  using encode_signature_total [of "sender_signature t"]
  by (auto simp: sender_ok_def envelope_fields_def split: option.splits sender_sig.splits)

lemma tail_determines:
  assumes "key_auth_ok t" "key_auth_ok u"
    and "envelope_fields t = Inr es" "envelope_fields u = Inr fs"
    and "map rlp_norm (key_auth_fields t @ es) = map rlp_norm (key_auth_fields u @ fs)"
  shows "map rlp_norm (key_auth_fields t) = map rlp_norm (key_auth_fields u) \<and>
    map rlp_norm es = map rlp_norm fs"
  using assms
  by (auto simp: key_auth_ok_def key_auth_fields_def envelope_fields_def bindE_Inr_conv
      split: option.splits rlp.splits if_splits)

text \<open>
  C3. The broadcast form determines the transaction: two well-formed transactions that serialize
  to the same string agree on every field, on the fee payer's signature and on the encoded sender
  signature. In particular a signed and an unsigned transaction never serialize alike, although
  the optional key authorization and the signature envelope share a position.
\<close>

theorem serialize_determines:
  assumes "rlp_faithful E" "tx_wf t" "tx_wf u" "key_auth_ok t" "key_auth_ok u"
    and "serialize E t = Inr p" "serialize E u = Inr p"
  shows "tx_view_of t False = tx_view_of u False \<and>
    (sender_signature t = None \<longleftrightarrow> sender_signature u = None) \<and>
    encode_signature (sender_signature t) = encode_signature (sender_signature u)"
proof -
  from assms(6,7) obtain b es fs where ints: "ints_ok t" "ints_ok u"
    and env: "envelope_fields t = Inr es" "envelope_fields u = Inr fs"
    and enc: "rlp_encode E (RList (core_fields t False @ key_auth_fields t @ es)) = Inr b"
      "rlp_encode E (RList (core_fields u False @ key_auth_fields u @ fs)) = Inr b"
    by (auto simp: serialize_def bindE_Inr_conv build_rlp_fields_eq bytes_hex_inj)
  from rlp_fields_determine [OF assms(1) _ _ enc]
  have core: "map rlp_norm (core_fields t False) = map rlp_norm (core_fields u False)"
    and tl: "map rlp_norm (key_auth_fields t @ es) = map rlp_norm (key_auth_fields u @ fs)"
    by simp_all
  note tail = tail_determines [OF assms(4,5) env tl]
  have "tx_view_of t False = tx_view_of u False"
    by (rule core_fields_determine [OF assms(2,3) ints core]) (use tail in blast)
  moreover have "(sender_signature t = None \<longleftrightarrow> sender_signature u = None) \<and>
      encode_signature (sender_signature t) = encode_signature (sender_signature u)"
    using tail env by (auto simp: envelope_fields_def bindE_Inr_conv split: if_splits)
  ultimately show ?thesis by blast
qed

definition demo_signed_v0 :: tempo_tx where
  "demo_signed_v0 = demo_signed\<lparr>valid_before := Some 0, sender_address := None\<rparr>"

lemma demo_broadcast:
  "\<exists>p. serialize ref_ext demo_signed = Inr p \<and> serialize ref_ext demo_signed_v0 = Inr p"
proof -
  have "sig_to_bytes demo_sig = Inr (nat_to_be 32 5 @ nat_to_be 32 6 @ [27])"
    using sig_to_bytes_layout [OF demo_sig_ok] by (simp add: demo_sig_def)
  then show ?thesis
    by (simp add: serialize_def bindE_Inr_conv build_rlp_fields_eq demo_signed_v0_def demo_defs
        fields_eval rlp_eval)
qed

theorem serialize_determines_witness:
  "tx_view_of demo_signed False = tx_view_of demo_signed_v0 False"
proof -
  have ok: "tx_wf demo_signed_v0" "key_auth_ok demo_signed" "key_auth_ok demo_signed_v0"
    by (simp_all add: demo_signed_v0_def demo_defs tx_wf_def tx_ok_def tx_addresses_ok_def
        fee_payer_ok_def call_ok_def key_auth_ok_def)
  show ?thesis
    using demo_broadcast serialize_determines [OF ref_rlp_faithful demo_wf(2) ok] by blast
qed

section \<open>The field list\<close>

lemma be_to_nat_leading:
  assumes "b \<noteq> []" "hd b \<noteq> 0"
  shows "256 ^ (length b - 1) \<le> be_to_nat b"
proof -
  obtain c cs where b: "b = c # cs" using assms(1) by (cases b) auto
  with assms(2) have "1 \<le> unat c" by (simp add: unat_gt_0 Suc_le_eq)
  then have "1 * 256 ^ length cs \<le> unat c * 256 ^ length cs" by (rule mult_le_mono1)
  then have "256 ^ length cs \<le> unat c * 256 ^ length cs + be_to_nat cs" by linarith
  with b show ?thesis by (simp only: be_to_nat_Cons length_Cons diff_Suc_1)
qed

lemma min_be_unique:
  assumes "b = [] \<or> hd b \<noteq> 0"
  shows "min_be (be_to_nat b) = b"
proof (cases "b = []")
  case False
  with assms have low: "256 ^ (length b - 1) \<le> be_to_nat b"
    by (intro be_to_nat_leading) blast+
  have "length (min_be (be_to_nat b)) \<le> length b"
    by (rule length_min_be_le) (rule be_to_nat_less)
  moreover have "be_to_nat b < 256 ^ length (min_be (be_to_nat b))"
    using be_to_nat_less [of "min_be (be_to_nat b)"] by simp
  with low have "(256 :: nat) ^ (length b - 1) < 256 ^ length (min_be (be_to_nat b))" by linarith
  then have "length b - 1 < length (min_be (be_to_nat b))"
    by (rule power_less_imp_less_exp [rotated]) simp
  ultimately have "length (min_be (be_to_nat b)) = length b" using False by (cases b) auto
  then have "min_be (be_to_nat b) = nat_to_be (length b) (be_to_nat b)"
    by (metis be_to_nat_min_be nat_to_be_be_to_nat)
  then show ?thesis by (simp add: nat_to_be_be_to_nat)
qed simp

text \<open>
  C22. Integers go on the wire in RLP's canonical form: the bytes of \<open>n\<close> are the only big-endian
  spelling of \<open>n\<close> without a leading zero (none at all for zero), and a negative integer is the
  only one refused.
\<close>

theorem int_to_rlp_bytes_canonical:
  "(int_to_rlp_bytes n = Inr b \<longleftrightarrow> int_from_bytes b = n \<and> take 1 b \<noteq> [0]) \<and>
   (n < 0 \<longleftrightarrow> int_to_rlp_bytes n = Inl (OverflowError ''can't convert negative int to unsigned''))"
proof -
  have "b = min_be (nat n) \<longleftrightarrow> int_from_bytes b = n \<and> (b = [] \<or> hd b \<noteq> 0)" if "0 \<le> n"
    using that hd_min_be [of "nat n"] min_be_unique [of b]
    by (cases "nat n = 0") (auto simp: int_from_bytes_def)
  moreover have "int_from_bytes b \<noteq> n" if "n < 0" using that int_from_bytes_nonneg [of b] by linarith
  moreover have "b = [] \<or> hd b \<noteq> 0 \<longleftrightarrow> take 1 b \<noteq> [0]" by (cases b) auto
  ultimately show ?thesis
    by (cases "n < 0") (auto simp: int_to_rlp_bytes_eq)
qed



text \<open>
  The serializer and the models agree on calls and access lists: its own encoding of a list of
  constructed calls succeeds and puts the bytes of \<open>Call.as_rlp_list\<close> on the wire, and likewise
  for access list items.
\<close>

lemma encode_calls_agrees:
  assumes "list_all call_ok cs"
  shows "(\<exists>x. encode_calls cs = Inr x \<and> rlp_norm x = rlp_norm (RList (map call_as_rlp_list cs))) \<and>
    encode_access_list (map AccessItem items) = RList (map access_list_item_as_rlp_list items)"
proof -
  have "list_all (\<lambda>c. 0 \<le> call_value c) cs" using assms by (simp add: list_all_iff call_ok_def)
  then obtain x where "encode_calls cs = Inr x" by (simp add: encode_calls_Inr_conv)
  then show ?thesis
    by (simp add: encode_calls_wire encode_access_list_def access_list_item_as_rlp_list_def)
qed

section \<open>A sponsor's signature changes the sender's payload\<close>

text \<open>
  C24. Field 11 is not stripped from the sender's payload: once the fee payer's signature is
  attached, the payload the sender signed, with the \<open>0x00\<close> marker there, is no longer the payload
  \<open>serialize_for_signing\<close> gives, so its docstring (all signatures are removed) does not hold of it
  and the sender cannot be recovered from the sponsored transaction.
\<close>

theorem sponsor_changes_sign_payload:
  assumes "rlp_faithful E" "tx_wf t" "fee_payer_signature t = None" "signature_ok s"
    and "serialize_for_signing E t = Inr p"
    and "serialize_for_signing E (t\<lparr>fee_payer_signature := Some s\<rparr>) = Inr q"
  shows "p \<noteq> q"
proof
  assume eq: "p = q"
  let ?u = "t\<lparr>fee_payer_signature := Some s\<rparr>"
  have "tx_wf ?u" using assms(2,4) by (simp add: tx_wf_def tx_ok_def tx_addresses_ok_def fee_payer_ok_def)
  from signing_payload_determines [OF assms(1,2) this assms(5) assms(6) [folded eq]]
  have "fee_payer_view t = fee_payer_view ?u" by (simp add: tx_view_of_def)
  then show False using assms(3) by (simp add: fee_payer_view_def split: if_splits)
qed

lemma demo_sponsored_serialize:
  "\<exists>p q. serialize_for_signing ref_ext demo_awaiting = Inr p \<and>
     serialize_for_signing ref_ext (demo_awaiting\<lparr>fee_payer_signature := Some demo_sig\<rparr>) = Inr q"
  by (simp add: serialize_for_signing_Inr_conv demo_defs fields_eval rlp_eval sponsored_def)

theorem sponsor_changes_sign_payload_witness:
  "serialize_for_signing ref_ext demo_awaiting \<noteq>
   serialize_for_signing ref_ext (demo_awaiting\<lparr>fee_payer_signature := Some demo_sig\<rparr>)"
proof -
  have "fee_payer_signature demo_awaiting = None" by (simp add: demo_defs)
  from sponsor_changes_sign_payload [OF ref_rlp_faithful demo_wf(3) this demo_sig_ok]
    demo_sponsored_serialize show ?thesis by (metis sum.inject(2))
qed

end
