(* ===== verification/Signing.thy ===== *)
theory Signing
  imports Signer Payloads
begin

text \<open>
  Signing and verification of transactions, from \<open>tempo/transaction.py\<close>: the sender's and the fee
  payer's signature are attached to a copy of the transaction, and recovered from the payloads of
  \<open>Serialize\<close>.
\<close>

section \<open>The definitions\<close>

definition sign_transaction :: "ext \<Rightarrow> tempo_tx \<Rightarrow> signer \<Rightarrow> tempo_tx result" where
  "sign_transaction E t k =
     bindE (get_sign_payload E t) (\<lambda>hash_to_sign.
     bindE (sign E k hash_to_sign) (\<lambda>sg.
     bindE (signer_address E k) (\<lambda>a.
       replace_fields E t (Some (SecpSig sg)) None (Some (BBytes a)) None [])))"

text \<open>\<open>tx.sender_address\<close> as an argument: \<open>None\<close> is a value that is neither text nor bytes.\<close>

definition sender_arg :: "bytes option \<Rightarrow> bytes_like" where
  "sender_arg a = (case a of None \<Rightarrow> BOther ''NoneType'' | Some b \<Rightarrow> BBytes b)"

definition add_fee_payer_signature :: "ext \<Rightarrow> tempo_tx \<Rightarrow> signer \<Rightarrow> tempo_tx result" where
  "add_fee_payer_signature E t fee_payer =
     (if sender_signature t = None
      then Inl (ValueError
        ''transaction must have sender signature before adding fee payer signature'')
      else
        bindE (get_fee_payer_sign_payload E t (sender_arg (sender_address t))) (\<lambda>hash_to_sign.
        bindE (sign E fee_payer hash_to_sign) (\<lambda>sg.
          replace_fields E t None (Some sg) None None [])))"

definition tx_verify_signature :: "ext \<Rightarrow> tempo_tx \<Rightarrow> bytes result" where
  "tx_verify_signature E t =
     (case sender_signature t of
        None \<Rightarrow> Inl (ValueError ''transaction has no sender signature'')
      | Some sg \<Rightarrow>
          bindE (get_sign_payload E t) (\<lambda>hash_signed.
            case sg of
              KeychainSig ks \<Rightarrow>
                bindE (kc_signing_hash E hash_signed (BBytes (kc_user_address ks))) (\<lambda>h.
                bindE (kc_inner_signature ks) (\<lambda>inner.
                bindE (recover_address E h inner) (\<lambda>_.
                  Inr (kc_user_address ks))))
            | SecpSig s \<Rightarrow> recover_address E hash_signed s))"

definition verify_fee_payer_signature :: "ext \<Rightarrow> tempo_tx \<Rightarrow> bytes_like \<Rightarrow> bytes result" where
  "verify_fee_payer_signature E t sender =
     (case fee_payer_signature t of
        None \<Rightarrow> Inl (ValueError ''transaction has no fee payer signature'')
      | Some sg \<Rightarrow>
          bindE (get_fee_payer_sign_payload E t sender) (\<lambda>hash_signed.
            recover_address E hash_signed sg))"

section \<open>The sender\<close>

lemma get_sign_payload_32: "keccak_ok E \<Longrightarrow> get_sign_payload E t = Inr h \<Longrightarrow> length h = 32"
  by (auto simp: get_sign_payload_def compute_hash_def bindE_Inr_conv keccak_ok_def)

lemma get_fee_payer_sign_payload_32:
  "keccak_ok E \<Longrightarrow> get_fee_payer_sign_payload E t s = Inr h \<Longrightarrow> length h = 32"
  by (auto simp: get_fee_payer_sign_payload_def compute_hash_def bindE_Inr_conv keccak_ok_def)

text \<open>The signature fields do not enter the payload of the sender.\<close>

lemma get_sign_payload_signed:
  "get_sign_payload E (t\<lparr>sender_signature := sg, sender_address := a\<rparr>) = get_sign_payload E t"
  using sign_payload_frame [where E = E and t = t and sg = sg and a = a and tok = "fee_token t"
      and l = "tempo_authorization_list t"]
  by (simp add: get_sign_payload_def)

lemma get_fee_payer_sign_payload_signed:
  "get_fee_payer_sign_payload E (t\<lparr>fee_payer_signature := fp\<rparr>) s = get_fee_payer_sign_payload E t s"
  using fee_payer_payload_frame_all [where E = E and t = t and fp = fp and s = s
      and sg = "sender_signature t" and w = "awaiting_fee_payer t" and a = "sender_address t"]
  by (simp add: get_fee_payer_sign_payload_def)

lemma sign_transaction_ok:
  assumes "ecdsa_ok E" "account_ok E" "keccak_ok E" "tx_addresses_ok t" "get_sign_payload E t = Inr h"
  obtains sg a where "signer_address E k = Inr a" "length a = 20" "signature_ok sg"
    "recover_address E h sg = Inr a"
    "sign_transaction E t k = Inr (t\<lparr>sender_signature := Some (SecpSig sg), sender_address := Some a\<rparr>)"
proof -
  obtain sg where sg: "sign E k h = Inr sg" "signature_ok sg" "recover_address E h sg = signer_address E k"
    using sign_ok [OF assms(1) get_sign_payload_32 [OF assms(3,5)]] by metis
  obtain a where a: "signer_address E k = Inr a" "length a = 20"
    using signer_address_ok [OF assms(2)] by blast
  have "sign_transaction E t k = Inr (t\<lparr>sender_signature := Some (SecpSig sg), sender_address := Some a\<rparr>)"
    using assms(4,5) sg(1) a by (simp add: sign_transaction_def replace_sender)
  with sg a that show thesis by simp
qed

text \<open>
  C2. Signing then verifying: whenever the transaction has a payload, \<open>sign_transaction\<close> returns a
  copy that differs only in the sender's signature and address, and \<open>verify_signature\<close> on it
  returns the signer's address, which is also the one recorded.
\<close>

theorem sign_transaction_verifies:
  assumes "ecdsa_ok E" "account_ok E" "keccak_ok E" "tx_addresses_ok t" "get_sign_payload E t = Inr h"
  shows "\<exists>t' sg a. sign_transaction E t k = Inr t' \<and> signer_address E k = Inr a \<and>
    tx_verify_signature E t' = Inr a \<and> signature_ok sg \<and> length a = 20 \<and>
    t' = t\<lparr>sender_signature := Some (SecpSig sg), sender_address := Some a\<rparr>"
proof -
  obtain sg a where "signer_address E k = Inr a" "length a = 20" "signature_ok sg"
    "recover_address E h sg = Inr a"
    "sign_transaction E t k = Inr (t\<lparr>sender_signature := Some (SecpSig sg), sender_address := Some a\<rparr>)"
    by (rule sign_transaction_ok [OF assms, where k = k])
  with assms(5) show ?thesis
    by (intro exI [of _ "t\<lparr>sender_signature := Some (SecpSig sg), sender_address := Some a\<rparr>"]
        exI [of _ sg] exI [of _ a]) (simp add: tx_verify_signature_def get_sign_payload_signed)
qed

theorem sign_transaction_verifies_witness:
  "\<exists>t' a. sign_transaction ref_ext demo_tx \<lparr>account = 7\<rparr> = Inr t' \<and>
     signer_address ref_ext \<lparr>account = 7\<rparr> = Inr a \<and> tx_verify_signature ref_ext t' = Inr a"
proof -
  obtain h where h: "get_sign_payload ref_ext demo_tx = Inr h" using demo_payloads by blast
  have "tx_addresses_ok demo_tx" using demo_wf(1) by (simp add: tx_wf_def tx_ok_def)
  from sign_transaction_verifies [OF ref_ecdsa_ok ref_account_ok ref_keccak_ok this h]
  show ?thesis by blast
qed

section \<open>The fee payer\<close>

lemma add_fee_payer_signature_ok:
  assumes "ecdsa_ok E" "account_ok E" "keccak_ok E" "tx_addresses_ok t"
    and "sender_signature t \<noteq> None"
    and h: "get_fee_payer_sign_payload E t (sender_arg (sender_address t)) = Inr h"
  obtains sg a where "signer_address E k = Inr a" "length a = 20" "signature_ok sg"
    "recover_address E h sg = Inr a"
    "add_fee_payer_signature E t k = Inr (t\<lparr>fee_payer_signature := Some sg\<rparr>)"
proof -
  obtain sg where sg: "sign E k h = Inr sg" "signature_ok sg" "recover_address E h sg = signer_address E k"
    using sign_ok [OF assms(1) get_fee_payer_sign_payload_32 [OF assms(3) h]] by metis
  obtain a where a: "signer_address E k = Inr a" "length a = 20"
    using signer_address_ok [OF assms(2)] by blast
  have "add_fee_payer_signature E t k = Inr (t\<lparr>fee_payer_signature := Some sg\<rparr>)"
    using assms(4,5) h sg(1) by (simp add: add_fee_payer_signature_def replace_fee_payer)
  with sg a that show thesis by simp
qed

text \<open>A sponsored transaction's two payloads exist together.\<close>

lemma fee_payer_verifies:
  assumes "ecdsa_ok E" "account_ok E" "keccak_ok E" "tx_addresses_ok t"
    and "sender_signature t = Some ss" "sender_address t = Some s"
    and "get_fee_payer_sign_payload E t (BBytes s) = Inr h"
  shows "\<exists>t' sg a. add_fee_payer_signature E t k = Inr t' \<and> signer_address E k = Inr a \<and>
    verify_fee_payer_signature E t' (BBytes s) = Inr a \<and> signature_ok sg \<and>
    t' = t\<lparr>fee_payer_signature := Some sg\<rparr>"
proof -
  have h: "get_fee_payer_sign_payload E t (sender_arg (sender_address t)) = Inr h"
    using assms(6,7) by (simp add: sender_arg_def)
  have "sender_signature t \<noteq> None" using assms(5) by simp
  from add_fee_payer_signature_ok [OF assms(1-4) this h, of k]
  obtain sg a where "signer_address E k = Inr a" "signature_ok sg" "recover_address E h sg = Inr a"
    "add_fee_payer_signature E t k = Inr (t\<lparr>fee_payer_signature := Some sg\<rparr>)" by metis
  with assms(7) show ?thesis
    by (intro exI [of _ "t\<lparr>fee_payer_signature := Some sg\<rparr>"] exI [of _ sg] exI [of _ a])
       (simp add: verify_fee_payer_signature_def get_fee_payer_sign_payload_signed)
qed

text \<open>
  C5. Sponsoring: on a transaction the sender \<open>k\<close> has signed, \<open>add_fee_payer_signature\<close> attaches
  the fee payer's signature and nothing else, and \<open>verify_fee_payer_signature\<close>, given the
  sender's address, returns the fee payer's address.
\<close>

theorem sponsored_transaction_verifies:
  assumes "ecdsa_ok E" "account_ok E" "keccak_ok E" "tx_addresses_ok t" "get_sign_payload E t = Inr h"
    and "\<And>a. length a = 20 \<Longrightarrow> \<exists>g. get_fee_payer_sign_payload E t (BBytes a) = Inr g"
  shows "\<exists>t1 t2 sg s a. sign_transaction E t k = Inr t1 \<and> signer_address E k = Inr s \<and>
    add_fee_payer_signature E t1 p = Inr t2 \<and> signer_address E p = Inr a \<and>
    verify_fee_payer_signature E t2 (BBytes s) = Inr a \<and> signature_ok sg \<and>
    t2 = t1\<lparr>fee_payer_signature := Some sg\<rparr>"
proof -
  obtain ss s where s: "signer_address E k = Inr s" "length s = 20" "signature_ok ss"
    "recover_address E h ss = Inr s"
    "sign_transaction E t k = Inr (t\<lparr>sender_signature := Some (SecpSig ss), sender_address := Some s\<rparr>)"
    by (rule sign_transaction_ok [OF assms(1-5), where k = k])
  let ?t1 = "t\<lparr>sender_signature := Some (SecpSig ss), sender_address := Some s\<rparr>"
  have addr: "tx_addresses_ok ?t1" using assms(4) s(2) by (simp add: tx_addresses_ok_def)
  obtain g where g: "get_fee_payer_sign_payload E t (BBytes s) = Inr g" using assms(6) [OF s(2)] by blast
  have "get_fee_payer_sign_payload E ?t1 (BBytes s) = get_fee_payer_sign_payload E t (BBytes s)"
    using fee_payer_payload_frame_all [where E = E and t = t and fp = "fee_payer_signature t"
      and s = "BBytes s" and sg = "Some (SecpSig ss)" and w = "awaiting_fee_payer t" and a = "Some s"]
    by (simp add: get_fee_payer_sign_payload_def)
  with g have "get_fee_payer_sign_payload E ?t1 (BBytes s) = Inr g" by simp
  from fee_payer_verifies [OF assms(1-3) addr _ _ this, of "SecpSig ss" p] s show ?thesis by auto
qed

theorem sponsored_transaction_verifies_witness:
  "\<exists>t1 t2 s a. sign_transaction ref_ext demo_awaiting \<lparr>account = 7\<rparr> = Inr t1 \<and>
     signer_address ref_ext \<lparr>account = 7\<rparr> = Inr s \<and>
     add_fee_payer_signature ref_ext t1 \<lparr>account = 8\<rparr> = Inr t2 \<and>
     signer_address ref_ext \<lparr>account = 8\<rparr> = Inr a \<and>
     verify_fee_payer_signature ref_ext t2 (BBytes s) = Inr a"
proof -
  obtain h where h: "get_sign_payload ref_ext demo_awaiting = Inr h"
    using demo_sponsored_serialize payload_hashes(1) [OF ref_hexstr_ok] by blast
  have "\<exists>q. serialize_for_fee_payer_signing ref_ext demo_awaiting (BBytes a) = Inr q"
    if "length a = 20" for a
    using that by (simp add: serialize_for_fee_payer_signing_Inr_conv demo_defs fields_eval rlp_eval)
  then have g: "\<exists>g. get_fee_payer_sign_payload ref_ext demo_awaiting (BBytes a) = Inr g"
    if "length a = 20" for a using that payload_hashes(2) [OF ref_hexstr_ok] by blast
  have "tx_addresses_ok demo_awaiting" using demo_wf(3) by (simp add: tx_wf_def tx_ok_def)
  from sponsored_transaction_verifies [OF ref_ecdsa_ok ref_account_ok ref_keccak_ok this h g]
  show ?thesis by blast
qed

text \<open>
  The guards of sponsoring and verifying: no fee payer signature can be added to an unsigned
  transaction, nor (a \<open>TypeError\<close>) to a signed one that does not record its sender's address,
  and a missing signature is a \<open>ValueError\<close> in both verifications.
\<close>

lemma signing_guards:
  "(sender_signature t = None \<longrightarrow>
      add_fee_payer_signature E t k = Inl (ValueError
        ''transaction must have sender signature before adding fee payer signature'') \<and>
      tx_verify_signature E t = Inl (ValueError ''transaction has no sender signature'')) \<and>
   (sender_signature t \<noteq> None \<longrightarrow> sender_address t = None \<longrightarrow> ints_ok t \<longrightarrow>
      add_fee_payer_signature E t k
        = Inl (TypeError ''expected str, bytes, bytearray, or memoryview'')) \<and>
   (fee_payer_signature t = None \<longrightarrow>
      verify_fee_payer_signature E t s = Inl (ValueError ''transaction has no fee payer signature''))"
proof -
  have "build_rlp_fields t False True = Inr (core_fields t False @ key_auth_fields t)" if "ints_ok t"
    using that by (simp add: build_rlp_fields_drop)
  then show ?thesis
    by (auto simp: add_fee_payer_signature_def tx_verify_signature_def verify_fee_payer_signature_def
        sender_arg_def get_fee_payer_sign_payload_def serialize_for_fee_payer_signing_def
        as_address_def type_error_def)
qed

end
