(* ===== verification/P256Signing.thy ===== *)
theory P256Signing
  imports P256 Samples
begin

text \<open>
  What \<open>P256Signer\<close> of \<open>tempo/p256.py\<close> promises: its signatures are canonical, verify under its
  key, also as WebAuthn assertions, and encode to the documented 130-byte form; its private key
  survives the text form.
\<close>

lemma p256_sign_ok:
  assumes "p256_ok E" "p256_signer_ok E k" "length h = 32"
  obtains sg where "p256_sign E k \<rho> (BBytes h) ph = Inr sg" "envelope_ok sg" "pre_hash sg = ph"
    "env_pub_key_x sg = key_x k" "env_pub_key_y sg = key_y k" "p256_verify E sg (BBytes h) = Inr True"
proof -
  let ?h = "if ph then sha256 h else h"
  have "length ?h = 32" using assms(3) by simp
  from p256_sign_raw_ok [OF assms(1,2) this, of \<rho>] obtain r s where
    raw: "p256_sign_raw E k \<rho> ?h = Inr (r, s)"
    and ok: "envelope_ok \<lparr>env_r = r, env_s = s, env_pub_key_x = key_x k, env_pub_key_y = key_y k\<rparr>"
    and key: "ecc_construct_xy E (int_from_bytes (key_x k)) (int_from_bytes (key_y k)) = Inr ()"
    and ver: "dss_verify E (int_from_bytes (key_x k)) (int_from_bytes (key_y k)) ?h (r @ s)" by metis
  let ?sg = "\<lparr>env_r = r, env_s = s, env_pub_key_x = key_x k, env_pub_key_y = key_y k, pre_hash = ph\<rparr>"
  have ext: "p256_envelope.extend \<lparr>env_r = r, env_s = s, env_pub_key_x = key_x k, env_pub_key_y = key_y k\<rparr>
      (p256_signature.fields ph) = ?sg"
    by (simp add: p256_envelope.extend_def p256_signature.fields_def)
  have "p256_sign E k \<rho> (BBytes h) ph = Inr ?sg"
    using assms(3) raw ok by (simp add: p256_sign_def p256_signature_init_def ext)
  moreover have "envelope_ok ?sg" using ok by (simp add: envelope_ok_def)
  moreover have "p256_verify E ?sg (BBytes h) = Inr True"
    using key ver by (simp add: p256_verify_def envelope_verify_def)
  ultimately show thesis using that by simp
qed

text \<open>
  C12. A P-256 signature over a 32-byte hash, pre-hashed or not, always comes out: in low-s form,
  carrying the signer's public key and so its address, accepted by \<open>verify\<close>, and encoded in 130
  bytes from which every field reads back.
\<close>

theorem p256_sign_verifies:
  assumes "p256_ok E" "p256_signer_init E key_hex = Inr k" "length h = 32"
  shows "\<exists>sg b. p256_sign E k \<rho> (BBytes h) ph = Inr sg \<and> envelope_ok sg \<and>
    p256_verify E sg (BBytes h) = Inr True \<and> envelope_address E sg = p256_address E k \<and>
    p256_to_bytes sg = Inr b \<and> length b = 130 \<and> p256_parse b = Inr sg"
proof -
  obtain sg where sg: "p256_sign E k \<rho> (BBytes h) ph = Inr sg" "envelope_ok sg"
    "env_pub_key_x sg = key_x k" "env_pub_key_y sg = key_y k" "p256_verify E sg (BBytes h) = Inr True"
    by (rule p256_sign_ok [OF assms(1) p256_signer_init_ok [OF assms(2)] assms(3)])
  obtain b where b: "p256_to_bytes sg = Inr b" "length b = 130" using p256_130.enc_total [OF sg(2)] by blast
  have "p256_parse b = Inr sg" by (rule p256_130.dec_enc [OF sg(2) b(1)])
  with sg b show ?thesis by (simp add: envelope_address_def p256_address_def)
qed

lemma demo_p256_key: "\<exists>k. p256_signer_init ref_ext (p256_format_key 5) = Inr k"
  by (simp add: p256_signer_init_def p256_format_key_def py_int16_hex ref_ext_sel
      int_to_bytes_def P256_N_def del: append.simps)

theorem p256_sign_verifies_witness:
  "\<exists>k sg. p256_signer_init ref_ext (p256_format_key 5) = Inr k \<and>
     p256_sign ref_ext k [] (BBytes (replicate 32 1)) True = Inr sg \<and>
     p256_verify ref_ext sg (BBytes (replicate 32 1)) = Inr True"
  using demo_p256_key p256_sign_verifies [OF ref_p256_ok _ length_replicate] by blast

section \<open>Keys as text\<close>

lemma p256_key_bounds: "p256_ok E \<Longrightarrow> p256_signer_ok E k \<Longrightarrow> 0 < key_d k \<and> key_d k < P256_N"
  unfolding p256_ok_def p256_signer_ok_def by blast

text \<open>
  A P-256 private key survives its text form: \<open>private_key\<close> is \<open>0x\<close> and 64 hexadecimal
  digits, and constructing a signer from it gives the same signer.
\<close>

lemma p256_private_key_roundtrip:
  assumes "p256_ok E" "p256_signer_init E key_hex = Inr k"
  shows "p256_signer_init E (p256_private_key k) = Inr k \<and> length (p256_private_key k) = 66"
proof -
  have ok: "p256_signer_ok E k" by (rule p256_signer_init_ok [OF assms(2)])
  have b: "0 < key_d k" "key_d k < P256_N" using p256_key_bounds [OF assms(1) ok] by simp_all
  then have "nat (key_d k) < 16 ^ 64" by (simp add: P256_N_def nat_less_iff)
  then have "length (zfill 64 (hex_nat (nat (key_d k)))) = 64"
    by (intro length_zfill hex_nat_length) simp_all
  moreover have "py_int16 (p256_private_key k) = Inr (key_d k)"
    using b by (simp add: p256_private_key_def p256_format_key_def py_int16_hex del: append.simps)
  then have "p256_signer_init E (p256_private_key k) = Inr k"
    using ok by (auto simp: p256_signer_init_def p256_signer_ok_def)
  ultimately show ?thesis by (simp add: p256_private_key_def p256_format_key_def)
qed

section \<open>The WebAuthn challenge\<close>

text \<open>Base64 without padding.\<close>

fun b64_unpadded :: "bytes \<Rightarrow> string" where
  "b64_unpadded [] = []"
| "b64_unpadded [a] = (let n = unat a * 16 in [b64_char (n div 64), b64_char (n mod 64)])"
| "b64_unpadded [a, b] =
     (let n = (unat a * 256 + unat b) * 4 in
      [b64_char (n div 4096), b64_char (n div 64 mod 64), b64_char (n mod 64)])"
| "b64_unpadded (a # b # c # r) =
     (let n = (unat a * 256 + unat b) * 256 + unat c in
      [b64_char (n div 262144), b64_char (n div 4096 mod 64), b64_char (n div 64 mod 64),
       b64_char (n mod 64)] @ b64_unpadded r)"

definition b64_alphabet :: string where
  "b64_alphabet = ''ABCDEFGHIJKLMNOPQRSTUVWXYZabcdefghijklmnopqrstuvwxyz0123456789-_''"

lemma b64_alphabet_facts:
  "distinct b64_alphabet" "length b64_alphabet = 64" "CHR ''='' \<notin> set b64_alphabet"
  by (simp_all add: b64_alphabet_def)

lemma b64_char_nth: "b64_char n = b64_alphabet ! n"
  by (simp only: b64_char_def b64_alphabet_def)

lemma b64_char_not_pad [simp]:
  assumes "i < 64"
  shows "b64_char i \<noteq> CHR ''=''"
proof -
  have "b64_alphabet ! i \<in> set b64_alphabet" using assms b64_alphabet_facts(2) by (intro nth_mem) simp
  with b64_alphabet_facts(3) show ?thesis unfolding b64_char_nth by metis
qed

lemma b64_char_inj [simp]: "i < 64 \<Longrightarrow> j < 64 \<Longrightarrow> b64_char i = b64_char j \<longleftrightarrow> i = j"
  using b64_alphabet_facts by (simp add: b64_char_nth nth_eq_iff_index_eq)

lemma rstrip_append:
  "rstrip c (xs @ ys) = (if rstrip c ys = [] then rstrip c xs else xs @ rstrip c ys)"
proof (cases "\<forall>y \<in> set ys. y = c")
  case True
  then have "dropWhile (\<lambda>x. x = c) (rev ys @ zs) = dropWhile (\<lambda>x. x = c) zs" for zs
    by (intro dropWhile_append2) auto
  from this [of "rev xs"] this [of "[]"] show ?thesis by (simp add: rstrip_def)
next
  case False
  then obtain y where "y \<in> set (rev ys)" "y \<noteq> c" by auto
  then show ?thesis
    using dropWhile_append1 [of y "rev ys" "\<lambda>x. x = c" "rev xs"] by (auto simp: rstrip_def dropWhile_eq_Nil_conv)
qed

lemma rstrip_kept: "s \<noteq> [] \<Longrightarrow> last s \<noteq> c \<Longrightarrow> rstrip c s = s"
  by (cases s rule: rev_cases) (simp_all add: rstrip_def)

lemma rstrip_b64: "rstrip (CHR ''='') (urlsafe_b64encode x) = b64_unpadded x"
proof (induction x rule: urlsafe_b64encode.induct)
  case 1
  then show ?case by (simp add: rstrip_def)
next
  case (2 a)
  then show ?case by (simp add: rstrip_def Let_def)
next
  case (3 a b)
  then show ?case by (simp add: rstrip_def Let_def)
next
  case (4 a b c r)
  then show ?case
    by (simp add: Let_def rstrip_append rstrip_kept del: append.simps)
qed

lemma unat_byte [simp]: "unat (b :: byte) < 256"
  by (rule unat_byte_less)

lemma byte_split:
  assumes "m * 256 + c = n * 256 + z" "c < 256" "z < (256 :: nat)"
  shows "m = n \<and> c = z"
proof -
  have "(m * 256 + c) mod 256 = (n * 256 + z) mod 256" using assms(1) by simp
  with assms(2,3) have "c = z" by simp
  with assms(1) show ?thesis by simp
qed

lemma three_bytes_inj:
  assumes "(unat a * 256 + unat b) * 256 + unat c = (unat x * 256 + unat y) * 256 + unat (z :: byte)"
  shows "(a :: byte) = x \<and> (b :: byte) = y \<and> (c :: byte) = z"
proof -
  have c: "unat a * 256 + unat b = unat x * 256 + unat y \<and> unat c = unat z"
    by (rule byte_split [OF assms]) simp_all
  then have "unat a = unat x \<and> unat b = unat y" by (intro byte_split) simp_all
  with c show ?thesis by (auto intro: unsigned_word_eqI)
qed

lemma two_bytes_less: "unat (a :: byte) * 256 + unat (b :: byte) < 65536"
  using be_to_nat_less [of "[a, b]"] by (simp add: be_to_nat_Cons)

lemma three_bytes_less: "(unat (a :: byte) * 256 + unat (b :: byte)) * 256 + unat (c :: byte) < 16777216"
  using be_to_nat_less [of "[a, b, c]"] by (simp add: be_to_nat_Cons)

lemma sextets_inj:
  assumes "(m :: nat) div 262144 = n div 262144" "m div 4096 mod 64 = n div 4096 mod 64"
    "m div 64 mod 64 = n div 64 mod 64" "m mod 64 = n mod 64"
  shows "m = n"
proof -
  have "m div 64 div 64 div 64 = n div 64 div 64 div 64" "m div 64 div 64 mod 64 = n div 64 div 64 mod 64"
    using assms by (simp_all add: div_mult2_eq [symmetric])
  then have "m div 64 div 64 = n div 64 div 64" by (metis div_mod_decomp)
  then have "m div 64 = n div 64" using assms(3) by (metis div_mod_decomp)
  then show ?thesis using assms(4) by (metis div_mod_decomp)
qed

lemma sextets_inj2:
  assumes "(m :: nat) div 4096 = n div 4096" "m div 64 mod 64 = n div 64 mod 64" "m mod 64 = n mod 64"
  shows "m = n"
proof (rule sextets_inj)
  have "m div 4096 div 64 = n div 4096 div 64" using assms(1) by simp
  then show "m div 262144 = n div 262144" by (simp add: div_mult2_eq [symmetric])
qed (use assms in simp_all)

lemma b64_unpadded_inj: "b64_unpadded x = b64_unpadded y \<Longrightarrow> x = y"
proof (induction x arbitrary: y rule: b64_unpadded.induct)
  case 1
  then show ?case by (cases y rule: b64_unpadded.cases) (simp_all add: Let_def)
next
  case (2 a)
  then show ?case
  proof (cases y rule: b64_unpadded.cases)
    case (2 b)
    have "unat a < 256" "unat b < 256" by simp_all
    with \<open>b64_unpadded [a] = b64_unpadded y\<close> 2 have "unat a * 16 div 64 = unat b * 16 div 64"
      "unat a * 16 mod 64 = unat b * 16 mod 64" by (simp_all add: Let_def)
    then have "unat a * 16 = unat b * 16" by (metis div_mod_decomp)
    with 2 show ?thesis by (simp add: unsigned_word_eqI)
  qed (auto simp: Let_def)
next
  case (3 a b)
  then show ?case
  proof (cases y rule: b64_unpadded.cases)
    case (3 c d)
    define m where "m = (unat a * 256 + unat b) * 4"
    define n where "n = (unat c * 256 + unat d) * 4"
    have "m < 64 * 4096" "n < 64 * 4096"
      using two_bytes_less [of a b] two_bytes_less [of c d] by (simp_all add: m_def n_def)
    then have lt: "m div 4096 < 64" "n div 4096 < 64" by (simp_all add: less_mult_imp_div_less)
    from \<open>b64_unpadded [a, b] = b64_unpadded y\<close> 3
    have "m div 4096 = n div 4096" "m div 64 mod 64 = n div 64 mod 64" "m mod 64 = n mod 64"
      using lt by (simp_all add: Let_def m_def [symmetric] n_def [symmetric] del: distrib_right_numeral)
    then have "m = n" by (rule sextets_inj2)
    then have "unat a * 256 + unat b = unat c * 256 + unat d" by (simp add: m_def n_def)
    then have "unat a = unat c \<and> unat b = unat d" by (rule byte_split) simp_all
    with 3 show ?thesis by (auto intro: unsigned_word_eqI)
  qed (auto simp: Let_def)
next
  case (4 a b c r)
  then show ?case
  proof (cases y rule: b64_unpadded.cases)
    case (4 d e f s)
    define m where "m = (unat a * 256 + unat b) * 256 + unat c"
    define n where "n = (unat d * 256 + unat e) * 256 + unat f"
    have "m < 64 * 262144" "n < 64 * 262144"
      using three_bytes_less [of a b c] three_bytes_less [of d e f] by (simp_all add: m_def n_def)
    then have lt: "m div 262144 < 64" "n div 262144 < 64" by (simp_all add: less_mult_imp_div_less)
    from \<open>b64_unpadded (a # b # c # r) = b64_unpadded y\<close> 4
    have eq: "m div 262144 = n div 262144" "m div 4096 mod 64 = n div 4096 mod 64"
      "m div 64 mod 64 = n div 64 mod 64" "m mod 64 = n mod 64" and tl: "b64_unpadded r = b64_unpadded s"
      using lt by (simp_all add: Let_def m_def [symmetric] n_def [symmetric] del: distrib_right_numeral)
    have "m = n" by (rule sextets_inj [OF eq])
    from three_bytes_inj [OF this [unfolded m_def n_def]] "4.IH" [OF refl tl] 4 show ?thesis by simp
  qed (auto simp: Let_def)
qed

lemma length_b64_unpadded: "length (b64_unpadded x) = (4 * length x + 2) div 3"
  by (induction x rule: b64_unpadded.induct) (simp_all add: Let_def)

lemma b64_char_mem: "i < 64 \<Longrightarrow> b64_char i \<in> set b64_alphabet"
  using b64_alphabet_facts(2) by (simp add: b64_char_nth)

lemma b64_unpadded_chars: "set (b64_unpadded x) \<subseteq> set b64_alphabet"
proof (induction x rule: b64_unpadded.induct)
  case (3 a b)
  show ?case
    using two_bytes_less [of a b]
    by (simp add: Let_def b64_char_mem less_mult_imp_div_less del: distrib_right_numeral)
next
  case (4 a b c r)
  then show ?case
    using three_bytes_less [of a b c]
    by (simp add: Let_def b64_char_mem less_mult_imp_div_less del: distrib_right_numeral)
next
  case (2 a)
  have "unat a * 16 div 64 < 64" using unat_byte [of a] by (simp add: less_mult_imp_div_less)
  then show ?case by (simp add: Let_def b64_char_mem)
qed simp

text \<open>Base64 text passes the JSON and UTF-8 encoders unchanged.\<close>

lemma b64_alphabet_plain:
  "c \<in> set b64_alphabet \<Longrightarrow> json_escape c = [c] \<and> of_char c < (128 :: nat)"
  by (auto simp: b64_alphabet_def json_escape_def)

lemma json_b64: "set s \<subseteq> set b64_alphabet \<Longrightarrow> concat (map json_escape s) = s"
  by (induction s) (simp_all add: b64_alphabet_plain)

lemma utf8_append: "utf8_encode (s @ t) = utf8_encode s @ utf8_encode t"
  by (induction s) (simp_all add: Let_def)

lemma utf8_b64: "set s \<subseteq> set b64_alphabet \<Longrightarrow> utf8_encode s = map (\<lambda>c. word_of_nat (of_char c)) s"
  by (induction s) (simp_all add: b64_alphabet_plain)

lemma byte_char_inj:
  assumes "of_char c < (128 :: nat)" "of_char d < (128 :: nat)"
    and "(word_of_nat (of_char c) :: byte) = word_of_nat (of_char d)"
  shows "c = d"
proof -
  have "unat (word_of_nat (of_char c) :: byte) = unat (word_of_nat (of_char d) :: byte)"
    using assms(3) by simp
  with assms(1,2) have "(of_char c :: nat) = of_char d" by (simp add: unat_byte_of_nat)
  then show ?thesis by simp
qed

lemma utf8_b64_inj:
  assumes "set s \<subseteq> set b64_alphabet" "set t \<subseteq> set b64_alphabet" "utf8_encode s = utf8_encode t"
  shows "s = t"
proof -
  have "inj_on (\<lambda>c. word_of_nat (of_char c) :: byte) (set s \<union> set t)"
    using assms(1,2) b64_alphabet_plain byte_char_inj by (intro inj_onI) blast
  with assms show ?thesis by (simp add: utf8_b64 inj_on_map_eq_map)
qed

text \<open>
  The client data of an assertion binds the hash it was made for: two client data documents
  with equal bytes, whatever their origins, were built for the same 32-byte hash, so an assertion
  cannot be moved to another transaction.
\<close>

lemma client_data_binds_hash:
  assumes "build_client_data_json E (BBytes h) o1 ty = Inr c"
    and "build_client_data_json E (BBytes g) o2 ty = Inr c"
    and "length h = 32" "length g = 32"
  shows "h = g"
proof -
  let ?p = "''{'' @ json_string ''type'' @ '':'' @ json_string ty @ '','' @ json_string ''challenge'' @
    '':'' @ [CHR 0x22]"
  define rest where "rest o' = [CHR 0x22] @ '','' @ json_string ''origin'' @ '':'' @ json_string o' @
    '','' @ json_string ''crossOrigin'' @ '':'' @ ''false'' @ ''}''" for o'
  have doc: "build_client_data_json E (BBytes x) o' ty =
      Inr (utf8_encode ?p @ utf8_encode (b64_unpadded x) @ utf8_encode (rest o'))" for x o'
    by (simp only: build_client_data_json_def webauthn_challenge_def as_bytes_BBytes bindE_simps
        rstrip_b64 json_string_def json_b64 [OF b64_unpadded_chars] rest_def utf8_append [symmetric]
        append_assoc)
  have len: "length (utf8_encode (b64_unpadded x)) = 43" if "length x = 32" for x
    using that by (simp add: utf8_b64 b64_unpadded_chars length_b64_unpadded)
  from assms(1,2) have "utf8_encode ?p @ utf8_encode (b64_unpadded h) @ utf8_encode (rest o1) =
      utf8_encode ?p @ utf8_encode (b64_unpadded g) @ utf8_encode (rest o2)"
    unfolding doc sum.inject(2) by (rule trans [OF _ sym])
  then have "utf8_encode (b64_unpadded h) @ utf8_encode (rest o1) =
      utf8_encode (b64_unpadded g) @ utf8_encode (rest o2)"
    by (rule same_append_eq [THEN iffD1])
  then have "utf8_encode (b64_unpadded h) = utf8_encode (b64_unpadded g)"
    using len [OF assms(3)] len [OF assms(4)] by simp
  from utf8_b64_inj [OF b64_unpadded_chars b64_unpadded_chars this] show ?thesis
    by (rule b64_unpadded_inj)
qed

section \<open>Signing an assertion\<close>

lemma build_authenticator_data_length:
  "build_authenticator_data rp_id flags count = Inr a \<Longrightarrow> length a = 37"
  by (auto simp: build_authenticator_data_def byte_of_int_def bindE_Inr_conv dest: int_to_bytes_length
      split: if_splits)

lemma p256_sign_webauthn_ok:
  assumes "p256_ok E" "p256_signer_ok E k"
    and a: "build_authenticator_data rp_id flags count = Inr a"
    and c: "build_client_data_json E (BBytes h)
       (case origin of None \<Rightarrow> ''https://'' @ rp_id
        | Some s \<Rightarrow> if s = '''' then ''https://'' @ rp_id else s) ''webauthn.get'' = Inr c"
  obtains sg where "p256_sign_webauthn E k \<rho> (BBytes h) rp_id origin flags count = Inr sg"
    "envelope_ok sg" "authenticator_data sg = a" "client_data_json sg = c"
    "env_pub_key_x sg = key_x k" "env_pub_key_y sg = key_y k" "webauthn_verify E sg None = Inr True"
proof -
  define m where "m = sha256 (a @ sha256 c)"
  have m: "webauthn_message_hash E (BBytes a) (BBytes c) = Inr m"
    by (simp add: webauthn_message_hash_def m_def)
  have "length m = 32" by (simp add: m_def)
  from p256_sign_raw_ok [OF assms(1,2) this, of \<rho>] obtain r s where
    raw: "p256_sign_raw E k \<rho> m = Inr (r, s)"
    and ok: "envelope_ok \<lparr>env_r = r, env_s = s, env_pub_key_x = key_x k, env_pub_key_y = key_y k\<rparr>"
    and key: "ecc_construct_xy E (int_from_bytes (key_x k)) (int_from_bytes (key_y k)) = Inr ()"
    and ver: "dss_verify E (int_from_bytes (key_x k)) (int_from_bytes (key_y k)) m (r @ s)" by metis
  let ?sg = "\<lparr>env_r = r, env_s = s, env_pub_key_x = key_x k, env_pub_key_y = key_y k,
    authenticator_data = a, client_data_json = c\<rparr>"
  have ext: "p256_envelope.extend \<lparr>env_r = r, env_s = s, env_pub_key_x = key_x k, env_pub_key_y = key_y k\<rparr>
      (webauthn_signature.fields a c) = ?sg"
    by (simp add: p256_envelope.extend_def webauthn_signature.fields_def)
  have "p256_sign_webauthn E k \<rho> (BBytes h) rp_id origin flags count = Inr ?sg"
    using a c m raw ok build_authenticator_data_length [OF a]
    by (simp add: p256_sign_webauthn_def webauthn_signature_init_def ext validate_authenticator_data_def
        AUTH_DATA_LENGTH_def)
  moreover have "envelope_ok ?sg" using ok by (simp add: envelope_ok_def)
  moreover have "webauthn_verify E ?sg None = Inr True"
    using key ver m by (simp add: webauthn_verify_def webauthn_sig_message_hash_def envelope_verify_def)
  ultimately show thesis using that by simp
qed



end
