(* ===== verification/AccessKeys.thy ===== *)
theory AccessKeys
  imports KeyAuth Signing P256Signing
begin

text \<open>
  Signing a transaction with an access key, from \<open>tempo/keychain.py\<close>: \<open>sign_tx_access_key\<close>, which
  provisions the key in the transaction it signs, and \<open>sign_tx_registered_key\<close>. The theorems follow
  a signed transaction through \<open>verify_signature\<close>.
\<close>

section \<open>The definitions\<close>

definition sign_tx_access_key ::
    "ext \<Rightarrow> tempo_tx \<Rightarrow> string \<Rightarrow> signer \<Rightarrow> int option \<Rightarrow> signature_type \<Rightarrow> bytes_like option \<Rightarrow> int
       \<Rightarrow> limit_in list option \<Rightarrow> scope_in list option \<Rightarrow> bool \<Rightarrow> tempo_tx result" where
  "sign_tx_access_key E t access_key_sk root chain key_type key_id exp lims scopes admin =
     (if key_type \<noteq> SECP256K1
      then Inl (ValueError ''inline key authorization is SECP256K1-only'')
      else
        bindE (signer_init E access_key_sk) (\<lambda>access_key.
        bindE (case key_id of Some k \<Rightarrow> as_address E k | None \<Rightarrow> signer_address E access_key) (\<lambda>kid.
        bindE (signer_address E root) (\<lambda>ra.
        bindE (as_address E (BBytes ra)) (\<lambda>root_addr.
        bindE (key_authorization_init E (BBytes kid)
                 (case chain of Some c \<Rightarrow> c | None \<Rightarrow> chain_id t) (Some (BBytes root_addr))
                 (signature_type_int key_type) exp lims scopes (BBytes []) admin) (\<lambda>auth.
        bindE (signature_hash E auth) (\<lambda>ah.
        bindE (sign E root ah) (\<lambda>root_sig.
        bindE (sig_to_canonical_bytes root_sig) (\<lambda>rs.
        bindE (replace_fields E t None None None None
                 [KwKeyAuthorization (Some (RList [key_authorization_to_rlp auth, RBytes rs]))])
          (\<lambda>tx_with_auth.
        bindE (get_sign_payload E tx_with_auth) (\<lambda>h.
        bindE (kc_signing_hash E h (BBytes root_addr)) (\<lambda>kh.
        bindE (sign E access_key kh) (\<lambda>inner_sig.
        bindE (kc_from_inner E (InnerSecp inner_sig) (BBytes root_addr)) (\<lambda>ks.
          replace_fields E tx_with_auth (Some (KeychainSig ks)) None (Some (BBytes root_addr)) None []))))))))))))))"

datatype access_key = SecpKey signer | P256Key p256_signer

text \<open>\<open>**sign_kwargs\<close>: the keyword arguments the two signers know, each given or not.\<close>

record sign_kwargs =
  skw_pre_hash :: "bool option"
  skw_rp_id :: "string option"
  skw_origin :: "string option option"
  skw_flags :: "int option"
  skw_sign_count :: "int option"

definition no_kwargs :: sign_kwargs where
  "no_kwargs = \<lparr>skw_pre_hash = None, skw_rp_id = None, skw_origin = None, skw_flags = None,
     skw_sign_count = None\<rparr>"

definition has_webauthn_kwargs :: "sign_kwargs \<Rightarrow> bool" where
  "has_webauthn_kwargs w \<longleftrightarrow> skw_rp_id w \<noteq> None \<or> skw_origin w \<noteq> None \<or> skw_flags w \<noteq> None \<or>
     skw_sign_count w \<noteq> None"

text \<open>The call \<open>access_key.sign(...)\<close> or \<open>access_key.sign_webauthn(...)\<close>; \<open>\<rho>\<close> is the randomness
  of a P-256 signature.\<close>

definition sign_inner ::
    "ext \<Rightarrow> access_key \<Rightarrow> bool \<Rightarrow> bytes \<Rightarrow> sign_kwargs \<Rightarrow> bytes \<Rightarrow> inner_sig result" where
  "sign_inner E key webauthn \<rho> w h =
     (if \<not> webauthn then
        (case key of
           SecpKey k \<Rightarrow>
             if skw_pre_hash w \<noteq> None \<or> has_webauthn_kwargs w
             then Inl (TypeError ''sign() got an unexpected keyword argument'')
             else bindE (sign E k h) (\<lambda>sg. Inr (InnerSecp sg))
         | P256Key k \<Rightarrow>
             if has_webauthn_kwargs w
             then Inl (TypeError ''sign() got an unexpected keyword argument'')
             else bindE (p256_sign E k \<rho> (BBytes h) (case skw_pre_hash w of None \<Rightarrow> False | Some b \<Rightarrow> b))
                    (\<lambda>sg. Inr (InnerP256 sg)))
      else
        (case key of
           P256Key k \<Rightarrow>
             (case (skw_pre_hash w, skw_rp_id w) of
                (None, Some rp) \<Rightarrow>
                  bindE (p256_sign_webauthn E k \<rho> (BBytes h) rp
                           (case skw_origin w of None \<Rightarrow> None | Some s \<Rightarrow> s)
                           (case skw_flags w of None \<Rightarrow> or UP UV | Some f \<Rightarrow> f)
                           (case skw_sign_count w of None \<Rightarrow> 0 | Some c \<Rightarrow> c))
                    (\<lambda>sg. Inr (InnerWebAuthn sg))
              | _ \<Rightarrow> Inl (TypeError ''sign_webauthn() arguments''))
         | SecpKey k \<Rightarrow> Inl (TypeError ''a WebAuthn signature needs a P256Signer'')))"

definition sign_tx_registered_key ::
    "ext \<Rightarrow> tempo_tx \<Rightarrow> access_key \<Rightarrow> bytes_like \<Rightarrow> bool \<Rightarrow> bytes \<Rightarrow> sign_kwargs \<Rightarrow> tempo_tx result" where
  "sign_tx_registered_key E t key root_account webauthn \<rho> w =
     bindE (as_address E root_account) (\<lambda>root_addr.
     bindE (get_sign_payload E t) (\<lambda>h.
     bindE (kc_signing_hash E h (BBytes root_addr)) (\<lambda>kh.
     bindE (sign_inner E key webauthn \<rho> w kh) (\<lambda>inner.
     bindE (kc_from_inner E inner (BBytes root_addr)) (\<lambda>ks.
       replace_fields E t (Some (KeychainSig ks)) None (Some (BBytes root_addr)) None [])))))"

section \<open>A keychain-signed transaction\<close>

lemma kc_signing_hash_ok:
  assumes "length h = 32" "length root = 20"
  shows "kc_signing_hash E h (BBytes root) = Inr (keccak256 E (4 # h @ root))"
  using assms by (simp add: kc_signing_hash_def byte_4)

definition keychain_signed :: "tempo_tx \<Rightarrow> keychain_signature \<Rightarrow> bytes \<Rightarrow> tempo_tx" where
  "keychain_signed t ks root =
     t\<lparr>sender_signature := Some (KeychainSig ks), sender_address := Some root\<rparr>"

lemma replace_keychain:
  "tx_addresses_ok t \<Longrightarrow> length root = 20 \<Longrightarrow>
     replace_fields E t (Some (KeychainSig ks)) None (Some (BBytes root)) None [] =
       Inr (keychain_signed t ks root)"
  by (simp add: replace_sender keychain_signed_def)

text \<open>The secp256k1 signature of any signer over the domain-separated hash, wrapped for a root.\<close>

lemma keychain_secp:
  assumes "ecdsa_ok E" "keccak_ok E" "length root = 20" "get_sign_payload E t = Inr h"
  obtains sg ks where
    "sign E k (keccak256 E (4 # h @ root)) = Inr sg" "signature_ok sg"
    "kc_from_inner E (InnerSecp sg) (BBytes root) = Inr ks" "kc_user_address ks = root"
    "kc_inner_signature ks = Inr (sig_canonical sg)"
    "recover_address E (keccak256 E (4 # h @ root)) (sig_canonical sg) = signer_address E k"
proof -
  have len: "length (keccak256 E (4 # h @ root)) = 32" using assms(2) by (simp add: keccak_ok_def)
  obtain sg where sg: "sign E k (keccak256 E (4 # h @ root)) = Inr sg" "signature_ok sg"
    "recover_address E (keccak256 E (4 # h @ root)) (sig_canonical sg) = signer_address E k"
    by (rule sign_ok [OF assms(1) len])
  have a: "as_address E (BBytes root) = Inr root" using assms(3) by simp
  from kc_from_inner_reads_back [OF _ a assms(3), of "InnerSecp sg"] sg(2) obtain ks where
    ks: "kc_from_inner E (InnerSecp sg) (BBytes root) = Inr ks" "kc_user_address ks = root"
    by (auto simp: inner_ok_def)
  with kc_inner_signature_secp [OF sg(2) a assms(3) ks(1)] sg that show thesis by blast
qed

lemma keychain_verifies:
  assumes "get_sign_payload E t = Inr h" "length h = 32" "length root = 20"
    and "kc_user_address ks = root" "kc_inner_signature ks = Inr sg"
    and "recover_address E (keccak256 E (4 # h @ root)) sg = Inr a"
  shows "tx_verify_signature E (keychain_signed t ks root) = Inr root"
  using assms by (simp add: tx_verify_signature_def keychain_signed_def get_sign_payload_signed
      kc_signing_hash_ok)

text \<open>
  C8. Signing with a registered secp256k1 key: the call returns a copy of the transaction that
  carries a keychain envelope naming the root account; the inner signature, over the
  domain-separated hash, recovers to the access key's own address, and \<open>verify_signature\<close> returns
  the root account, whichever key signed.
\<close>

theorem registered_key_verifies:
  assumes "ecdsa_ok E" "account_ok E" "keccak_ok E" "tx_addresses_ok t" "get_sign_payload E t = Inr h"
    and "as_address E root_account = Inr root" "length root = 20"
  shows "\<exists>ks sg a. sign_tx_registered_key E t (SecpKey k) root_account False \<rho> no_kwargs
      = Inr (keychain_signed t ks root) \<and>
    kc_user_address ks = root \<and> length (kc_to_bytes ks) = 86 \<and> kc_inner_signature ks = Inr sg \<and>
    signer_address E k = Inr a \<and> recover_address E (keccak256 E (4 # h @ root)) sg = Inr a \<and>
    tx_verify_signature E (keychain_signed t ks root) = Inr root"
proof -
  obtain sg ks where k: "sign E k (keccak256 E (4 # h @ root)) = Inr sg" "signature_ok sg"
    "kc_from_inner E (InnerSecp sg) (BBytes root) = Inr ks" "kc_user_address ks = root"
    "kc_inner_signature ks = Inr (sig_canonical sg)"
    "recover_address E (keccak256 E (4 # h @ root)) (sig_canonical sg) = signer_address E k"
    by (rule keychain_secp [OF assms(1,3,7,5), where k = k])
  have h: "length h = 32" by (rule get_sign_payload_32 [OF assms(3,5)])
  obtain a where a: "signer_address E k = Inr a" using signer_address_ok [OF assms(2)] by blast
  have "sign_tx_registered_key E t (SecpKey k) root_account False \<rho> no_kwargs = Inr (keychain_signed t ks root)"
    using assms(4-7) h k(1,3)
    by (simp add: sign_tx_registered_key_def kc_signing_hash_ok sign_inner_def no_kwargs_def
        has_webauthn_kwargs_def replace_keychain)
  moreover have "length (kc_to_bytes ks) = 86"
    using k(5) by (simp add: kc_inner_signature_def kc_to_bytes_def split: if_splits)
  ultimately show ?thesis
    using keychain_verifies [OF assms(5) h assms(7) k(4,5)] k a by auto
qed

theorem registered_key_verifies_witness:
  "\<exists>ks. sign_tx_registered_key ref_ext demo_tx (SecpKey \<lparr>account = 7\<rparr>) (BBytes (replicate 20 9)) False []
      no_kwargs = Inr (keychain_signed demo_tx ks (replicate 20 9)) \<and>
     tx_verify_signature ref_ext (keychain_signed demo_tx ks (replicate 20 9)) = Inr (replicate 20 9)"
proof -
  obtain h where h: "get_sign_payload ref_ext demo_tx = Inr h" using demo_payloads by blast
  have t: "tx_addresses_ok demo_tx" using demo_wf(1) by (simp add: tx_wf_def tx_ok_def)
  have a: "as_address ref_ext (BBytes (replicate 20 9)) = Inr (replicate 20 9)" by simp
  from registered_key_verifies [OF ref_ecdsa_ok ref_account_ok ref_keccak_ok t h a]
  show ?thesis by (metis length_replicate)
qed

text \<open>
  C9. Signing with a registered P-256 key: the call returns the transaction with a keychain envelope
  for the root account, whose inner bytes are the 130-byte P-256 envelope of a signature that
  verifies over the domain-separated hash; \<open>verify_signature\<close>, which recovers secp256k1 keys only,
  refuses it with a \<open>ValueError\<close> instead of returning an address.
\<close>

theorem registered_p256_key:
  assumes "p256_ok E" "keccak_ok E" "p256_signer_init E key_hex = Inr k"
    and "tx_addresses_ok t" "get_sign_payload E t = Inr h"
    and "as_address E root_account = Inr root" "length root = 20"
  shows "\<exists>ks sg. sign_tx_registered_key E t (P256Key k) root_account False \<rho> no_kwargs
      = Inr (keychain_signed t ks root) \<and>
    kc_user_address ks = root \<and> p256_parse (kc_inner_bytes ks) = Inr sg \<and>
    envelope_address E sg = p256_address E k \<and>
    p256_verify E sg (BBytes (keccak256 E (4 # h @ root))) = Inr True \<and>
    tx_verify_signature E (keychain_signed t ks root) =
      Inl (ValueError ''inner signature is not secp256k1; use inner_bytes'')"
proof -
  have h: "length h = 32" by (rule get_sign_payload_32 [OF assms(2,5)])
  have len: "length (keccak256 E (4 # h @ root)) = 32" using assms(2) by (simp add: keccak_ok_def)
  obtain sg where sg: "p256_sign E k \<rho> (BBytes (keccak256 E (4 # h @ root))) False = Inr sg"
    "envelope_ok sg" "env_pub_key_x sg = key_x k" "env_pub_key_y sg = key_y k"
    "p256_verify E sg (BBytes (keccak256 E (4 # h @ root))) = Inr True"
    by (rule p256_sign_ok [OF assms(1) p256_signer_init_ok [OF assms(3)] len])
  have a: "as_address E (BBytes root) = Inr root" using assms(7) by simp
  from kc_from_inner_reads_back [OF _ a assms(7), of "InnerP256 sg"] sg(2) obtain ks where
    ks: "kc_from_inner E (InnerP256 sg) (BBytes root) = Inr ks" "kc_user_address ks = root"
      "p256_to_bytes sg = Inr (kc_inner_bytes ks)"
    by (auto simp: inner_ok_def inner_to_bytes_def)
  have "kc_inner_signature ks = Inl (ValueError ''inner signature is not secp256k1; use inner_bytes'')"
    using p256_env.inner_signature_rejects [OF sg(2) a assms(7)] ks(1)
    by (simp add: kc_from_inner_def inner_to_bytes_def)
  then have "tx_verify_signature E (keychain_signed t ks root) =
      Inl (ValueError ''inner signature is not secp256k1; use inner_bytes'')"
    using assms(5,7) ks(2) h
    by (simp add: tx_verify_signature_def keychain_signed_def get_sign_payload_signed kc_signing_hash_ok)
  moreover have "sign_tx_registered_key E t (P256Key k) root_account False \<rho> no_kwargs =
      Inr (keychain_signed t ks root)"
    using assms(4-7) h ks(1) sg(1)
    by (simp add: sign_tx_registered_key_def kc_signing_hash_ok sign_inner_def no_kwargs_def
        has_webauthn_kwargs_def replace_keychain)
  moreover have "p256_parse (kc_inner_bytes ks) = Inr sg" by (rule p256_130.dec_enc [OF sg(2) ks(3)])
  ultimately show ?thesis
    using ks(2) sg by (auto simp: envelope_address_def p256_address_def)
qed

theorem registered_p256_key_witness:
  "\<exists>k ks. p256_signer_init ref_ext (p256_format_key 5) = Inr k \<and>
     sign_tx_registered_key ref_ext demo_tx (P256Key k) (BBytes (replicate 20 9)) False [] no_kwargs
       = Inr (keychain_signed demo_tx ks (replicate 20 9)) \<and>
     kc_user_address ks = replicate 20 9"
proof -
  obtain k where k: "p256_signer_init ref_ext (p256_format_key 5) = Inr k" using demo_p256_key by blast
  obtain h where h: "get_sign_payload ref_ext demo_tx = Inr h" using demo_payloads by blast
  have t: "tx_addresses_ok demo_tx" using demo_wf(1) by (simp add: tx_wf_def tx_ok_def)
  have a: "as_address ref_ext (BBytes (replicate 20 9)) = Inr (replicate 20 9)" by simp
  from registered_p256_key [OF ref_p256_ok ref_keccak_ok k t h a length_replicate] k
  show ?thesis by metis
qed

section \<open>Provisioning a key in the transaction it signs\<close>

lemma key_authorization_init_fields:
  "key_authorization_init E kid chain acct kt exp lims scopes wit admin = Inr auth \<Longrightarrow>
     as_address E kid = Inr (ka_key_id auth) \<and> as_optional_address E acct = Inr (ka_account auth) \<and>
     ka_chain_id auth = chain \<and> ka_key_type auth = kt \<and> ka_expiry auth = exp \<and> ka_is_admin auth = admin"
  by (auto simp: key_authorization_init_def bindE_Inr_conv split: if_splits)

text \<open>
  C4. \<open>sign_tx_access_key\<close> with its default key id: the returned transaction carries the
  authorization of the access key's own address, granted by the root account, followed by a
  signature of the root account over the authorization's hash that recovers to the root; it is
  signed by the access key in the root's name, and \<open>verify_signature\<close> returns the root.
\<close>

theorem access_key_signs_and_verifies:
  assumes "ecdsa_ok E" "account_ok E" "keccak_ok E" "tx_addresses_ok t"
    and "signer_init E sk = Inr ak" "signer_address E ak = Inr kid" "signer_address E root = Inr ra"
    and auth: "key_authorization_init E (BBytes kid) (chain_id t) (Some (BBytes ra)) 0 exp lims scopes
      (BBytes []) admin = Inr auth"
    and enc: "rlp_encode E (key_authorization_to_rlp auth) = Inr b"
    and payload: "\<And>rs. length rs = 65 \<Longrightarrow> \<exists>h. get_sign_payload E
      (t\<lparr>key_authorization := Some (RList [key_authorization_to_rlp auth, RBytes rs])\<rparr>) = Inr h"
  shows "\<exists>t' rs rsig ks h sg. sign_tx_access_key E t sk root None SECP256K1 None exp lims scopes admin = Inr t' \<and>
    t' = keychain_signed (t\<lparr>key_authorization := Some (RList [key_authorization_to_rlp auth, RBytes rs])\<rparr>) ks ra \<and>
    ka_key_id auth = kid \<and> ka_account auth = Some ra \<and> ka_chain_id auth = chain_id t \<and>
    sig_from_bytes rs = Inr rsig \<and> recover_address E (keccak256 E b) rsig = Inr ra \<and>
    get_sign_payload E t' = Inr h \<and> kc_inner_signature ks = Inr sg \<and>
    recover_address E (keccak256 E (4 # h @ ra)) sg = Inr kid \<and>
    tx_verify_signature E t' = Inr ra"
proof -
  have len: "length kid = 20" "length ra = 20"
    using signer_address_ok [OF assms(2), of ak] signer_address_ok [OF assms(2), of root] assms(6,7)
    by simp_all
  have b32: "length (keccak256 E b) = 32" using assms(3) by (simp add: keccak_ok_def)
  obtain rsig where rsig: "sign E root (keccak256 E b) = Inr rsig" "signature_ok rsig"
    "recover_address E (keccak256 E b) (sig_canonical rsig) = Inr ra"
    using sign_ok [OF assms(1) b32, of root] assms(7) by metis
  obtain rs where rs: "sig_to_canonical_bytes rsig = Inr rs" "length rs = 65"
    "sig_from_bytes rs = Inr (sig_canonical rsig)"
    using sig_canonical_ok [OF rsig(2)] sig65.enc_total sig65.dec_enc by (metis sig_canonical_bytes)
  let ?ta = "t\<lparr>key_authorization := Some (RList [key_authorization_to_rlp auth, RBytes rs])\<rparr>"
  obtain h where h: "get_sign_payload E ?ta = Inr h" using payload [OF rs(2)] by blast
  have h32: "length h = 32" by (rule get_sign_payload_32 [OF assms(3) h])
  obtain sg ks where k: "sign E ak (keccak256 E (4 # h @ ra)) = Inr sg" "signature_ok sg"
    "kc_from_inner E (InnerSecp sg) (BBytes ra) = Inr ks" "kc_user_address ks = ra"
    "kc_inner_signature ks = Inr (sig_canonical sg)"
    "recover_address E (keccak256 E (4 # h @ ra)) (sig_canonical sg) = signer_address E ak"
    by (rule keychain_secp [OF assms(1,3) len(2) h, where k = ak])
  have ta: "tx_addresses_ok ?ta" using assms(4) by (simp add: tx_addresses_ok_def)
  have "sign_tx_access_key E t sk root None SECP256K1 None exp lims scopes admin
      = Inr (keychain_signed ?ta ks ra)"
    using assms(4-7) auth enc len rsig(1) rs(1) h h32 k(1,3)
    by (simp add: sign_tx_access_key_def signature_type_int_def signature_hash_def
        replace_key_authorization kc_signing_hash_ok replace_keychain [OF ta])
  moreover have "ka_key_id auth = kid" "ka_account auth = Some ra" "ka_chain_id auth = chain_id t"
    using key_authorization_init_fields [OF auth] len by simp_all
  moreover have "get_sign_payload E (keychain_signed ?ta ks ra) = Inr h"
    using h unfolding keychain_signed_def get_sign_payload_signed .
  moreover have "tx_verify_signature E (keychain_signed ?ta ks ra) = Inr ra"
    using keychain_verifies [OF h h32 len(2) k(4,5)] k(6) assms(6) by simp
  ultimately show ?thesis using rs(3) rsig(3) k(5,6) assms(6) by metis
qed

definition demo_admin_auth :: "bytes \<Rightarrow> bytes \<Rightarrow> key_authorization" where
  "demo_admin_auth kid ra = \<lparr>ka_key_id = kid, ka_chain_id = 42431, ka_account = Some ra, ka_key_type = 0,
     ka_expiry = 0, ka_limits = None, ka_allowed_calls = None, ka_witness = [], ka_is_admin = True\<rparr>"

lemma demo_admin_init:
  "length kid = 20 \<Longrightarrow> length ra = 20 \<Longrightarrow>
     key_authorization_init ref_ext (BBytes kid) (chain_id demo_tx) (Some (BBytes ra)) 0 0 None None
       (BBytes []) True = Inr (demo_admin_auth kid ra)"
  by (simp add: key_authorization_init_def optional_tuple_def demo_admin_auth_def demo_tx_def
      validate_nonempty_address_def)

lemma demo_admin_rlp:
  assumes "length kid = 20" "length ra = 20"
  shows "\<exists>b. rlp_encode ref_ext (key_authorization_to_rlp (demo_admin_auth kid ra)) = Inr b \<and> length b = 52"
  using assms by (simp add: demo_admin_auth_def auth_eval) (simp add: rlp_eval)

lemma demo_admin_payload:
  assumes "length kid = 20" "length ra = 20" "length rs = 65"
  shows "\<exists>h. get_sign_payload ref_ext (demo_tx\<lparr>key_authorization :=
    Some (RList [key_authorization_to_rlp (demo_admin_auth kid ra), RBytes rs])\<rparr>) = Inr h"
proof -
  obtain b where b: "rlp_ref (key_authorization_to_rlp (demo_admin_auth kid ra)) = Inr b" "length b = 52"
    using demo_admin_rlp [OF assms(1,2)] by (auto simp: ref_ext_sel)
  have "\<exists>p. serialize_for_signing ref_ext (demo_tx\<lparr>key_authorization :=
      Some (RList [key_authorization_to_rlp (demo_admin_auth kid ra), RBytes rs])\<rparr>) = Inr p"
    using b assms(3) by (simp add: serialize_for_signing_Inr_conv demo_defs fields_eval rlp_eval sponsored_def)
  then show ?thesis using payload_hashes(1) [OF ref_hexstr_ok] by blast
qed

theorem access_key_signs_and_verifies_witness:
  "\<exists>t' ra. signer_address ref_ext \<lparr>account = 9\<rparr> = Inr ra \<and>
     sign_tx_access_key ref_ext demo_tx ''0x07'' \<lparr>account = 9\<rparr> None SECP256K1 None 0 None None True = Inr t' \<and>
     tx_verify_signature ref_ext t' = Inr ra"
proof -
  have sk: "\<exists>ak. signer_init ref_ext ''0x07'' = Inr ak"
  proof -
    have "account_from_key ref_ext (''0x'' @ bytes_hex [7]) = Inr (be_to_nat [7])"
      by (simp only: ref_ext_sel ref_hexstr_hex bindE_simps)
    moreover have "''0x'' @ bytes_hex [7] = ''0x07''" by (simp add: hex_digit_def hex_chars_def)
    ultimately show ?thesis by (auto simp: signer_init_def)
  qed
  then obtain ak where ak: "signer_init ref_ext ''0x07'' = Inr ak" by blast
  obtain kid where kid: "signer_address ref_ext ak = Inr kid" "length kid = 20"
    using signer_address_ok [OF ref_account_ok] by blast
  obtain ra where ra: "signer_address ref_ext \<lparr>account = 9\<rparr> = Inr ra" "length ra = 20"
    using signer_address_ok [OF ref_account_ok] by blast
  obtain b where b: "rlp_encode ref_ext (key_authorization_to_rlp (demo_admin_auth kid ra)) = Inr b"
    using demo_admin_rlp [OF kid(2) ra(2)] by blast
  have t: "tx_addresses_ok demo_tx" using demo_wf(1) by (simp add: tx_wf_def tx_ok_def)
  from access_key_signs_and_verifies [OF ref_ecdsa_ok ref_account_ok ref_keccak_ok t ak kid(1) ra(1)
      demo_admin_init [OF kid(2) ra(2)] b demo_admin_payload [OF kid(2) ra(2)]] ra(1)
  show ?thesis by metis
qed

section \<open>Roots\<close>

text \<open>
  C10. The keychain envelope determines the account and the signature it was built from, in every
  scheme: building it for a 20-byte root succeeds, both parts read back, and two envelopes with the
  same bytes name the same root and, within a scheme, carry the same signature.
\<close>

theorem keychain_envelope_determines:
  assumes "inner_ok i" "as_address E u = Inr a" "length a = 20"
  shows "\<exists>ks. kc_from_inner E i u = Inr ks \<and> kc_user_address ks = a \<and>
    inner_to_bytes i = Inr (kc_inner_bytes ks) \<and> keychain_ok ks \<and>
    (\<forall>x y w c. as_address E w = Inr c \<and> length c = 20 \<longrightarrow>
      (i = InnerSecp x \<and> signature_ok y \<and> kc_from_inner E (InnerSecp y) w = Inr ks \<longrightarrow>
         c = a \<and> sig_canonical y = sig_canonical x)) \<and>
    (\<forall>x y w c. as_address E w = Inr c \<and> length c = 20 \<longrightarrow>
      (i = InnerP256 x \<and> envelope_ok y \<and> kc_from_inner E (InnerP256 y) w = Inr ks \<longrightarrow> c = a \<and> y = x)) \<and>
    (\<forall>x y w c. as_address E w = Inr c \<and> length c = 20 \<longrightarrow>
      (i = InnerWebAuthn x \<and> webauthn_ok y \<and> kc_from_inner E (InnerWebAuthn y) w = Inr ks \<longrightarrow>
         c = a \<and> y = x))"
proof -
  obtain ks where ks: "kc_from_inner E i u = Inr ks" "kc_user_address ks = a"
    "inner_to_bytes i = Inr (kc_inner_bytes ks)" "keychain_ok ks"
    using kc_from_inner_reads_back [OF assms] by blast
  show ?thesis
  proof (intro exI [of _ ks] conjI ks allI impI)
    fix x y w c assume w: "as_address E w = Inr c \<and> length c = 20"
      and i: "i = InnerSecp x \<and> signature_ok y \<and> kc_from_inner E (InnerSecp y) w = Inr ks"
    then show "c = a" "sig_canonical y = sig_canonical x"
      using secp_env.wrap_determines [of y x E w c u a] assms ks(1)
      by (simp_all add: inner_ok_def kc_from_inner_def inner_to_bytes_def)
  next
    fix x y w c assume w: "as_address E w = Inr c \<and> length c = 20"
      and i: "i = InnerP256 x \<and> envelope_ok y \<and> kc_from_inner E (InnerP256 y) w = Inr ks"
    then show "c = a" "y = x"
      using p256_env.wrap_determines [of y x E w c u a] assms ks(1)
      by (simp_all add: inner_ok_def kc_from_inner_def inner_to_bytes_def)
  next
    fix x y w c assume w: "as_address E w = Inr c \<and> length c = 20"
      and i: "i = InnerWebAuthn x \<and> webauthn_ok y \<and> kc_from_inner E (InnerWebAuthn y) w = Inr ks"
    then show "c = a" "y = x"
      using webauthn_env.wrap_determines [of y x E w c u a] assms ks(1)
      by (simp_all add: inner_ok_def kc_from_inner_def inner_to_bytes_def)
  qed
qed

theorem keychain_envelope_determines_witness:
  "\<exists>ks. kc_from_inner ref_ext (InnerSecp demo_sig) (BBytes (replicate 20 9)) = Inr ks \<and>
     kc_user_address ks = replicate 20 9"
proof -
  have "inner_ok (InnerSecp demo_sig)" by (simp add: inner_ok_def)
  moreover have "as_address ref_ext (BBytes (replicate 20 9)) = Inr (replicate 20 9)" by simp
  ultimately show ?thesis using keychain_envelope_determines [OF _ _ length_replicate] by blast
qed

text \<open>
  An empty root is not refused: for an empty account address both \<open>signing_hash\<close> and \<open>from_inner\<close>
  go through, and the envelope, 66 bytes long, names as its account the first 20 bytes of the inner
  signature's \<open>r\<close>.
\<close>

lemma empty_root_accepted:
  assumes "signature_ok sg" "as_address E u = Inr []" "length h = 32"
  shows "\<exists>ks. kc_from_inner E (InnerSecp sg) u = Inr ks \<and> length (kc_to_bytes ks) = 66 \<and>
    kc_user_address ks = take 20 (nat_to_be 32 (nat (sig_r sg))) \<and>
    kc_signing_hash E h u = Inr (keccak256 E (4 # h))"
  using assms
  by (simp add: kc_from_inner_def inner_to_bytes_def sig_to_canonical_bytes_layout kc_wrap_conv
      kc_to_bytes_def kc_user_address_def kc_signing_hash_def byte_4)

end
