(* ===== verification/Ports.thy ===== *)
theory Ports
  imports Prelude
begin

text \<open>
  \<open>tempo/devnet/ports.py\<close>: the six service ports of a node and the search for free blocks of
  ports. The operating system is a parameter: \<open>offered i\<close> is the ephemeral port the \<open>i\<close>-th probe is
  given, \<open>free i p\<close> whether a socket can be bound to \<open>p\<close> during the \<open>i\<close>-th attempt.
\<close>

definition consensus_p2p_port :: "int \<Rightarrow> int" where "consensus_p2p_port b = b"
definition execution_p2p_port :: "int \<Rightarrow> int" where "execution_p2p_port b = b + 1"
definition consensus_metrics_port :: "int \<Rightarrow> int" where "consensus_metrics_port b = b + 2"
definition authrpc_port :: "int \<Rightarrow> int" where "authrpc_port b = b + 3"
definition http_rpc_port :: "int \<Rightarrow> int" where "http_rpc_port b = b + 4"
definition ws_rpc_port :: "int \<Rightarrow> int" where "ws_rpc_port b = b + 5"

definition PORTS_PER_NODE :: int where "PORTS_PER_NODE = 6"

definition bases_from :: "int \<Rightarrow> nat \<Rightarrow> int \<Rightarrow> int list" where
  "bases_from base count stride = map (\<lambda>i. base + int i * stride) [0..<count]"

definition needed_ports :: "int list \<Rightarrow> int list" where
  "needed_ports bases = concat (map (\<lambda>p. map (\<lambda>k. p + k) [0..PORTS_PER_NODE - 1]) bases)"

text \<open>The attempts that are left; \<open>max\<close> of an empty list raises.\<close>

fun find_free_from ::
    "(nat \<Rightarrow> int) \<Rightarrow> (nat \<Rightarrow> int \<Rightarrow> bool) \<Rightarrow> nat \<Rightarrow> int \<Rightarrow> nat list \<Rightarrow> int list result" where
  "find_free_from offered free count stride [] =
     Inl (RuntimeError ''could not find a free devnet port region'')"
| "find_free_from offered free count stride (i # is) =
     (let bases = bases_from (offered i) count stride; needed = needed_ports bases in
      if needed = [] then Inl (ValueError ''max() arg is an empty sequence'')
      else if Max (set needed) < 65500 \<and> list_all (free i) needed then Inr bases
      else find_free_from offered free count stride is)"

definition find_free_base_ports ::
    "(nat \<Rightarrow> int) \<Rightarrow> (nat \<Rightarrow> int \<Rightarrow> bool) \<Rightarrow> nat \<Rightarrow> int \<Rightarrow> int list result" where
  "find_free_base_ports offered free count stride =
     find_free_from offered free count stride [0..<200]"

section \<open>Properties\<close>

lemma needed_ports_set: "x \<in> set (needed_ports bs) \<longleftrightarrow> (\<exists>p \<in> set bs. p \<le> x \<and> x \<le> p + 5)"
  by (auto simp: needed_ports_def PORTS_PER_NODE_def)

lemma needed_portsI: "b \<in> set bs \<Longrightarrow> 0 \<le> k \<Longrightarrow> k \<le> 5 \<Longrightarrow> b + k \<in> set (needed_ports bs)"
  by (auto simp: needed_ports_set intro!: bexI [of _ b])

lemma find_free_from_ok:
  "find_free_from offered free count stride is = Inr bases \<Longrightarrow>
     \<exists>i \<in> set is. bases = bases_from (offered i) count stride \<and>
       (\<forall>p \<in> set (needed_ports bases). p < 65500 \<and> free i p)"
proof (induction "is")
  case (Cons i "is")
  show ?case
  proof (cases "Max (set (needed_ports (bases_from (offered i) count stride))) < 65500 \<and>
      list_all (free i) (needed_ports (bases_from (offered i) count stride))")
    case True
    with Cons.prems have "bases = bases_from (offered i) count stride"
      by (auto simp: Let_def split: if_splits)
    with True show ?thesis
      by (intro bexI [of _ i]) (auto simp: list_all_iff Max_less_iff [OF List.finite_set] dest: Max_ge [OF List.finite_set, THEN le_less_trans])
  next
    case False
    with Cons show ?thesis by (auto simp: Let_def split: if_splits)
  qed
qed simp

text \<open>
  A port region that is found is usable: the search returns as many base ports as asked for,
  spaced by the stride, and every one of the six service ports of every node was bindable in one
  and the same attempt and is below 65500; with a stride of at least six no two services of any two
  nodes share a port.
\<close>

lemma free_ports_usable:
  assumes "find_free_base_ports offered free count stride = Inr bases"
  shows "length bases = count \<and>
    (\<exists>i < 200. bases = bases_from (offered i) count stride \<and>
      (\<forall>b \<in> set bases. \<forall>f \<in> {consensus_p2p_port, execution_p2p_port, consensus_metrics_port,
          authrpc_port, http_rpc_port, ws_rpc_port}. f b < 65500 \<and> free i (f b))) \<and>
    (6 \<le> stride \<longrightarrow> distinct (needed_ports bases))"
proof -
  from find_free_from_ok [OF assms [unfolded find_free_base_ports_def]] obtain i where
    i: "i < 200" "bases = bases_from (offered i) count stride"
      "\<forall>p \<in> set (needed_ports bases). p < 65500 \<and> free i p" by auto
  have "\<forall>b \<in> set bases. \<forall>f \<in> {consensus_p2p_port, execution_p2p_port, consensus_metrics_port,
          authrpc_port, http_rpc_port, ws_rpc_port}. f b \<in> set (needed_ports bases)"
    using needed_portsI [of _ bases 0]
    by (auto simp: needed_portsI consensus_p2p_port_def execution_p2p_port_def
        consensus_metrics_port_def authrpc_port_def http_rpc_port_def ws_rpc_port_def)
  with i(3) have svc: "\<forall>b \<in> set bases. \<forall>f \<in> {consensus_p2p_port, execution_p2p_port, consensus_metrics_port,
          authrpc_port, http_rpc_port, ws_rpc_port}. f b < 65500 \<and> free i (f b)" by blast
  have "distinct (needed_ports (bases_from b n stride)) \<and>
      (\<forall>p \<in> set (needed_ports (bases_from b n stride)). p < b + int n * stride)" if "6 \<le> stride" for b n
  proof (induction n)
    case 0
    then show ?case by (simp add: needed_ports_def bases_from_def)
  next
    case (Suc n)
    have snoc: "needed_ports (bases_from b (Suc n) stride) =
        needed_ports (bases_from b n stride) @ map (\<lambda>k. b + int n * stride + k) [0..5]"
      by (simp add: needed_ports_def bases_from_def PORTS_PER_NODE_def)
    have "distinct (map (\<lambda>k. b + int n * stride + k) [0..5])" by (simp add: distinct_map inj_on_def)
    moreover have "b + int n * stride + 5 < b + int (Suc n) * stride"
      using that by (simp add: distrib_right)
    ultimately show ?case using Suc that unfolding snoc by (fastforce simp: distrib_right)
  qed
  then show ?thesis using i(1,2) svc by (auto simp: bases_from_def)
qed

text \<open>Asking for no block at all fails: the maximum of no ports is taken.\<close>

lemma find_free_none:
  "find_free_base_ports offered free 0 stride = Inl (ValueError ''max() arg is an empty sequence'')"
proof -
  have "[0..<200] = 0 # [Suc 0..<200]" by (rule upt_conv_Cons) simp
  then show ?thesis by (simp add: find_free_base_ports_def bases_from_def needed_ports_def)
qed

end
