(* ===== verification/Config.thy ===== *)
theory Config
  imports PyValue Ports
begin

text \<open>
  \<open>tempo/devnet/config.py\<close>: the devnet configuration read from a YAML mapping. The constructors
  store most values as they come, so the fields are Python values; what the code checks, converts
  or computes with is explicit. IPv4 networks are modelled after the standard library's
  \<open>ipaddress\<close> (text, number or four bytes); IPv6 and (address, mask) pairs are not.
\<close>

section \<open>Validators\<close>

record validator_config =
  vc_host :: pyval
  vc_port :: pyval
  vc_moniker :: pyval
  vc_base_port :: pyval
  vc_p2p_host :: pyval
  vc_rpc_host :: pyval

text \<open>\<open>f"node{port // 10 % 10}"\<close>.\<close>

definition default_moniker :: "pyval \<Rightarrow> pyval result" where
  "default_moniker port =
     (case py_int port of
        Some n \<Rightarrow> Inr (PStr (''node'' @ dec_int (n div 10 mod 10)))
      | None \<Rightarrow> Inl (TypeError ''unsupported operand type(s) for //''))"

definition or_else :: "pyval \<Rightarrow> pyval \<Rightarrow> pyval" where
  "or_else v w = (if v = PNone then w else v)"

definition validator_init ::
    "pyval \<Rightarrow> pyval \<Rightarrow> pyval \<Rightarrow> pyval \<Rightarrow> pyval \<Rightarrow> pyval \<Rightarrow> validator_config result" where
  "validator_init host port moniker base p2p rpc =
     bindE (if truthy moniker then Inr moniker else default_moniker port) (\<lambda>m.
       Inr \<lparr>vc_host = host, vc_port = port, vc_moniker = m, vc_base_port = or_else base port,
            vc_p2p_host = or_else p2p host, vc_rpc_host = or_else rpc (PStr ''0.0.0.0'')\<rparr>)"

definition validator_from_dict :: "pyval \<Rightarrow> validator_config result" where
  "validator_from_dict v =
     bindE (py_get v ''host'' (PStr ''127.0.0.1'')) (\<lambda>host.
     bindE (py_get v ''base_port'' (PInt 8000)) (\<lambda>port_default.
     bindE (py_get v ''port'' port_default) (\<lambda>port.
     bindE (py_get v ''moniker'' (PStr '''')) (\<lambda>moniker.
     bindE (py_get v ''base_port'' PNone) (\<lambda>base.
     bindE (py_get v ''p2p_host'' PNone) (\<lambda>p2p.
     bindE (py_get v ''rpc_host'' PNone) (\<lambda>rpc.
       validator_init host port moniker base p2p rpc)))))))"

definition validator_to_dict :: "validator_config \<Rightarrow> pyval" where
  "validator_to_dict v = PDict (
     [(''host'', vc_host v), (''port'', vc_port v), (''moniker'', vc_moniker v),
      (''base_port'', vc_base_port v)]
     @ (if \<not> py_eq (vc_p2p_host v) (vc_host v) then [(''p2p_host'', vc_p2p_host v)] else [])
     @ (if \<not> py_eq (vc_rpc_host v) (PStr ''0.0.0.0'') then [(''rpc_host'', vc_rpc_host v)] else []))"

definition to_validator_arg :: "validator_config \<Rightarrow> string" where
  "to_validator_arg v = py_str (vc_host v) @ '':'' @ py_str (vc_port v)"

definition addr_str :: "validator_config \<Rightarrow> string" where
  "addr_str v = py_str (vc_host v) @ '':'' @ py_str (vc_port v)"

definition dir_name :: "validator_config \<Rightarrow> pyval" where
  "dir_name v = vc_moniker v"

section \<open>Follow nodes, proxies and public nodes\<close>

record aux_node =
  an_moniker :: pyval
  an_port :: pyval

text \<open>\<open>d["moniker"]\<close>, then \<open>d.get("port", ...)\<close>: the three classes differ in the default port.\<close>

definition aux_from_dict :: "int \<Rightarrow> pyval \<Rightarrow> aux_node result" where
  "aux_from_dict port v =
     (case v of
        PDict d \<Rightarrow>
          (case map_of d ''moniker'' of
             None \<Rightarrow> Inl (KeyError ''moniker'')
           | Some m \<Rightarrow> Inr \<lparr>an_moniker = m, an_port = dict_get d ''port'' (PInt port)\<rparr>)
      | _ \<Rightarrow> Inl (TypeError ''indices must be integers or not subscriptable''))"

definition aux_to_dict :: "aux_node \<Rightarrow> pyval" where
  "aux_to_dict n = PDict [(''moniker'', an_moniker n), (''port'', an_port n)]"

definition follow_node_from_dict :: "pyval \<Rightarrow> aux_node result" where
  "follow_node_from_dict = aux_from_dict 9000"

definition p2p_proxy_from_dict :: "pyval \<Rightarrow> aux_node result" where
  "p2p_proxy_from_dict = aux_from_dict 7000"

definition public_node_from_dict :: "pyval \<Rightarrow> aux_node result" where
  "public_node_from_dict = aux_from_dict 6000"

section \<open>The Docker topology\<close>

record docker_topology =
  dt_topology :: string
  dt_network :: pyval
  dt_subnet :: pyval
  dt_validator_network :: pyval
  dt_public_network :: pyval
  dt_follow_nodes :: "aux_node list"
  dt_p2p_proxies :: "aux_node list"
  dt_public_nodes :: "aux_node list"

definition DEFAULT_DOCKER_SUBNET :: pyval where "DEFAULT_DOCKER_SUBNET = PStr ''10.88.0.0/24''"
definition DEFAULT_DOCKER_PUBLIC_SUBNET :: pyval where
  "DEFAULT_DOCKER_PUBLIC_SUBNET = PStr ''10.89.0.0/24''"
definition DEFAULT_DOCKER_PUBLIC_NETWORK :: pyval where
  "DEFAULT_DOCKER_PUBLIC_NETWORK = PStr ''tempo-public-net''"

text \<open>\<open>[C.from_dict(x) for x in (raw.get(key) or [])]\<close>.\<close>

definition nodes_of :: "(pyval \<Rightarrow> aux_node result) \<Rightarrow> pydict \<Rightarrow> string \<Rightarrow> aux_node list result" where
  "nodes_of f raw key =
     bindE (py_list (py_or (dict_get raw key PNone) (PList []))) (mapE f)"

definition init_docker_topology :: "pydict \<Rightarrow> docker_topology result" where
  "init_docker_topology raw =
     (let network = dict_get raw ''network'' (PStr ''tempo-devnet'');
          subnet = dict_get raw ''subnet'' DEFAULT_DOCKER_SUBNET
      in if map_of raw ''validator_network'' = None \<and> map_of raw ''public_network'' = None
         then Inr \<lparr>dt_topology = ''single'', dt_network = network, dt_subnet = subnet,
                   dt_validator_network = PDict [], dt_public_network = PDict [],
                   dt_follow_nodes = [], dt_p2p_proxies = [], dt_public_nodes = []\<rparr>
         else
           let vn = py_or (dict_get raw ''validator_network'' PNone)
                      (PDict [(''name'', network), (''subnet'', subnet)]);
               pn = py_or (dict_get raw ''public_network'' PNone)
                      (PDict [(''name'', DEFAULT_DOCKER_PUBLIC_NETWORK),
                              (''subnet'', DEFAULT_DOCKER_PUBLIC_SUBNET)])
           in bindE (py_get vn ''name'' (PStr ''tempo-validator-net'')) (\<lambda>name.
              bindE (py_get vn ''subnet'' DEFAULT_DOCKER_SUBNET) (\<lambda>sn.
              bindE (nodes_of follow_node_from_dict raw ''follow_nodes'') (\<lambda>fs.
              bindE (nodes_of p2p_proxy_from_dict raw ''p2p_proxies'') (\<lambda>ps.
              bindE (nodes_of public_node_from_dict raw ''public_nodes'') (\<lambda>ns.
                Inr \<lparr>dt_topology = ''two-network'', dt_network = name, dt_subnet = sn,
                     dt_validator_network = vn, dt_public_network = pn,
                     dt_follow_nodes = fs, dt_p2p_proxies = ps, dt_public_nodes = ns\<rparr>))))))"

definition docker_is_two_network :: "docker_topology \<Rightarrow> bool" where
  "docker_is_two_network t \<longleftrightarrow> dt_topology t = ''two-network''"

definition docker_public_network_name :: "docker_topology \<Rightarrow> pyval result" where
  "docker_public_network_name t =
     py_get (dt_public_network t) ''name'' DEFAULT_DOCKER_PUBLIC_NETWORK"

definition docker_public_subnet_cidr :: "docker_topology \<Rightarrow> pyval result" where
  "docker_public_subnet_cidr t =
     py_get (dt_public_network t) ''subnet'' DEFAULT_DOCKER_PUBLIC_SUBNET"

definition docker_validator_network_name :: "docker_topology \<Rightarrow> pyval result" where
  "docker_validator_network_name t =
     (if docker_is_two_network t then py_get (dt_validator_network t) ''name'' (dt_network t)
      else Inr (dt_network t))"

end
