(* ===== verification/DevnetConfig.thy ===== *)
theory DevnetConfig
  imports Config Ipv4
begin

text \<open>
  \<open>DevnetConfig\<close> of \<open>tempo/devnet/config.py\<close>: reading the mapping with its defaults and checks,
  the addresses of the validators, the arguments of the genesis generator, and writing the mapping
  back. The YAML parser and files are outside: \<open>config_load\<close> is given the parsed document.
\<close>

section \<open>Constants\<close>

definition DEFAULT_MNEMONIC :: string where
  "DEFAULT_MNEMONIC = ''test test test test test test test test test test test junk''"
definition DEFAULT_BACKEND :: string where "DEFAULT_BACKEND = ''tempo''"
definition DEFAULT_TEMPO_BIN :: string where "DEFAULT_TEMPO_BIN = ''tempo''"
definition DEFAULT_TEMPO_XTASK_BIN :: string where "DEFAULT_TEMPO_XTASK_BIN = ''tempo-xtask''"
definition DOCKER_CONSENSUS_P2P_PORT :: int where "DOCKER_CONSENSUS_P2P_PORT = 8000"
definition DOCKER_EXECUTION_P2P_PORT :: int where "DOCKER_EXECUTION_P2P_PORT = 8001"
definition DOCKER_CONSENSUS_METRICS_PORT :: int where "DOCKER_CONSENSUS_METRICS_PORT = 8002"
definition DOCKER_AUTHRPC_PORT :: int where "DOCKER_AUTHRPC_PORT = 8003"
definition DOCKER_HTTP_RPC_PORT :: int where "DOCKER_HTTP_RPC_PORT = 8004"
definition DOCKER_WS_RPC_PORT :: int where "DOCKER_WS_RPC_PORT = 8005"
definition DOCKER_IP_HOST_OCTET_BASE :: int where "DOCKER_IP_HOST_OCTET_BASE = 10"
definition DOCKER_PUBLIC_IP_HOST_OCTET_BASE :: int where "DOCKER_PUBLIC_IP_HOST_OCTET_BASE = 10"

text \<open>The fixed ports inside a container are those that the port functions derive from the first one.\<close>

lemma docker_ports_mirror:
  "consensus_p2p_port DOCKER_CONSENSUS_P2P_PORT = DOCKER_CONSENSUS_P2P_PORT"
  "execution_p2p_port DOCKER_CONSENSUS_P2P_PORT = DOCKER_EXECUTION_P2P_PORT"
  "consensus_metrics_port DOCKER_CONSENSUS_P2P_PORT = DOCKER_CONSENSUS_METRICS_PORT"
  "authrpc_port DOCKER_CONSENSUS_P2P_PORT = DOCKER_AUTHRPC_PORT"
  "http_rpc_port DOCKER_CONSENSUS_P2P_PORT = DOCKER_HTTP_RPC_PORT"
  "ws_rpc_port DOCKER_CONSENSUS_P2P_PORT = DOCKER_WS_RPC_PORT"
  by code_simp+

definition HARDFORK_ATTRS :: "string list" where
  "HARDFORK_ATTRS = map (\<lambda>i. ''t'' @ dec_nat i @ ''_time'') [0..<9]"

section \<open>Reading\<close>

record devnet_config =
  dc_chain_id :: pyval
  dc_accounts :: pyval
  dc_epoch_length :: pyval
  dc_gas_limit :: pyval
  dc_seed :: pyval
  dc_mnemonic :: pyval
  dc_backend :: pyval
  dc_tempo_bin :: pyval
  dc_tempo_xtask_bin :: pyval
  dc_no_dkg_in_genesis :: pyval
  dc_no_extra_tokens :: pyval
  dc_no_pairwise_liquidity :: pyval
  dc_hardforks :: "pyval list"
  dc_patch_genesis :: pydict
  dc_patch_reth :: pydict
  dc_patch_node_flags :: "string list"
  dc_patch_genesis_flags :: "string list"
  dc_docker_image :: pyval
  dc_docker :: docker_topology
  dc_validators :: "validator_config list"

fun text_of :: "pyval \<Rightarrow> string result" where
  "text_of (PStr s) = Inr s"
| "text_of v = Inl (TypeError ''must be a list of strings'')"

text \<open>\<open>_flags\<close>.\<close>

definition flags_of :: "pydict \<Rightarrow> string \<Rightarrow> string list result" where
  "flags_of data key =
     (case py_or (dict_get data key PNone) (PList []) of
        PList xs \<Rightarrow> mapE text_of xs
      | _ \<Rightarrow> Inl (TypeError ''must be a list of strings''))"

text \<open>\<open>data.get(key) or {}\<close>, which has to be a mapping.\<close>

definition mapping_of :: "pydict \<Rightarrow> string \<Rightarrow> pydict result" where
  "mapping_of data key =
     (case py_or (dict_get data key PNone) (PDict []) of
        PDict d \<Rightarrow> Inr d
      | _ \<Rightarrow> Inl (TypeError ''must be a mapping (dict)''))"

definition default_bin :: "pyval \<Rightarrow> pyval" where
  "default_bin backend =
     (if py_eq backend (PStr DEFAULT_BACKEND) then PStr DEFAULT_TEMPO_BIN else backend)"

definition default_xtask :: "pyval \<Rightarrow> pyval" where
  "default_xtask backend =
     (if py_eq backend (PStr DEFAULT_BACKEND) then PStr DEFAULT_TEMPO_XTASK_BIN
      else PStr (py_str backend @ ''-xtask''))"

definition default_validators :: "pyval list" where
  "default_validators =
     map (\<lambda>(port, name). PDict [(''host'', PStr ''127.0.0.1''), (''port'', PInt port),
                                (''moniker'', PStr name)])
       [(8000, ''node0''), (8010, ''node1''), (8020, ''node2''), (8030, ''node3'')]"

definition config_init :: "pyval \<Rightarrow> devnet_config result" where
  "config_init v =
     (case v of
        PDict data \<Rightarrow>
          (let backend = dict_get data ''backend'' (PStr DEFAULT_BACKEND) in
           bindE (mapping_of data ''patch_genesis'') (\<lambda>genesis.
           bindE (mapping_of data ''patch_reth'') (\<lambda>reth.
           bindE (flags_of data ''patch_node_flags'') (\<lambda>node_flags.
           bindE (flags_of data ''patch_genesis_flags'') (\<lambda>genesis_flags.
           bindE (mapping_of data ''docker'') (\<lambda>docker_raw.
           bindE (init_docker_topology docker_raw) (\<lambda>topology.
           bindE (let raw = dict_get data ''validators'' (PList [])
                  in if truthy raw then py_list raw else Inr default_validators) (\<lambda>raw.
           bindE (mapE validator_from_dict raw) (\<lambda>validators.
             Inr \<lparr>dc_chain_id = dict_get data ''chain_id'' (PInt 1337),
                  dc_accounts = dict_get data ''accounts'' (PInt 10000),
                  dc_epoch_length = dict_get data ''epoch_length'' (PInt 100),
                  dc_gas_limit = dict_get data ''gas_limit'' (PInt 500000000),
                  dc_seed = dict_get data ''seed'' PNone,
                  dc_mnemonic = dict_get data ''mnemonic'' (PStr DEFAULT_MNEMONIC),
                  dc_backend = backend,
                  dc_tempo_bin = dict_get data ''tempo_bin'' (default_bin backend),
                  dc_tempo_xtask_bin = dict_get data ''tempo_xtask_bin'' (default_xtask backend),
                  dc_no_dkg_in_genesis = dict_get data ''no_dkg_in_genesis'' (PBool False),
                  dc_no_extra_tokens = dict_get data ''no_extra_tokens'' (PBool False),
                  dc_no_pairwise_liquidity = dict_get data ''no_pairwise_liquidity'' (PBool False),
                  dc_hardforks = map (\<lambda>hf. dict_get data hf (PInt 0)) HARDFORK_ATTRS,
                  dc_patch_genesis = genesis, dc_patch_reth = reth,
                  dc_patch_node_flags = node_flags, dc_patch_genesis_flags = genesis_flags,
                  dc_docker_image =
                    dict_get docker_raw ''image'' (PStr ''ghcr.io/tempoxyz/tempo:latest''),
                  dc_docker = topology, dc_validators = validators\<rparr>)))))))))
      | _ \<Rightarrow> Inl (AttributeError ''object has no attribute get''))"

text \<open>\<open>cls(yaml.safe_load(f) or {})\<close>.\<close>

definition config_load :: "pyval \<Rightarrow> devnet_config result" where
  "config_load parsed = config_init (py_or parsed (PDict []))"

text \<open>\<open>DevnetConfig.ephemeral\<close>, given the base ports that were found.\<close>

definition ephemeral_data ::
    "int list \<Rightarrow> pyval \<Rightarrow> pyval \<Rightarrow> pyval \<Rightarrow> pyval \<Rightarrow> pyval \<Rightarrow> pydict" where
  "ephemeral_data bases backend chain_id host node_bin xtask_bin =
     [(''backend'', backend), (''chain_id'', chain_id),
      (''validators'', PList (map (\<lambda>(i, b).
          PDict [(''host'', host), (''port'', PInt b), (''moniker'', PStr (''node'' @ dec_nat i)),
                 (''rpc_host'', host)]) (zip [0..<length bases] bases)))]
     @ (if truthy node_bin then [(''tempo_bin'', node_bin)] else [])
     @ (if truthy xtask_bin then [(''tempo_xtask_bin'', xtask_bin)] else [])"

definition ephemeral ::
    "(nat \<Rightarrow> int) \<Rightarrow> (nat \<Rightarrow> int \<Rightarrow> bool) \<Rightarrow> nat \<Rightarrow> pyval \<Rightarrow> pyval \<Rightarrow> pyval \<Rightarrow> pyval \<Rightarrow> pyval
       \<Rightarrow> devnet_config result" where
  "ephemeral offered free n backend chain_id host node_bin xtask_bin =
     bindE (find_free_base_ports offered free n 10) (\<lambda>bases.
       config_init (PDict (ephemeral_data bases backend chain_id host node_bin xtask_bin)))"


section \<open>Addresses\<close>

definition validators_arg :: "devnet_config \<Rightarrow> string" where
  "validators_arg c = join_with '','' (map to_validator_arg (dc_validators c))"

text \<open>
  \<open>str(ip_network(subnet, strict=False).network_address + k + index)\<close>; \<open>other_ip\<close> is what the
  expression gives for a subnet that is not an IPv4 network.
\<close>

definition subnet_ip ::
    "(pyval \<Rightarrow> int \<Rightarrow> int \<Rightarrow> string result) \<Rightarrow> pyval \<Rightarrow> int \<Rightarrow> int \<Rightarrow> string result" where
  "subnet_ip other_ip subnet k index =
     (case ipv4_network subnet of
        Some (base, p) \<Rightarrow>
          bindE (ipv4_add base k) (\<lambda>a. bindE (ipv4_add a index) (\<lambda>b. Inr (ipv4_text b)))
      | None \<Rightarrow> other_ip subnet k index)"

definition docker_ip ::
    "(pyval \<Rightarrow> int \<Rightarrow> int \<Rightarrow> string result) \<Rightarrow> devnet_config \<Rightarrow> int \<Rightarrow> string result" where
  "docker_ip other_ip c index =
     subnet_ip other_ip (dt_subnet (dc_docker c)) DOCKER_IP_HOST_OCTET_BASE index"

definition docker_validator_addr ::
    "(pyval \<Rightarrow> int \<Rightarrow> int \<Rightarrow> string result) \<Rightarrow> devnet_config \<Rightarrow> int \<Rightarrow> string result" where
  "docker_validator_addr other_ip c index =
     bindE (docker_ip other_ip c index) (\<lambda>ip.
       Inr (ip @ '':'' @ dec_int DOCKER_CONSENSUS_P2P_PORT))"

definition docker_validators_arg ::
    "(pyval \<Rightarrow> int \<Rightarrow> int \<Rightarrow> string result) \<Rightarrow> devnet_config \<Rightarrow> string result" where
  "docker_validators_arg other_ip c =
     bindE (mapE (\<lambda>i. docker_validator_addr other_ip c (int i)) [0..<length (dc_validators c)])
       (\<lambda>as. Inr (join_with '','' as))"

definition docker_public_ip ::
    "(pyval \<Rightarrow> int \<Rightarrow> int \<Rightarrow> string result) \<Rightarrow> devnet_config \<Rightarrow> int \<Rightarrow> string result" where
  "docker_public_ip other_ip c index =
     bindE (docker_public_subnet_cidr (dc_docker c)) (\<lambda>subnet.
       subnet_ip other_ip subnet DOCKER_PUBLIC_IP_HOST_OCTET_BASE index)"

section \<open>Writing\<close>

text \<open>\<open>s.replace("_", "-")\<close>.\<close>

definition dashes :: "string \<Rightarrow> string" where
  "dashes s = map (\<lambda>c. if c = CHR ''_'' then CHR ''-'' else c) s"

text \<open>The arguments; the mnemonic is passed on as it is.\<close>

definition to_genesis_args :: "devnet_config \<Rightarrow> string option \<Rightarrow> pyval list" where
  "to_genesis_args c override =
     [PStr ''--chain-id'', PStr (py_str (dc_chain_id c)),
      PStr ''--accounts'', PStr (py_str (dc_accounts c)),
      PStr ''--epoch-length'', PStr (py_str (dc_epoch_length c)),
      PStr ''--gas-limit'', PStr (py_str (dc_gas_limit c)),
      PStr ''--mnemonic'', dc_mnemonic c,
      PStr ''--validators'',
        (case override of
           Some a \<Rightarrow> PStr (if a = [] then validators_arg c else a)
         | None \<Rightarrow> PStr (validators_arg c))]
     @ (if dc_seed c \<noteq> PNone then [PStr ''--seed'', PStr (py_str (dc_seed c))] else [])
     @ (if truthy (dc_no_dkg_in_genesis c) then [PStr ''--no-dkg-in-genesis''] else [])
     @ (if truthy (dc_no_extra_tokens c) then [PStr ''--no-extra-tokens''] else [])
     @ (if truthy (dc_no_pairwise_liquidity c) then [PStr ''--no-pairwise-liquidity''] else [])
     @ concat (map (\<lambda>(hf, v). if \<not> py_eq v (PInt 0)
                              then [PStr (''--'' @ dashes hf), PStr (py_str v)] else [])
                 (zip HARDFORK_ATTRS (dc_hardforks c)))
     @ map PStr (dc_patch_genesis_flags c)"

text \<open>Assignments \<open>d[k] = v\<close> of fresh keys, each under its condition, in order.\<close>

definition entries :: "(bool \<times> string \<times> pyval) list \<Rightarrow> pydict" where
  "entries es = map snd (filter fst es)"

definition docker_to_dict :: "pyval \<Rightarrow> docker_topology \<Rightarrow> pyval result" where
  "docker_to_dict img t =
     (if docker_is_two_network t then
        bindE (docker_validator_network_name t) (\<lambda>vname.
        bindE (docker_public_network_name t) (\<lambda>pname.
        bindE (docker_public_subnet_cidr t) (\<lambda>psubnet.
          Inr (PDict (entries
            [(True, ''image'', img),
             (True, ''validator_network'', PDict [(''name'', vname), (''subnet'', dt_subnet t)]),
             (True, ''public_network'', PDict [(''name'', pname), (''subnet'', psubnet)]),
             (dt_follow_nodes t \<noteq> [], ''follow_nodes'', PList (map aux_to_dict (dt_follow_nodes t))),
             (dt_p2p_proxies t \<noteq> [], ''p2p_proxies'', PList (map aux_to_dict (dt_p2p_proxies t))),
             (dt_public_nodes t \<noteq> [], ''public_nodes'',
                PList (map aux_to_dict (dt_public_nodes t)))])))))
      else Inr (PDict [(''image'', img), (''network'', dt_network t), (''subnet'', dt_subnet t)]))"

definition config_to_dict :: "devnet_config \<Rightarrow> pyval result" where
  "config_to_dict c =
     bindE (docker_to_dict (dc_docker_image c) (dc_docker c)) (\<lambda>docker.
       Inr (PDict (entries (
         [(True, ''chain_id'', dc_chain_id c), (True, ''accounts'', dc_accounts c),
          (True, ''epoch_length'', dc_epoch_length c), (True, ''gas_limit'', dc_gas_limit c),
          (True, ''mnemonic'', dc_mnemonic c),
          (True, ''validators'', PList (map validator_to_dict (dc_validators c))),
          (\<not> py_eq (dc_backend c) (PStr DEFAULT_BACKEND), ''backend'', dc_backend c),
          (dc_seed c \<noteq> PNone, ''seed'', dc_seed c),
          (truthy (dc_no_dkg_in_genesis c), ''no_dkg_in_genesis'', PBool True),
          (truthy (dc_no_extra_tokens c), ''no_extra_tokens'', PBool True),
          (truthy (dc_no_pairwise_liquidity c), ''no_pairwise_liquidity'', PBool True)]
         @ map (\<lambda>(hf, v). (\<not> py_eq v (PInt 0), hf, v)) (zip HARDFORK_ATTRS (dc_hardforks c))
         @ [(dc_patch_genesis c \<noteq> [], ''patch_genesis'', PDict (dc_patch_genesis c)),
            (dc_patch_reth c \<noteq> [], ''patch_reth'', PDict (dc_patch_reth c)),
            (dc_patch_node_flags c \<noteq> [], ''patch_node_flags'',
               PList (map PStr (dc_patch_node_flags c))),
            (dc_patch_genesis_flags c \<noteq> [], ''patch_genesis_flags'',
               PList (map PStr (dc_patch_genesis_flags c))),
            (True, ''docker'', docker)]))))"


section \<open>The round trip\<close>

lemma entries_get:
  "dict_get (entries []) k x = x"
  "dict_get (entries ((c, k', v) # es)) k x = (if c \<and> k = k' then v else dict_get (entries es) k x)"
  by (auto simp: entries_def)

lemma entries_map_of:
  "map_of (entries []) k = None"
  "map_of (entries ((c, k', v) # es)) k = (if c \<and> k = k' then Some v else map_of (entries es) k)"
  by (auto simp: entries_def)

lemma aux_roundtrip: "aux_from_dict p (aux_to_dict n) = Inr n"
  by (simp add: aux_from_dict_def aux_to_dict_def)

lemmas aux_from_dict_defs =
  follow_node_from_dict_def p2p_proxy_from_dict_def public_node_from_dict_def

lemma mapE_map_id: "(\<And>x. x \<in> set xs \<Longrightarrow> f (g x) = Inr x) \<Longrightarrow> mapE f (map g xs) = Inr xs"
  by (induction xs) auto

lemma aux_nodes_roundtrip: "mapE (aux_from_dict p) (map aux_to_dict ns) = Inr ns"
  by (rule mapE_map_id) (rule aux_roundtrip)

lemma text_of_roundtrip: "mapE text_of (map PStr ss) = Inr ss"
  by (rule mapE_map_id) simp

text \<open>What a validator that was read looks like, and reading what it writes.\<close>

lemma validator_init_shape:
  assumes "validator_init host port moniker base p2p rpc = Inr w"
  shows "truthy (vc_moniker w) \<and> vc_rpc_host w \<noteq> PNone \<and>
     (vc_base_port w = PNone \<longrightarrow> vc_port w = PNone) \<and> (vc_p2p_host w = PNone \<longrightarrow> vc_host w = PNone)"
proof -
  from assms obtain m where m: "(if truthy moniker then Inr moniker else default_moniker port) = Inr m"
    and w: "w = \<lparr>vc_host = host, vc_port = port, vc_moniker = m, vc_base_port = or_else base port,
            vc_p2p_host = or_else p2p host, vc_rpc_host = or_else rpc (PStr ''0.0.0.0'')\<rparr>"
    by (auto simp: validator_init_def bindE_Inr_conv)
  from m have "truthy m"
    by (auto simp: default_moniker_def split: if_splits option.splits)
  with w show ?thesis by (simp add: or_else_def)
qed

lemma validator_from_dict_PDict:
  "validator_from_dict (PDict d) =
     validator_init (dict_get d ''host'' (PStr ''127.0.0.1''))
       (dict_get d ''port'' (dict_get d ''base_port'' (PInt 8000))) (dict_get d ''moniker'' (PStr []))
       (dict_get d ''base_port'' PNone) (dict_get d ''p2p_host'' PNone) (dict_get d ''rpc_host'' PNone)"
  by (simp add: validator_from_dict_def)

lemma validator_from_dict_init:
  "validator_from_dict v = Inr w \<Longrightarrow>
     \<exists>host port moniker base p2p rpc. validator_init host port moniker base p2p rpc = Inr w"
  by (cases v) (simp_all add: validator_from_dict_PDict, simp_all add: validator_from_dict_def py_get_def, blast)

lemma validator_from_dict_shape:
  "validator_from_dict v = Inr w \<Longrightarrow>
     truthy (vc_moniker w) \<and> vc_rpc_host w \<noteq> PNone \<and>
     (vc_base_port w = PNone \<longrightarrow> vc_port w = PNone) \<and> (vc_p2p_host w = PNone \<longrightarrow> vc_host w = PNone)"
  using validator_from_dict_init validator_init_shape by metis

lemma py_eq_PStr [simp]: "py_eq v (PStr s) \<longleftrightarrow> v = PStr s"
  by (cases v) auto

lemma validator_roundtrip:
  assumes "validator_from_dict v = Inr w" "vc_host w = PStr h"
  shows "validator_from_dict (validator_to_dict w) = Inr w"
  using validator_from_dict_shape [OF assms(1)] assms(2)
  by (cases w) (auto simp: validator_to_dict_def validator_from_dict_PDict validator_init_def or_else_def)


text \<open>What can be asked of a topology, errors included.\<close>

definition topology_view :: "docker_topology \<Rightarrow>
    (string \<times> pyval \<times> pyval) \<times> (pyval result \<times> pyval result \<times> pyval result) \<times>
    (aux_node list \<times> aux_node list \<times> aux_node list)" where
  "topology_view t =
     ((dt_topology t, dt_network t, dt_subnet t),
      (docker_validator_network_name t, docker_public_network_name t, docker_public_subnet_cidr t),
      (dt_follow_nodes t, dt_p2p_proxies t, dt_public_nodes t))"

lemma nodes_of_entry:
  "nodes_of (aux_from_dict p) raw key = Inr ns"
  if "dict_get raw key PNone = (if ns \<noteq> [] then PList (map aux_to_dict ns) else PNone)"
  using that by (simp add: nodes_of_def py_or_def aux_nodes_roundtrip)

lemma docker_roundtrip_single:
  assumes init: "init_docker_topology raw = Inr t" and one: "\<not> docker_is_two_network t"
    and out: "docker_to_dict img t = Inr d"
  shows "\<exists>raw'. d = PDict raw' \<and> raw' \<noteq> [] \<and> dict_get raw' ''image'' v = img \<and>
    init_docker_topology raw' = Inr t"
proof -
  from init one have t: "t = \<lparr>dt_topology = ''single'', dt_network = dt_network t, dt_subnet = dt_subnet t,
                   dt_validator_network = PDict [], dt_public_network = PDict [],
                   dt_follow_nodes = [], dt_p2p_proxies = [], dt_public_nodes = []\<rparr>"
    by (auto simp: init_docker_topology_def Let_def bindE_Inr_conv docker_is_two_network_def split: if_splits)
  from out one have "d = PDict [(''image'', img), (''network'', dt_network t), (''subnet'', dt_subnet t)]"
    by (simp add: docker_to_dict_def)
  then show ?thesis by (subst t) (simp add: init_docker_topology_def)
qed

lemma init_two_network:
  assumes "init_docker_topology raw = Inr t" "docker_is_two_network t"
  shows "\<exists>vd. dt_validator_network t = PDict vd \<and> dt_network t = dict_get vd ''name'' (PStr ''tempo-validator-net'')
    \<and> dt_topology t = ''two-network''"
  using assms
  by (auto simp: init_docker_topology_def docker_is_two_network_def Let_def bindE_Inr_conv py_get_def
      split: if_splits pyval.splits)

lemma docker_roundtrip_two:
  assumes init: "init_docker_topology raw = Inr t" and two: "docker_is_two_network t"
    and out: "docker_to_dict img t = Inr d"
  shows "\<exists>raw' t'. d = PDict raw' \<and> raw' \<noteq> [] \<and> dict_get raw' ''image'' v = img \<and>
    init_docker_topology raw' = Inr t' \<and> topology_view t' = topology_view t"
proof -
  from init_two_network [OF init two] obtain vd where vn: "dt_validator_network t = PDict vd"
    "dt_network t = dict_get vd ''name'' (PStr ''tempo-validator-net'')" "dt_topology t = ''two-network''" by blast
  from out two obtain vname pname psubnet where
    get: "docker_validator_network_name t = Inr vname" "docker_public_network_name t = Inr pname"
      "docker_public_subnet_cidr t = Inr psubnet"
    by (auto simp: docker_to_dict_def bindE_Inr_conv)
  then have vname: "vname = dt_network t"
    using vn two by (auto simp: docker_validator_network_name_def dict_get_def split: option.splits)
  define raw' where "raw' = entries
            [(True, ''image'', img),
             (True, ''validator_network'', PDict [(''name'', vname), (''subnet'', dt_subnet t)]),
             (True, ''public_network'', PDict [(''name'', pname), (''subnet'', psubnet)]),
             (dt_follow_nodes t \<noteq> [], ''follow_nodes'', PList (map aux_to_dict (dt_follow_nodes t))),
             (dt_p2p_proxies t \<noteq> [], ''p2p_proxies'', PList (map aux_to_dict (dt_p2p_proxies t))),
             (dt_public_nodes t \<noteq> [], ''public_nodes'',
                PList (map aux_to_dict (dt_public_nodes t)))]"
  have d: "d = PDict raw'" using out two get by (simp add: docker_to_dict_def raw'_def)
  have nodes: "nodes_of (aux_from_dict p) raw' ''follow_nodes'' = Inr (dt_follow_nodes t)"
      "nodes_of (aux_from_dict p) raw' ''p2p_proxies'' = Inr (dt_p2p_proxies t)"
      "nodes_of (aux_from_dict p) raw' ''public_nodes'' = Inr (dt_public_nodes t)" for p
    by (rule nodes_of_entry, simp add: raw'_def entries_get)+
  have keys: "map_of raw' ''validator_network'' \<noteq> None"
      "dict_get raw' ''validator_network'' PNone = PDict [(''name'', vname), (''subnet'', dt_subnet t)]"
      "dict_get raw' ''public_network'' PNone = PDict [(''name'', pname), (''subnet'', psubnet)]"
      "dict_get raw' ''image'' v = img" "raw' \<noteq> []"
    by (simp_all add: raw'_def entries_get entries_map_of, simp add: entries_def)
  have "init_docker_topology raw' = Inr \<lparr>dt_topology = ''two-network'', dt_network = vname,
      dt_subnet = dt_subnet t, dt_validator_network = PDict [(''name'', vname), (''subnet'', dt_subnet t)],
      dt_public_network = PDict [(''name'', pname), (''subnet'', psubnet)],
      dt_follow_nodes = dt_follow_nodes t, dt_p2p_proxies = dt_p2p_proxies t,
      dt_public_nodes = dt_public_nodes t\<rparr>" (is "_ = Inr ?t'")
    using keys by (simp add: init_docker_topology_def Let_def aux_from_dict_defs nodes py_or_def)
  moreover have "topology_view ?t' = topology_view t"
    using vn vname get
    by (simp add: topology_view_def docker_is_two_network_def docker_validator_network_name_def
        docker_public_network_name_def docker_public_subnet_cidr_def)
  ultimately show ?thesis using d keys by blast
qed

lemma docker_roundtrip:
  assumes "init_docker_topology raw = Inr t" "docker_to_dict img t = Inr d"
  shows "\<exists>raw' t'. d = PDict raw' \<and> raw' \<noteq> [] \<and> dict_get raw' ''image'' v = img \<and>
    init_docker_topology raw' = Inr t' \<and> topology_view t' = topology_view t"
  using docker_roundtrip_single [OF assms(1) _ assms(2), of v] docker_roundtrip_two [OF assms(1) _ assms(2), of v]
  by blast


text \<open>
  The types the annotations promise, where the round trip needs them: flags are booleans, a hardfork
  time equal to zero is the number zero, hosts are text.
\<close>

definition annotated :: "devnet_config \<Rightarrow> bool" where
  "annotated c \<longleftrightarrow>
     list_all (\<lambda>v. v = PBool True \<or> v = PBool False)
       [dc_no_dkg_in_genesis c, dc_no_extra_tokens c, dc_no_pairwise_liquidity c] \<and>
     list_all (\<lambda>v. py_eq v (PInt 0) \<longrightarrow> v = PInt 0) (dc_hardforks c) \<and>
     list_all (\<lambda>w. case vc_host w of PStr h \<Rightarrow> True | _ \<Rightarrow> False) (dc_validators c)"

lemma hardfork_names: "HARDFORK_ATTRS = [''t0_time'', ''t1_time'', ''t2_time'', ''t3_time'', ''t4_time'',
    ''t5_time'', ''t6_time'', ''t7_time'', ''t8_time'']"
  by code_simp

lemma validators_nonempty:
  "(if truthy raw then py_list raw else Inr default_validators) = Inr vs \<Longrightarrow> vs \<noteq> []"
  by (auto simp: py_list_def truthy_def default_validators_def split: pyval.splits if_splits)

lemma config_init_shape:
  assumes "config_init x = Inr c"
  shows "\<exists>raw. init_docker_topology raw = Inr (dc_docker c) \<and> length (dc_hardforks c) = 9 \<and>
    dc_validators c \<noteq> [] \<and> (\<forall>w \<in> set (dc_validators c). \<exists>v. validator_from_dict v = Inr w)"
proof (cases x)
  case (PDict data)
  with assms obtain docker topology raw validators where
    topo: "init_docker_topology docker = Inr topology"
    and raw: "(let raw = dict_get data ''validators'' (PList [])
                  in if truthy raw then py_list raw else Inr default_validators) = Inr raw"
    and vs: "mapE validator_from_dict raw = Inr validators"
    and c: "dc_docker c = topology" "dc_validators c = validators"
      "dc_hardforks c = map (\<lambda>hf. dict_get data hf (PInt 0)) HARDFORK_ATTRS"
    by (auto simp: config_init_def Let_def bindE_Inr_conv simp del: map_map)
  from raw have "raw \<noteq> []" using validators_nonempty by (auto simp: Let_def)
  with vs have "validators \<noteq> []" by (metis length_0_conv mapE_length)
  with topo c mapE_set [OF vs] show ?thesis by (auto simp: hardfork_names)
qed (use assms in \<open>simp_all add: config_init_def\<close>)

lemma flags_of_entry:
  "flags_of data key = Inr ss"
  if "dict_get data key PNone = (if ss \<noteq> [] then PList (map PStr ss) else PNone)"
  using that by (simp add: flags_of_def py_or_def text_of_roundtrip)

lemma mapping_of_entry:
  "mapping_of data key = Inr d"
  if "dict_get data key PNone = (if d \<noteq> [] then PDict d else PNone)"
  using that by (simp add: mapping_of_def py_or_def)

text \<open>The entries that are written, looked up by the keys that are read.\<close>

lemma dict_get_entries_append:
  "dict_get (entries (xs @ ys)) k x = dict_get (entries xs) k (dict_get (entries ys) k x)"
  by (auto simp: entries_def dict_get_def map_add_def split: option.splits)

lemma dict_get_entries_absent: "k \<notin> (\<lambda>e. fst (snd e)) ` set es \<Longrightarrow> dict_get (entries es) k x = x"
  by (induction es) (auto simp: entries_def dict_get_def split: option.splits)

definition hardfork_entries :: "pyval list \<Rightarrow> (bool \<times> string \<times> pyval) list" where
  "hardfork_entries hs = map (\<lambda>(hf, v). (\<not> py_eq v (PInt 0), hf, v)) (zip HARDFORK_ATTRS hs)"

lemma hardfork_entries_absent:
  "k \<notin> set HARDFORK_ATTRS \<Longrightarrow> dict_get (entries (hardfork_entries hs)) k x = x"
  by (rule dict_get_entries_absent) (auto simp: hardfork_entries_def dest: set_zip_leftD)

lemma list9: "length hs = 9 \<Longrightarrow> \<exists>a b c d e f g h i. hs = [a, b, c, d, e, f, g, h, i]"
  by (simp add: numeral_eq_Suc length_Suc_conv) blast

lemma hardfork_entries_get:
  assumes "length hs = 9" "list_all (\<lambda>v. py_eq v (PInt 0) \<longrightarrow> v = PInt 0) hs"
  shows "map (\<lambda>hf. dict_get (entries (hardfork_entries hs)) hf (PInt 0)) HARDFORK_ATTRS = hs"
proof -
  from list9 [OF assms(1)] obtain a b c d e f g h i where hs: "hs = [a, b, c, d, e, f, g, h, i]"
    by blast
  have w: "(if py_eq v (PInt 0) then PInt 0 else v) = v" if "v \<in> set hs" for v
    using assms(2) that by (auto simp: list_all_iff)
  have "map (\<lambda>hf. dict_get (entries (hardfork_entries hs)) hf (PInt 0)) HARDFORK_ATTRS =
      map (\<lambda>v. if py_eq v (PInt 0) then PInt 0 else v) hs"
    by (simp add: hs hardfork_entries_def hardfork_names entries_get if_not_P cong: if_cong)
  also have "\<dots> = hs" by (rule map_idI) (rule w)
  finally show ?thesis .
qed


definition head_entries :: "devnet_config \<Rightarrow> (bool \<times> string \<times> pyval) list" where
  "head_entries c =
         [(True, ''chain_id'', dc_chain_id c), (True, ''accounts'', dc_accounts c),
          (True, ''epoch_length'', dc_epoch_length c), (True, ''gas_limit'', dc_gas_limit c),
          (True, ''mnemonic'', dc_mnemonic c),
          (True, ''validators'', PList (map validator_to_dict (dc_validators c))),
          (\<not> py_eq (dc_backend c) (PStr DEFAULT_BACKEND), ''backend'', dc_backend c),
          (dc_seed c \<noteq> PNone, ''seed'', dc_seed c),
          (truthy (dc_no_dkg_in_genesis c), ''no_dkg_in_genesis'', PBool True),
          (truthy (dc_no_extra_tokens c), ''no_extra_tokens'', PBool True),
          (truthy (dc_no_pairwise_liquidity c), ''no_pairwise_liquidity'', PBool True)]"

definition tail_entries :: "devnet_config \<Rightarrow> pyval \<Rightarrow> (bool \<times> string \<times> pyval) list" where
  "tail_entries c docker =
           [(dc_patch_genesis c \<noteq> [], ''patch_genesis'', PDict (dc_patch_genesis c)),
            (dc_patch_reth c \<noteq> [], ''patch_reth'', PDict (dc_patch_reth c)),
            (dc_patch_node_flags c \<noteq> [], ''patch_node_flags'',
               PList (map PStr (dc_patch_node_flags c))),
            (dc_patch_genesis_flags c \<noteq> [], ''patch_genesis_flags'',
               PList (map PStr (dc_patch_genesis_flags c))),
            (True, ''docker'', docker)]"

definition written :: "devnet_config \<Rightarrow> pyval \<Rightarrow> pydict" where
  "written c docker =
     entries (head_entries c @ hardfork_entries (dc_hardforks c) @ tail_entries c docker)"

lemma config_to_dict_written:
  "config_to_dict c =
     bindE (docker_to_dict (dc_docker_image c) (dc_docker c)) (\<lambda>docker. Inr (PDict (written c docker)))"
  by (simp add: config_to_dict_def written_def head_entries_def hardfork_entries_def tail_entries_def)

lemma written_get:
  "k \<notin> set HARDFORK_ATTRS \<Longrightarrow>
     dict_get (written c docker) k x =
       dict_get (entries (head_entries c)) k (dict_get (entries (tail_entries c docker)) k x)"
  by (simp add: written_def dict_get_entries_append hardfork_entries_absent)

lemma written_plain:
  "dict_get (written c d) ''chain_id'' x = dc_chain_id c"
  "dict_get (written c d) ''accounts'' x = dc_accounts c"
  "dict_get (written c d) ''epoch_length'' x = dc_epoch_length c"
  "dict_get (written c d) ''gas_limit'' x = dc_gas_limit c"
  "dict_get (written c d) ''mnemonic'' x = dc_mnemonic c"
  "dict_get (written c d) ''validators'' x = PList (map validator_to_dict (dc_validators c))"
  "dict_get (written c d) ''backend'' (PStr DEFAULT_BACKEND) = dc_backend c"
  "dict_get (written c d) ''seed'' PNone = dc_seed c"
  "dict_get (written c d) ''tempo_bin'' x = x"
  "dict_get (written c d) ''tempo_xtask_bin'' x = x"
  "dict_get (written c d) ''docker'' x = d"
  by (simp_all add: written_get hardfork_names)
     (simp_all add: head_entries_def tail_entries_def entries_get)

lemma written_flags:
  "dc_no_dkg_in_genesis c = PBool b \<Longrightarrow>
     dict_get (written c d) ''no_dkg_in_genesis'' (PBool False) = dc_no_dkg_in_genesis c"
  "dc_no_extra_tokens c = PBool b \<Longrightarrow>
     dict_get (written c d) ''no_extra_tokens'' (PBool False) = dc_no_extra_tokens c"
  "dc_no_pairwise_liquidity c = PBool b \<Longrightarrow>
     dict_get (written c d) ''no_pairwise_liquidity'' (PBool False) = dc_no_pairwise_liquidity c"
  by (simp_all add: written_get hardfork_names)
     (simp_all add: head_entries_def tail_entries_def entries_get)

lemma written_parts:
  "mapping_of (written c d) ''patch_genesis'' = Inr (dc_patch_genesis c)"
  "mapping_of (written c d) ''patch_reth'' = Inr (dc_patch_reth c)"
  "flags_of (written c d) ''patch_node_flags'' = Inr (dc_patch_node_flags c)"
  "flags_of (written c d) ''patch_genesis_flags'' = Inr (dc_patch_genesis_flags c)"
  by (rule mapping_of_entry flags_of_entry,
      simp add: written_get hardfork_names, simp add: head_entries_def tail_entries_def entries_get)+

lemma written_hardforks:
  assumes "length (dc_hardforks c) = 9"
    "list_all (\<lambda>v. py_eq v (PInt 0) \<longrightarrow> v = PInt 0) (dc_hardforks c)"
  shows "map (\<lambda>hf. dict_get (written c d) hf (PInt 0)) HARDFORK_ATTRS = dc_hardforks c"
proof -
  have keys: "map (\<lambda>e. fst (snd e)) (head_entries c) = [''chain_id'', ''accounts'', ''epoch_length'',
        ''gas_limit'', ''mnemonic'', ''validators'', ''backend'', ''seed'', ''no_dkg_in_genesis'',
        ''no_extra_tokens'', ''no_pairwise_liquidity'']"
      "map (\<lambda>e. fst (snd e)) (tail_entries c d) = [''patch_genesis'', ''patch_reth'',
        ''patch_node_flags'', ''patch_genesis_flags'', ''docker'']"
    by (simp_all add: head_entries_def tail_entries_def)
  have absent: "list_all (\<lambda>hf. hf \<notin> set (map (\<lambda>e. fst (snd e)) (head_entries c)) \<and>
      hf \<notin> set (map (\<lambda>e. fst (snd e)) (tail_entries c d))) HARDFORK_ATTRS"
    unfolding keys by code_simp
  have "dict_get (written c d) hf (PInt 0) =
      dict_get (entries (hardfork_entries (dc_hardforks c))) hf (PInt 0)" if "hf \<in> set HARDFORK_ATTRS" for hf
  proof -
    have "dict_get (entries (head_entries c)) hf x = x" "dict_get (entries (tail_entries c d)) hf x = x" for x
      using that absent by (auto simp: list_all_iff intro!: dict_get_entries_absent)
    then show ?thesis by (simp add: written_def dict_get_entries_append)
  qed
  then show ?thesis using hardfork_entries_get [OF assms] by (simp cong: map_cong)
qed


text \<open>
  C26. A configuration survives being written and read: reading the mapping \<open>to_dict\<close> gives succeeds
  and yields a configuration that is written to the same mapping, agrees in every field except the two
  binary names and answers every question about the Docker topology alike. The binary names are lost:
  they fall back to the defaults of the backend.
\<close>

theorem config_roundtrip:
  assumes "config_init x = Inr c" "annotated c" "config_to_dict c = Inr d"
  shows "\<exists>c'. config_init d = Inr c' \<and> config_to_dict c' = Inr d \<and>
    c'\<lparr>dc_tempo_bin := dc_tempo_bin c, dc_tempo_xtask_bin := dc_tempo_xtask_bin c,
       dc_docker := dc_docker c\<rparr> = c \<and>
    topology_view (dc_docker c') = topology_view (dc_docker c) \<and>
    dc_tempo_bin c' = default_bin (dc_backend c) \<and>
    dc_tempo_xtask_bin c' = default_xtask (dc_backend c)"
proof -
  from config_init_shape [OF assms(1)] obtain raw where
    topo: "init_docker_topology raw = Inr (dc_docker c)" and nine: "length (dc_hardforks c) = 9"
    and ne: "dc_validators c \<noteq> []"
    and vs: "\<forall>w \<in> set (dc_validators c). \<exists>v. validator_from_dict v = Inr w" by blast
  from assms(3) obtain docker where docker: "docker_to_dict (dc_docker_image c) (dc_docker c) = Inr docker"
    and d: "d = PDict (written c docker)"
    by (auto simp: config_to_dict_written bindE_Inr_conv)
  from docker_roundtrip [OF topo docker] obtain raw' t' where raw': "docker = PDict raw'" "raw' \<noteq> []"
      "dict_get raw' ''image'' (PStr ''ghcr.io/tempoxyz/tempo:latest'') = dc_docker_image c"
    and t': "init_docker_topology raw' = Inr t'" "topology_view t' = topology_view (dc_docker c)"
    by blast
  have "mapping_of (written c docker) ''docker'' = Inr raw'"
    using raw' by (simp add: mapping_of_def written_plain py_or_def)
  moreover have "mapE validator_from_dict (map validator_to_dict (dc_validators c)) = Inr (dc_validators c)"
  proof (rule mapE_map_id)
    fix w assume w: "w \<in> set (dc_validators c)"
    then obtain h where "vc_host w = PStr h"
      using assms(2) by (cases "vc_host w") (auto simp: annotated_def list_all_iff dest!: bspec)
    with w vs show "validator_from_dict (validator_to_dict w) = Inr w"
      using validator_roundtrip by blast
  qed
  moreover obtain b1 b2 b3 where "dc_no_dkg_in_genesis c = PBool b1" "dc_no_extra_tokens c = PBool b2"
      "dc_no_pairwise_liquidity c = PBool b3"
    using assms(2) by (auto simp: annotated_def)
  moreover have "map (\<lambda>hf. dict_get (written c docker) hf (PInt 0)) HARDFORK_ATTRS = dc_hardforks c"
    using written_hardforks nine assms(2) by (auto simp: annotated_def)
  ultimately have c': "config_init d = Inr (c\<lparr>dc_tempo_bin := default_bin (dc_backend c),
      dc_tempo_xtask_bin := default_xtask (dc_backend c), dc_docker := t'\<rparr>)" (is "_ = Inr ?c'")
    using ne raw' t'(1)
    by (simp add: config_init_def d Let_def written_plain written_flags written_parts)
  have "docker_to_dict (dc_docker_image c) t' = docker_to_dict (dc_docker_image c) (dc_docker c)"
    using t'(2) by (simp add: docker_to_dict_def topology_view_def docker_is_two_network_def)
  then have "config_to_dict ?c' = Inr d" using assms(3) by (simp add: config_to_dict_def)
  with c' t'(2) show ?thesis by simp
qed

definition demo_data :: pyval where
  "demo_data = PDict
     [(''chain_id'', PInt 42), (''backend'', PStr ''reth''), (''seed'', PInt 7), (''t3_time'', PInt 100),
      (''no_extra_tokens'', PBool True), (''tempo_bin'', PStr ''/opt/node''),
      (''patch_genesis_flags'', PList [PStr ''--fast'']),
      (''docker'', PDict [(''public_network'', PDict [(''subnet'', PStr ''10.90.1.7/16'')]),
                          (''follow_nodes'', PList [PDict [(''moniker'', PStr ''follower0'')]])]),
      (''validators'', PList [PDict [(''host'', PStr ''10.0.0.1''), (''port'', PInt 9010)],
                              PDict [(''host'', PStr ''10.0.0.2''), (''port'', PInt 9020),
                                     (''rpc_host'', PStr ''127.0.0.1'')]])]"

lemma demo_data_reads:
  "case config_init demo_data of
     Inl e \<Rightarrow> False
   | Inr c \<Rightarrow> annotated c \<and> (case config_to_dict c of Inl e \<Rightarrow> False | Inr d \<Rightarrow> True) \<and>
       docker_is_two_network (dc_docker c)"
  by code_simp

theorem config_roundtrip_witness:
  "\<exists>c d c'. config_init demo_data = Inr c \<and> docker_is_two_network (dc_docker c) \<and>
     config_to_dict c = Inr d \<and> config_init d = Inr c' \<and> config_to_dict c' = Inr d"
proof -
  from demo_data_reads obtain c d where "config_init demo_data = Inr c" "annotated c"
      "config_to_dict c = Inr d" "docker_is_two_network (dc_docker c)"
    by (auto split: sum.splits)
  with config_roundtrip [OF this(1,2,3)] show ?thesis by blast
qed


section \<open>Addresses on the Docker network\<close>

lemma docker_addr_ipv4:
  assumes "ipv4_network (dt_subnet (dc_docker c)) = Some (base, p)"
  shows "docker_validator_addr other c (int i) =
    (if base + 10 + i < 2 ^ 32 then Inr (ipv4_text (base + 10 + i) @ '':8000'')
     else Inl (ValueError ''is not permitted (>= 2**32 or < 0) as an IPv4 address''))"
proof -
  have "char_of (56 :: nat) = CHR ''8''" "char_of (48 :: nat) = CHR ''0''" by code_simp+
  then have "dec_int 8000 = ''8000''"
    by (simp add: dec_int_def dec_nat.simps [of 8000] dec_nat.simps [of 800] dec_nat.simps [of 80]
        dec_nat.simps [of 8])
  moreover have "bindE (ipv4_add base 10) (\<lambda>a. ipv4_add a (int i)) =
      (if base + 10 + i < 2 ^ 32 then Inr (base + 10 + i)
       else Inl (ValueError ''is not permitted (>= 2**32 or < 0) as an IPv4 address''))"
    by (auto simp: ipv4_add_def nat_add_distrib nat_int_add)
  ultimately show ?thesis
    by (simp add: docker_validator_addr_def docker_ip_def subnet_ip_def assms bindE_assoc [symmetric]
        DOCKER_IP_HOST_OCTET_BASE_def DOCKER_CONSENSUS_P2P_PORT_def)
qed

lemma addr_text_inj:
  "m < 2 ^ 32 \<Longrightarrow> n < 2 ^ 32 \<Longrightarrow> ipv4_text m @ '':8000'' = ipv4_text n @ '':8000'' \<Longrightarrow> m = n"
  using ipv4_text_inj by simp

lemma mapE_Inl_at: "x \<in> set xs \<Longrightarrow> f x = Inl e \<Longrightarrow> \<exists>e. mapE f xs = Inl e"
  by (induction xs) (auto simp: bindE_def split: sum.splits)

text \<open>
  C27. The \<open>--validators\<close> argument of a Docker devnet on an IPv4 subnet is produced exactly when the
  addresses fit in 32 bits; then it lists one socket per validator, in the order of the
  configuration, all different, the \<open>i\<close>-th being the network address plus \<open>10 + i\<close> at port 8000, which
  is also the directory name of validator \<open>i\<close>. Nothing keeps an address inside the subnet: it is
  inside exactly when \<open>10 + i\<close> fits in the host bits.
\<close>

theorem docker_validators_addresses:
  assumes "config_init x = Inr c" "ipv4_network (dt_subnet (dc_docker c)) = Some (base, p)"
  shows "(let n = length (dc_validators c);
              addrs = map (\<lambda>i. ipv4_text (base + 10 + i) @ '':8000'') [0..<n] in
      (isl (docker_validators_arg other c) \<longleftrightarrow> 2 ^ 32 < base + 10 + n) \<and>
      (\<forall>arg. docker_validators_arg other c = Inr arg \<longrightarrow>
         py_split CHR '','' arg = addrs \<and> distinct addrs \<and>
         (\<forall>i < n. docker_validator_addr other c (int i) = Inr (addrs ! i) \<and>
            parse_ipv4 (hd (py_split CHR '':'' (addrs ! i))) = Some (base + 10 + i) \<and>
            (network_base (base + 10 + i) p = base \<longleftrightarrow> 10 + i < 2 ^ (32 - p)))))"
proof -
  let ?n = "length (dc_validators c)"
  let ?addrs = "map (\<lambda>i. ipv4_text (base + 10 + i) @ '':8000'') [0..<?n]"
  have n: "?n \<noteq> 0" using config_init_shape [OF assms(1)] by auto
  note addr = docker_addr_ipv4 [OF assms(2), of other]
  show ?thesis
  proof (cases "base + 10 + ?n \<le> 2 ^ 32")
    case False
    then have "docker_validator_addr other c (int (?n - 1)) =
        Inl (ValueError ''is not permitted (>= 2**32 or < 0) as an IPv4 address'')"
      using n by (simp add: addr)
    with n mapE_Inl_at [of "?n - 1" "[0..<?n]" "\<lambda>i. docker_validator_addr other c (int i)"]
    obtain e where "mapE (\<lambda>i. docker_validator_addr other c (int i)) [0..<?n] = Inl e" by auto
    then have "isl (docker_validators_arg other c)" "docker_validators_arg other c \<noteq> Inr arg" for arg
      by (simp_all add: docker_validators_arg_def)
    with False show ?thesis by (simp add: Let_def)
  next
    case True
    then have "mapE (\<lambda>i. docker_validator_addr other c (int i)) [0..<?n] = Inr ?addrs"
      by (subst mapE_Inr_conv) (simp add: addr)
    then have arg: "docker_validators_arg other c = Inr (join_with '','' ?addrs)"
      by (simp add: docker_validators_arg_def)
    have split: "py_split CHR '','' (join_with '','' ?addrs) = ?addrs"
      using n by (intro py_split_join) (auto simp: ipv4_text_chars)
    have "inj_on (\<lambda>i. ipv4_text (base + 10 + i) @ '':8000'') (set [0..<?n])"
    proof (rule inj_onI)
      fix i j assume "i \<in> set [0..<?n]" "j \<in> set [0..<?n]"
        "ipv4_text (base + 10 + i) @ '':8000'' = ipv4_text (base + 10 + j) @ '':8000''"
      with True addr_text_inj [of "base + 10 + i" "base + 10 + j"] show "i = j" by simp
    qed
    then have dist: "distinct ?addrs" by (simp add: distinct_map)
    have parse: "parse_ipv4 (hd (py_split CHR '':'' (?addrs ! i))) = Some (base + 10 + i)" if "i < ?n" for i
      using that True py_split_append [of "CHR '':''" "ipv4_text (base + 10 + i)" "''8000''"]
      by (simp add: ipv4_text_chars parse_ipv4_text)
    have "network_base (base + 10 + i) p = base \<longleftrightarrow> 10 + i < 2 ^ (32 - p)" for i
      using network_base_offset [of base p "10 + i"] ipv4_network_base [OF assms(2)] by (simp add: add.assoc)
    with True arg split dist parse show ?thesis by (simp add: Let_def addr)
  qed
qed

theorem docker_validators_addresses_witness:
  "\<exists>c arg. config_init demo_data = Inr c \<and> docker_validators_arg (\<lambda>v k i. Inr []) c = Inr arg \<and>
     map (\<lambda>a. parse_ipv4 (hd (py_split CHR '':'' a))) (py_split CHR '','' arg) =
       [Some 173539338, Some 173539339] \<and> distinct (py_split CHR '','' arg)"
proof -
  have "case config_init demo_data of Inl e \<Rightarrow> False | Inr c \<Rightarrow>
      length (dc_validators c) = 2 \<and> dt_subnet (dc_docker c) = PStr ''10.88.0.0/24''"
    by code_simp
  then obtain c where c: "config_init demo_data = Inr c" "length (dc_validators c) = 2"
      "dt_subnet (dc_docker c) = PStr ''10.88.0.0/24''" by (auto split: sum.splits)
  have "parse_ipv4 ''10.88.0.0'' = Some 173539328" "parse_mask ''24'' = Some 24"
    by (simp_all add: parse_ipv4_def parse_mask_def parse_octet_def all_digits_def is_ascii_digit_def dec_value_def)
  moreover have "py_split CHR ''/'' ''10.88.0.0/24'' = [''10.88.0.0'', ''24'']" by code_simp
  ultimately have net: "ipv4_network (dt_subnet (dc_docker c)) = Some (173539328, 24)"
    by (simp add: ipv4_network_def network_base_def c)
  from docker_validators_addresses [OF c(1) net, of "\<lambda>v k i. Inr []"] c
  obtain arg where "docker_validators_arg (\<lambda>v k i. Inr []) c = Inr arg"
    by (cases "docker_validators_arg (\<lambda>v k i. Inr []) c") (auto simp: Let_def)
  moreover have "(\<forall>i < 2. P i) \<longleftrightarrow> P 0 \<and> P (1 :: nat)" for P
    by (auto simp: less_2_cases_iff)
  ultimately show ?thesis
    using docker_validators_addresses [OF c(1) net, of "\<lambda>v k i. Inr []"] c
    by (auto simp: Let_def upt_rec intro!: exI [of _ c] exI [of _ arg])
qed

section \<open>Throw-away devnets\<close>

lemma ephemeral_validators:
  assumes "bases \<noteq> []"
  shows "config_init (PDict (ephemeral_data bases backend chain_id host node_bin xtask_bin)) = Inr c \<Longrightarrow>
    dc_validators c = map (\<lambda>(i, b). \<lparr>vc_host = host, vc_port = PInt b,
        vc_moniker = PStr (''node'' @ dec_nat i), vc_base_port = PInt b, vc_p2p_host = host,
        vc_rpc_host = or_else host (PStr ''0.0.0.0'')\<rparr>) (zip [0..<length bases] bases)"
proof -
  let ?v = "\<lambda>(i, b). PDict [(''host'', host), (''port'', PInt b), (''moniker'', PStr (''node'' @ dec_nat i)),
                 (''rpc_host'', host)]"
  let ?w = "\<lambda>(i, b). \<lparr>vc_host = host, vc_port = PInt b,
        vc_moniker = PStr (''node'' @ dec_nat i), vc_base_port = PInt b, vc_p2p_host = host,
        vc_rpc_host = or_else host (PStr ''0.0.0.0'')\<rparr>"
  let ?z = "zip [0..<length bases] bases"
  have v: "validator_from_dict (?v (i, b)) = Inr (?w (i, b))" for i b
    by (simp add: validator_from_dict_PDict validator_init_def, simp add: or_else_def)
  have vs: "mapE validator_from_dict (map ?v ?z) = Inr (map ?w ?z)"
    by (subst mapE_Inr_conv) (use v in auto)
  have ne: "?z \<noteq> []" using assms by (cases bases) (auto simp: upt_rec)
  have get: "dict_get (ephemeral_data bases backend chain_id host node_bin xtask_bin) ''validators'' x =
      PList (map ?v ?z)" for x
    by (simp add: ephemeral_data_def)
  assume "config_init (PDict (ephemeral_data bases backend chain_id host node_bin xtask_bin)) = Inr c"
  then obtain vs' where "mapE validator_from_dict (map ?v ?z) = Inr vs'" "dc_validators c = vs'"
    using ne by (auto simp: config_init_def Let_def bindE_Inr_conv get simp del: map_map mapE.simps)
  with vs show ?thesis by simp
qed




end
