(* ===== verification/Shell.thy ===== *)
theory Shell
  imports Files
begin

text \<open>
  The wrapper scripts of \<open>tempo/devnet/supervisor.py\<close>: \<open>_sh_quote\<close> and
  \<open>_write_run_script_content\<close>, and, as their specification, the reading of a simple command by a
  POSIX shell: blanks, quotes, escapes and line continuations.
\<close>

section \<open>Writing\<close>

text \<open>\<open>s.replace("'", "'\\''")\<close> in single quotes.\<close>

definition quote_char :: "char \<Rightarrow> string" where
  "quote_char c = (if c = CHR 0x27 then [CHR 0x27, CHR 0x5C, CHR 0x27, CHR 0x27] else [c])"

definition sh_quote_text :: "string \<Rightarrow> string" where
  "sh_quote_text s = [CHR 0x27] @ concat (map quote_char s) @ [CHR 0x27]"

definition sh_quote :: "pyval \<Rightarrow> string result" where
  "sh_quote v =
     (case v of
        PStr s \<Rightarrow> Inr (sh_quote_text s)
      | PBytes b \<Rightarrow> Inl (TypeError ''a bytes-like object is required, not str'')
      | _ \<Rightarrow> Inl (AttributeError ''object has no attribute replace''))"

definition newline :: char where "newline = CHR 0x0A"

text \<open>The line \<open>cd "$(dirname "$0")"\<close>.\<close>

definition cd_line :: string where
  "cd_line = ''cd '' @ [CHR 0x22] @ ''$(dirname '' @ [CHR 0x22] @ ''$0'' @ [CHR 0x22] @ '')'' @ [CHR 0x22]"

definition backslash :: string where "backslash = [CHR 0x5C]"

definition run_script_content :: "pyval list \<Rightarrow> string \<Rightarrow> bool \<Rightarrow> string result" where
  "run_script_content node_args tag set_eu =
     (case node_args of
        [] \<Rightarrow> Inl (IndexError ''list index out of range'')
      | bin # rest \<Rightarrow>
          bindE (sh_quote bin) (\<lambda>binary.
          bindE (mapE (\<lambda>a. bindE (sh_quote a) (\<lambda>q. Inr (''  '' @ q))) rest) (\<lambda>quoted.
            let arg_lines = join_with ('' '' @ backslash @ [newline]) quoted;
                tag_suffix = (if tag = [] then [] else '' ('' @ tag @ '')'');
                lines = [''#!/bin/sh'', ''# auto-generated by tempo-devnet'' @ tag_suffix, []]
                  @ (if set_eu then [''set -eu'', []] else [])
                  @ [cd_line, [], ''exec '' @ binary @ '' '' @ backslash, arg_lines, []]
            in Inr (join_with [newline] lines))))"

section \<open>How a shell reads a command\<close>

text \<open>
  The words of the simple command at the start of a text, and the rest after its newline. A word under
  construction is \<open>Some\<close> its characters so far, so that \<open>''\<close> is an empty word and a blank is none.
  Anything unquoted that the shell would interpret is outside: \<open>None\<close>.
\<close>

definition is_blank :: "char \<Rightarrow> bool" where "is_blank c \<longleftrightarrow> c = CHR 0x20 \<or> c = CHR 0x09"

definition is_shell_special :: "char \<Rightarrow> bool" where
  "is_shell_special c \<longleftrightarrow>
     c \<in> set (''$`|&;<>()#*?[]~=%{}!^'' @ [CHR 0x22])"

definition end_word :: "string option \<Rightarrow> string list" where
  "end_word w = (case w of None \<Rightarrow> [] | Some s \<Rightarrow> [s])"

definition add_char :: "string option \<Rightarrow> char \<Rightarrow> string option" where
  "add_char w c = Some ((case w of None \<Rightarrow> [] | Some s \<Rightarrow> s) @ [c])"

definition open_word :: "string option \<Rightarrow> string option" where
  "open_word w = Some (case w of None \<Rightarrow> [] | Some s \<Rightarrow> s)"

fun sh_words :: "string option \<Rightarrow> bool \<Rightarrow> string \<Rightarrow> (string list \<times> string) option" where
  "sh_words w True [] = None"
| "sh_words w False [] = Some (end_word w, [])"
| "sh_words w True (c # s) =
     (if c = CHR 0x27 then sh_words (open_word w) False s else sh_words (add_char w c) True s)"
| "sh_words w False [c] =
     (if c = newline then Some (end_word w, [])
      else if is_blank c then Some (end_word w, [])
      else if c = CHR 0x27 \<or> c = CHR 0x5C \<or> is_shell_special c then None
      else Some (end_word (add_char w c), []))"
| "sh_words w False (c # d # s) =
     (if c = newline then Some (end_word w, d # s)
      else if is_blank c then map_option (apfst ((@) (end_word w))) (sh_words None False (d # s))
      else if c = CHR 0x27 then sh_words (open_word w) True (d # s)
      else if c = CHR 0x5C
        then (if d = newline then sh_words w False s else sh_words (add_char w d) False s)
      else if is_shell_special c then None
      else sh_words (add_char w c) False (d # s))"


section \<open>What is written is what is run\<close>

lemma sh_words_quoted_body:
  "sh_words (Some u) True (concat (map quote_char s) @ CHR 0x27 # t) = sh_words (Some (u @ s)) False t"
proof (induction s arbitrary: u)
  case Nil
  then show ?case by (simp add: open_word_def)
next
  case (Cons c s)
  obtain d r where dr: "concat (map quote_char s) @ CHR 0x27 # t = d # r"
    by (cases "concat (map quote_char s)") auto
  show ?case
  proof (cases "c = CHR 0x27")
    case True
    then have "sh_words (Some u) True (concat (map quote_char (c # s)) @ CHR 0x27 # t) =
        sh_words (Some (u @ [c])) True (concat (map quote_char s) @ CHR 0x27 # t)"
      unfolding list.map concat.simps append_assoc dr
      by (simp add: quote_char_def open_word_def add_char_def newline_def is_blank_def)
    with Cons show ?thesis by simp
  next
    case False
    then show ?thesis using Cons [of "u @ [c]"] by (simp add: quote_char_def add_char_def)
  qed
qed

lemma sh_words_quoted: "sh_words w False (sh_quote_text s @ t) = sh_words (Some (the (open_word w) @ s)) False t"
proof -
  obtain d r where dr: "concat (map quote_char s) @ CHR 0x27 # t = d # r"
    by (cases "concat (map quote_char s)") auto
  have "sh_words w False (sh_quote_text s @ t) = sh_words (open_word w) True (concat (map quote_char s) @ CHR 0x27 # t)"
    unfolding sh_quote_text_def append_assoc append.simps dr by (simp add: newline_def is_blank_def)
  also have "open_word w = Some (the (open_word w))" by (simp add: open_word_def)
  finally show ?thesis by (simp only: sh_words_quoted_body)
qed

text \<open>The argument lines, each an indented quoted word, continued by a backslash before the newline.\<close>

definition arg_text :: "string list \<Rightarrow> string" where
  "arg_text args = join_with ('' '' @ backslash @ [newline]) (map (\<lambda>a. ''  '' @ sh_quote_text a) args)"

lemma sh_words_blank:
  "t \<noteq> [] \<Longrightarrow> sh_words w False (CHR 0x20 # t) = map_option (apfst ((@) (end_word w))) (sh_words None False t)"
  by (cases t) (simp_all add: newline_def is_blank_def)

lemma sh_words_continuation: "sh_words w False (backslash @ newline # t) = sh_words w False t"
  by (simp add: backslash_def newline_def is_blank_def)

declare sh_words.simps [simp del]

lemma sh_words_indented:
  "sh_words None False (''  '' @ sh_quote_text a @ t) = sh_words (Some a) False t"
proof -
  have ne: "sh_quote_text a @ t \<noteq> []" by (simp add: sh_quote_text_def)
  have id: "map_option (apfst ((@) (end_word None))) x = x" for x :: "(string list \<times> string) option"
    by (cases x) (auto simp: end_word_def)
  have "sh_words None False (''  '' @ sh_quote_text a @ t) = sh_words None False (sh_quote_text a @ t)"
    using ne by (simp add: sh_words_blank id)
  then show ?thesis by (simp add: sh_words_quoted open_word_def)
qed

lemma sh_words_newline: "sh_words w False [newline] = Some (end_word w, [])"
  by (simp add: sh_words.simps)

lemma sh_words_args: "args \<noteq> [] \<Longrightarrow> sh_words None False (arg_text args @ [newline]) = Some (args, [])"
proof (induction args)
  case Nil
  then show ?case by simp
next
  case (Cons a args)
  show ?case
  proof (cases args)
    case Nil
    then have "arg_text (a # args) = ''  '' @ sh_quote_text a" by (simp add: arg_text_def)
    then show ?thesis using sh_words_indented [of a "[newline]"] Nil
      by (simp add: end_word_def sh_words_newline)
  next
    case (Cons b r)
    then have e: "arg_text (a # args) @ [newline] =
        ''  '' @ sh_quote_text a @ CHR 0x20 # backslash @ newline # arg_text args @ [newline]"
      by (simp add: arg_text_def)
    have "sh_words None False (arg_text (a # args) @ [newline]) =
        sh_words (Some a) False (CHR 0x20 # backslash @ newline # arg_text args @ [newline])"
      unfolding e by (rule sh_words_indented)
    also have "\<dots> = Some (a # args, [])"
      using Cons.IH Cons by (simp add: sh_words_blank sh_words_continuation end_word_def)
    finally show ?thesis .
  qed
qed

lemma sh_words_exec: "sh_words None False (''exec '' @ t) = map_option (apfst ((@) [''exec''])) (sh_words None False t)"
  if "t \<noteq> []"
proof -
  from that obtain c r where t: "t = c # r" by (cases t) auto
  show ?thesis
    by (simp add: t sh_words.simps newline_def is_blank_def is_shell_special_def add_char_def end_word_def)
qed

lemma sh_words_command:
  "sh_words None False (''exec '' @ sh_quote_text bin @ '' '' @ backslash @ [newline] @ arg_text args @ [newline]) =
     Some (''exec'' # bin # args, [])"
proof -
  have rest: "sh_words None False (arg_text args @ [newline]) = Some (args, [])"
    using sh_words_args by (cases "args = []") (simp_all add: arg_text_def sh_words_newline end_word_def)
  have "sh_quote_text bin @ '' '' @ backslash @ [newline] @ arg_text args @ [newline] \<noteq> []"
    by (simp add: sh_quote_text_def)
  from sh_words_exec [OF this] show ?thesis
    using rest by (simp add: sh_words_quoted open_word_def sh_words_blank sh_words_continuation end_word_def)
qed

definition is_text :: "pyval \<Rightarrow> bool" where
  "is_text v = (case v of PStr s \<Rightarrow> True | _ \<Rightarrow> False)"

text \<open>The lines before the command.\<close>

definition preamble :: "string \<Rightarrow> bool \<Rightarrow> string" where
  "preamble tag set_eu =
     ''#!/bin/sh'' @ [newline] @ ''# auto-generated by tempo-devnet''
     @ (if tag = [] then [] else '' ('' @ tag @ '')'') @ [newline, newline]
     @ (if set_eu then ''set -eu'' @ [newline, newline] else []) @ cd_line @ [newline, newline]"

definition command_text :: "string \<Rightarrow> string list \<Rightarrow> string" where
  "command_text bin args =
     ''exec '' @ sh_quote_text bin @ '' '' @ backslash @ [newline] @ arg_text args @ [newline]"

lemma run_script_text:
  "run_script_content (map PStr (bin # args)) tag set_eu = Inr (preamble tag set_eu @ command_text bin args)"
proof -
  have "mapE (\<lambda>a. bindE (sh_quote a) (\<lambda>q. Inr (''  '' @ q))) (map PStr args) =
      Inr (map (\<lambda>a. ''  '' @ sh_quote_text a) args)"
    by (induction args) (simp_all add: sh_quote_def)
  then show ?thesis
    by (simp add: run_script_content_def sh_quote_def Let_def preamble_def arg_text_def command_text_def)
qed

lemma run_script_isl: "\<not> isl (run_script_content vs tag set_eu) \<longleftrightarrow> vs \<noteq> [] \<and> list_all is_text vs"
proof (cases vs)
  have q: "(\<exists>q. sh_quote v = Inr q) \<longleftrightarrow> is_text v" for v
    by (cases v) (simp_all add: sh_quote_def is_text_def)
  have m: "isl (mapE (\<lambda>a. bindE (sh_quote a) (\<lambda>q. Inr (''  '' @ q))) us) \<longleftrightarrow> \<not> list_all is_text us" for us
  proof (induction us)
    case (Cons u us)
    show ?case using q [of u] Cons
      by (cases "sh_quote u"; cases "mapE (\<lambda>a. bindE (sh_quote a) (\<lambda>q. Inr (''  '' @ q))) us") auto
  qed simp
  case (Cons v us)
  show ?thesis using q [of v] m [of us] Cons
    by (cases "sh_quote v"; cases "mapE (\<lambda>a. bindE (sh_quote a) (\<lambda>q. Inr (''  '' @ q))) us")
       (auto simp: run_script_content_def Let_def)
qed (simp add: run_script_content_def)

lemma texts_eq: "list_all is_text vs \<Longrightarrow> \<exists>ts. vs = map PStr ts"
proof (induction vs)
  case (Cons v vs)
  then obtain ts where "vs = map PStr ts" by auto
  moreover obtain t where "v = PStr t" using Cons.prems by (cases v) (auto simp: is_text_def)
  ultimately have "v # vs = map PStr (t # ts)" by simp
  then show ?case by (rule exI)
qed simp

text \<open>A script that was written is the preamble and a command that is read as its arguments.\<close>

lemma run_script_done:
  assumes "run_script_content vs tag set_eu = Inr s"
  shows "\<exists>ts command. vs = map PStr ts \<and> s = preamble tag set_eu @ command \<and>
    sh_words None False command = Some (''exec'' # ts, [])"
proof -
  from assms run_script_isl [of vs tag set_eu] have "vs \<noteq> []" "list_all is_text vs" by auto
  with texts_eq obtain ts where ts: "vs = map PStr ts" by blast
  with \<open>vs \<noteq> []\<close> obtain bin args where "ts = bin # args" by (cases ts) auto
  with ts assms run_script_text [of bin args tag set_eu] sh_words_command [of bin args]
  show ?thesis by (auto simp: command_text_def)
qed

text \<open>
  C35. A wrapper script runs what it was made for: for every list of text arguments, whatever quotes,
  blanks, newlines, dollars or backslashes they contain, the script is the fixed preamble and one
  command that a shell reads as \<open>exec\<close> with exactly these arguments and nothing after it. An empty
  list is an \<open>IndexError\<close>, and an argument that is not text raises.
\<close>

theorem run_script_runs_arguments:
  "(\<exists>command. run_script_content (map PStr (bin # args)) tag set_eu = Inr (preamble tag set_eu @ command) \<and>
      sh_words None False command = Some (''exec'' # bin # args, [])) \<and>
   run_script_content [] tag set_eu = Inl (IndexError ''list index out of range'') \<and>
   (\<not> isl (run_script_content vs tag set_eu) \<longleftrightarrow> vs \<noteq> [] \<and> list_all is_text vs)"
  using run_script_text [of bin args tag set_eu] sh_words_command [of bin args] run_script_isl
  by (auto simp: command_text_def run_script_content_def)

end
