(* ===== verification/Backends.thy ===== *)
theory Backends
  imports DevnetConfig Shell
begin

text \<open>
  \<open>tempo/devnet/backends.py\<close>: the argument lists of the nodes and of the genesis generators, and the
  layout of the data directory. Arguments are Python values, since the configuration passes some on
  unchecked. The generator process and the other programs and libraries of the devnet modules are the
  fields of a record \<open>host\<close>. What is printed is not modelled.
\<close>

text \<open>What a serializer writes to an open file, and the exception that stops it.\<close>

type_synonym dumped = "string \<times> py_error option"

definition dump_file :: "path \<Rightarrow> dumped \<Rightarrow> unit act" where
  "dump_file p d =
     bindA (write_text p (fst d)) (\<lambda>_. pureA (case snd d of None \<Rightarrow> Inr () | Some e \<Rightarrow> Inl e))"

record host =
  xtask :: "string list \<Rightarrow> fs \<Rightarrow> int result \<times> fs"
    \<comment> \<open>\<open>subprocess.run(args)\<close>: its exit status, or the exception when it cannot be started\<close>
  json_merge :: "string \<Rightarrow> pydict \<Rightarrow> pyval result"
    \<comment> \<open>\<open>jsonmerge.merge(json.loads(s), patch)\<close>\<close>
  json_dump :: "pyval \<Rightarrow> dumped"
    \<comment> \<open>\<open>json.dump(v, f, indent=2)\<close>\<close>
  toml_dump :: "pydict \<Rightarrow> dumped"
    \<comment> \<open>\<open>tomlkit.dump(patch, f)\<close>\<close>
  yaml_dump :: "bool \<Rightarrow> pyval \<Rightarrow> dumped"
    \<comment> \<open>\<open>yaml.dump(v, f, sort_keys=...)\<close>\<close>
  yaml_load :: "string \<Rightarrow> pyval result"
    \<comment> \<open>\<open>yaml.safe_load(s)\<close>\<close>
  fresh_key :: "path \<Rightarrow> bytes"
    \<comment> \<open>the 32 bytes \<open>secrets.token_bytes\<close> draws for a key file\<close>
  p2p_enode :: "path \<Rightarrow> fs \<Rightarrow> (int \<times> string) result"
    \<comment> \<open>\<open>tempo -q p2p enode <key file>\<close>: exit status and output, or an exception\<close>
  other_ip :: "pyval \<Rightarrow> int \<Rightarrow> int \<Rightarrow> string result"
    \<comment> \<open>addresses on subnets that are not IPv4\<close>

section \<open>Node arguments\<close>

text \<open>A port function of \<open>ports.py\<close> applied to a value.\<close>

definition port_of :: "(int \<Rightarrow> int) \<Rightarrow> pyval \<Rightarrow> int result" where
  "port_of f base =
     (case py_int base of
        Some n \<Rightarrow> Inr (f n)
      | None \<Rightarrow> Inl (TypeError ''unsupported operand type(s) for +''))"

record node_params =
  np_tempo_bin :: pyval
  np_base_port :: pyval
  np_listen_addr :: pyval
  np_metrics_addr :: pyval
  np_rpc_addr :: pyval
  np_genesis_path :: string
  np_datadir :: string
  np_signing_key :: string
  np_signing_share :: string
  np_secret_file :: string
  np_enode_key :: string
  np_trusted_peers :: "string list"
  np_extra_flags :: "string list"
  np_bootnodes_endpoint :: bool

definition int_arg :: "int \<Rightarrow> pyval" where "int_arg n = PStr (dec_int n)"

definition build_common_node_args :: "node_params \<Rightarrow> pyval list result" where
  "build_common_node_args q =
     (let base = np_base_port q in
      bindE (port_of consensus_metrics_port base) (\<lambda>metrics.
      bindE (port_of execution_p2p_port base) (\<lambda>p2p.
      bindE (port_of authrpc_port base) (\<lambda>auth.
      bindE (port_of http_rpc_port base) (\<lambda>http.
      bindE (port_of ws_rpc_port base) (\<lambda>ws.
        Inr (
          [np_tempo_bin q, PStr ''node'',
           PStr ''--consensus.signing-key'', PStr (np_signing_key q),
           PStr ''--consensus.secret'', PStr (np_secret_file q),
           PStr ''--consensus.signing-share'', PStr (np_signing_share q),
           PStr ''--consensus.listen-address'',
             PStr (py_str (np_listen_addr q) @ '':'' @ py_str base),
           PStr ''--consensus.metrics-address'',
             PStr (py_str (np_metrics_addr q) @ '':'' @ dec_int metrics),
           PStr ''--chain'', PStr (np_genesis_path q),
           PStr ''--datadir'', PStr (np_datadir q),
           PStr ''--port'', int_arg p2p,
           PStr ''--discovery.port'', int_arg p2p,
           PStr ''--p2p-secret-key'', PStr (np_enode_key q),
           PStr ''--trusted-peers'', PStr (join_with '','' (np_trusted_peers q)),
           PStr ''--authrpc.port'', int_arg auth,
           PStr ''--http'',
           PStr ''--http.addr'', np_rpc_addr q,
           PStr ''--http.port'', int_arg http,
           PStr ''--http.api'', PStr ''all'',
           PStr ''--ws'',
           PStr ''--ws.addr'', np_rpc_addr q,
           PStr ''--ws.port'', int_arg ws,
           PStr ''--consensus.use-local-defaults'', PStr ''--consensus.allow-private-ips'']
          @ (if np_bootnodes_endpoint q then [PStr ''--tempo.bootnodes-endpoint'', PStr ''none''] else [])
          @ map PStr (np_extra_flags q))))))))"

section \<open>The two backends\<close>

datatype backend = TempoBackend | AllegroBackend

fun hashable :: "pyval \<Rightarrow> bool" where
  "hashable (PList xs) = False"
| "hashable (PDict d) = False"
| "hashable (PTuple xs) = list_all hashable xs"
| "hashable v = True"

definition get_backend :: "devnet_config \<Rightarrow> backend result" where
  "get_backend c =
     (if \<not> hashable (dc_backend c) then Inl (TypeError ''unhashable type'')
      else if dc_backend c = PStr ''tempo'' then Inr TempoBackend
      else if dc_backend c = PStr ''allegro'' then Inr AllegroBackend
      else Inl (ValueError ''unknown backend''))"

definition backend_name :: "backend \<Rightarrow> string" where
  "backend_name b = (case b of TempoBackend \<Rightarrow> ''tempo'' | AllegroBackend \<Rightarrow> ''allegro'')"

definition arg_or :: "string option \<Rightarrow> string \<Rightarrow> string" where
  "arg_or v w = (case v of None \<Rightarrow> w | Some s \<Rightarrow> if s = [] then w else s)"

definition allegro_localnet_args :: "devnet_config \<Rightarrow> path \<Rightarrow> string option \<Rightarrow> pyval list" where
  "allegro_localnet_args c data_dir override =
     [dc_tempo_xtask_bin c, PStr ''genesis'', PStr ''--output'', PStr (path_text data_dir),
      PStr ''--chain-id'', PStr (py_str (dc_chain_id c)),
      PStr ''--validators'', PStr (arg_or override (validators_arg c))]
     @ map PStr (dc_patch_genesis_flags c)"

fun localnet_args :: "backend \<Rightarrow> devnet_config \<Rightarrow> path \<Rightarrow> string option \<Rightarrow> pyval list" where
  "localnet_args TempoBackend c data_dir override =
     [dc_tempo_xtask_bin c, PStr ''generate-localnet'', PStr ''--output'', PStr (path_text data_dir),
      PStr ''--force''] @ to_genesis_args c override"
| "localnet_args AllegroBackend c data_dir override = allegro_localnet_args c data_dir override"

definition LOCALNET_SIGNING_KEY_SECRET :: string where
  "LOCALNET_SIGNING_KEY_SECRET = ''tempo-localnet-signing-key-secret''"

definition write_secret_file :: "path \<Rightarrow> unit act" where
  "write_secret_file val_dir = write_text (path_add val_dir ''.secret'') LOCALNET_SIGNING_KEY_SECRET"

definition allegro_node_args ::
    "devnet_config \<Rightarrow> validator_config \<Rightarrow> nat \<Rightarrow> string \<Rightarrow> string \<Rightarrow> string list \<Rightarrow> pyval list result" where
  "allegro_node_args c v index genesis_path datadir extra_flags =
     (let base = vc_base_port v in
      bindE (port_of http_rpc_port base) (\<lambda>http.
      bindE (port_of ws_rpc_port base) (\<lambda>ws.
      bindE (port_of authrpc_port base) (\<lambda>auth.
      bindE (port_of execution_p2p_port base) (\<lambda>p2p.
        Inr (
          [dc_tempo_bin c, PStr ''node'', PStr ''--chain'', PStr genesis_path,
           PStr ''--datadir'', PStr datadir,
           PStr ''--http'', PStr ''--http.addr'', vc_rpc_host v, PStr ''--http.port'', int_arg http,
           PStr ''--http.api'', PStr ''all'',
           PStr ''--ws'', PStr ''--ws.addr'', vc_rpc_host v, PStr ''--ws.port'', int_arg ws,
           PStr ''--authrpc.port'', int_arg auth, PStr ''--port'', int_arg p2p,
           PStr ''--disable-discovery'', PStr ''--ipcdisable'',
           PStr ''--consensus.node-index'', PStr (dec_int (int index)),
           PStr ''--consensus.listen-address'', PStr (py_str (vc_p2p_host v) @ '':'' @ py_str base)]
          @ map PStr extra_flags))))))"

definition tempo_node_params ::
    "devnet_config \<Rightarrow> validator_config \<Rightarrow> string \<Rightarrow> string \<Rightarrow> string list \<Rightarrow> string list \<Rightarrow> node_params" where
  "tempo_node_params c v genesis_path datadir peers extra_flags =
     \<lparr>np_tempo_bin = dc_tempo_bin c, np_base_port = vc_base_port v, np_listen_addr = vc_p2p_host v,
      np_metrics_addr = vc_host v, np_rpc_addr = vc_rpc_host v, np_genesis_path = genesis_path,
      np_datadir = datadir, np_signing_key = ''./signing.key'', np_signing_share = ''./signing.share'',
      np_secret_file = ''./.secret'', np_enode_key = ''./enode.key'', np_trusted_peers = peers,
      np_extra_flags = extra_flags, np_bootnodes_endpoint = False\<rparr>"

fun node_args ::
    "backend \<Rightarrow> devnet_config \<Rightarrow> validator_config \<Rightarrow> nat \<Rightarrow> path \<Rightarrow> string \<Rightarrow> string \<Rightarrow> string list
       \<Rightarrow> string list \<Rightarrow> pyval list act" where
  "node_args TempoBackend c v index val_dir genesis_path datadir peers extra_flags =
     bindA (write_secret_file val_dir) (\<lambda>_.
       pureA (build_common_node_args (tempo_node_params c v genesis_path datadir peers extra_flags)))"
| "node_args AllegroBackend c v index val_dir genesis_path datadir peers extra_flags =
     pureA (allegro_node_args c v index genesis_path datadir extra_flags)"

section \<open>The data directory\<close>

text \<open>The directories to rename, in order; a directory in the place of the new name is removed.\<close>

definition collect_rename ::
    "host \<Rightarrow> devnet_config \<Rightarrow> path \<Rightarrow> bool \<Rightarrow> nat \<times> validator_config \<Rightarrow> (path \<times> path) list act" where
  "collect_rename H c data_dir docker = (\<lambda>(index, v).
     bindA (pureA (if docker then docker_validator_addr (other_ip H) c (int index) else Inr (addr_str v)))
       (\<lambda>src_name.
     bindA (pureA (path_join data_dir (dir_name v))) (\<lambda>dst F.
       let src = path_add data_dir src_name in
       if src \<noteq> dst \<and> path_exists F src
       then bindA (if path_exists F dst then rmtree dst else pureA (Inr ()))
              (\<lambda>_. pureA (Inr [(src, dst)])) F
       else (Inr [], F))))"

definition allegro_prepare_layout :: "devnet_config \<Rightarrow> path \<Rightarrow> unit act" where
  "allegro_prepare_layout c data_dir =
     forA (dc_validators c) (\<lambda>v. bindA (pureA (path_join data_dir (dir_name v))) make_dir)"

fun prepare_layout :: "host \<Rightarrow> backend \<Rightarrow> devnet_config \<Rightarrow> path \<Rightarrow> bool \<Rightarrow> unit act" where
  "prepare_layout H TempoBackend c data_dir docker =
     bindA (mapA (collect_rename H c data_dir docker)
              (zip [0..<length (dc_validators c)] (dc_validators c))) (\<lambda>rename_map.
       forA (concat rename_map) (\<lambda>(src, dst). rename_path src dst))"
| "prepare_layout H AllegroBackend c data_dir docker = allegro_prepare_layout c data_dir"

definition texts_of :: "pyval list \<Rightarrow> string list result" where
  "texts_of vs = mapE (\<lambda>v. case v of PStr s \<Rightarrow> Inr s
                               | _ \<Rightarrow> Inl (TypeError ''sequence item: expected str instance'')) vs"

definition generate_localnet ::
    "host \<Rightarrow> devnet_config \<Rightarrow> path \<Rightarrow> string option \<Rightarrow> bool \<Rightarrow> path act" where
  "generate_localnet H c data_dir override docker =
     bindA (pureA (get_backend c)) (\<lambda>b.
     bindA (make_dirs data_dir) (\<lambda>_.
     bindA (pureA (texts_of (localnet_args b c data_dir override))) (\<lambda>args.
     bindA (xtask H args) (\<lambda>status.
     bindA (readA (\<lambda>F. if status \<noteq> 0 \<or> \<not> path_exists F (path_add data_dir ''genesis.json'')
                       then Inl (RuntimeError ''generator failed'') else Inr ())) (\<lambda>_.
     bindA (prepare_layout H b c data_dir docker) (\<lambda>_.
       pureA (Inr (path_add data_dir ''genesis.json''))))))))"

section \<open>The layout of the data directory\<close>

definition plain_name :: "string \<Rightarrow> bool" where
  "plain_name s \<longleftrightarrow> s \<noteq> [] \<and> s \<noteq> ''.'' \<and> CHR ''/'' \<notin> set s"

lemma path_add_plain: "plain_name s \<Longrightarrow> path_add D s = sib D s"
proof -
  assume s: "plain_name s"
  then have "path_root s = []" by (cases s) (auto simp: plain_name_def path_root_def starts_with_def)
  moreover have "path_parts s = [s]" using s by (simp add: plain_name_def path_parts_def py_split_no_sep)
  ultimately show ?thesis by (simp add: path_add_def sib_def)
qed

text \<open>The name the generator gives the directory of a validator: its socket.\<close>

definition socket_name :: "host \<Rightarrow> devnet_config \<Rightarrow> bool \<Rightarrow> nat \<times> validator_config \<Rightarrow> string result" where
  "socket_name H c docker = (\<lambda>(i, v).
     if docker then docker_validator_addr (other_ip H) c (int i) else Inr (addr_str v))"

lemma collect_rename_fresh:
  assumes "socket_name H c docker (i, v) = Inr s" "vc_moniker v = PStr m" "plain_name s" "plain_name m"
    and "s \<noteq> m" "node_at F (sib D s) = Some Folder" "node_at F (sib D m) = None"
  shows "collect_rename H c D docker (i, v) F = (Inr [(sib D s, sib D m)], F)"
  using assms
  by (simp add: collect_rename_def socket_name_def dir_name_def path_join_def path_add_plain Let_def
      path_exists_def bindA_def pureA_def) (auto simp: sib_def)

lemma mapA_reads:
  "list_all2 (\<lambda>x y. f x F = (Inr y, F)) xs ys \<Longrightarrow> mapA f xs F = (Inr ys, F)"
  by (induction xs ys rule: list_all2_induct) (simp_all add: bindA_def pureA_def)

lemma collect_all:
  assumes "map (socket_name H c docker) (zip [0..<length (dc_validators c)] (dc_validators c)) =
      map (Inr \<circ> fst) moves"
    and "map vc_moniker (dc_validators c) = map (PStr \<circ> snd) moves"
    and "list_all (\<lambda>(s, m). plain_name s \<and> plain_name m) moves"
    and "distinct (map fst moves @ map snd moves)"
    and "list_all (\<lambda>(s, m). node_at F (sib D s) = Some Folder) moves"
    and "list_all (\<lambda>(s, m). \<forall>q. child D q = Some m \<longrightarrow> node_at F q = None) moves"
  shows "mapA (collect_rename H c D docker) (zip [0..<length (dc_validators c)] (dc_validators c)) F =
    (Inr (map (\<lambda>(s, m). [(sib D s, sib D m)]) moves), F)"
proof (rule mapA_reads, rule list_all2_all_nthI)
  let ?vs = "zip [0..<length (dc_validators c)] (dc_validators c)"
  have len: "length moves = length (dc_validators c)" using assms(2) by (metis length_map)
  then show "length ?vs = length (map (\<lambda>(s, m). [(sib D s, sib D m)]) moves)" by simp
  fix k assume "k < length ?vs"
  then have k: "k < length moves" "k < length (dc_validators c)" using len by auto
  obtain s m where sm: "moves ! k = (s, m)" by (cases "moves ! k")
  then have in_moves: "(s, m) \<in> set moves" using k by (metis nth_mem)
  have "socket_name H c docker (k, dc_validators c ! k) = Inr s"
    using arg_cong [OF assms(1), of "\<lambda>xs. xs ! k"] k sm by simp
  moreover have "vc_moniker (dc_validators c ! k) = PStr m"
    using arg_cong [OF assms(2), of "\<lambda>xs. xs ! k"] k sm by simp
  moreover have "s \<noteq> m" using assms(4) in_moves by force
  moreover have "node_at F (sib D s) = Some Folder" "node_at F (sib D m) = None"
    "plain_name s" "plain_name m"
    using bspec [OF assms(3) [unfolded list_all_iff] in_moves]
      bspec [OF assms(5) [unfolded list_all_iff] in_moves]
      bspec [OF assms(6) [unfolded list_all_iff] in_moves] child_sib [of D m]
    by (simp_all del: split_paired_All)
  ultimately show "collect_rename H c D docker (?vs ! k) F = (Inr (map (\<lambda>(s, m). [(sib D s, sib D m)]) moves ! k), F)"
    using collect_rename_fresh [of H c docker k "dc_validators c ! k" s m F D] k sm by simp
qed

text \<open>What is where after moves between different names.\<close>

lemma after_moves_between:
  assumes "distinct (map fst moves @ map snd moves)"
  shows "(s, m) \<in> set moves \<Longrightarrow>
      after_moves D moves F (fst D, snd D @ m # rest) = node_at F (fst D, snd D @ s # rest) \<and>
      after_moves D moves F (fst D, snd D @ s # rest) = None"
    and "child D q \<notin> Some ` set (map fst moves @ map snd moves) \<Longrightarrow> after_moves D moves F q = node_at F q"
proof -
  have absent: "map_of (map prod.swap moves) y = None" if "y \<notin> snd ` set moves" for y
    using that by (force simp: map_of_eq_None_iff)
  then show "after_moves D moves F q = node_at F q" if "child D q \<notin> Some ` set (map fst moves @ map snd moves)"
    using that by (cases "child D q") (auto simp: after_moves_def simp del: split_paired_All)
  have child: "child D (fst D, snd D @ y # rest) = Some y" "respell D s (fst D, snd D @ y # rest) = (fst D, snd D @ s # rest)"
    for y by (simp_all add: child_def path_under_def respell_def)
  show "after_moves D moves F (fst D, snd D @ m # rest) = node_at F (fst D, snd D @ s # rest) \<and>
      after_moves D moves F (fst D, snd D @ s # rest) = None" if sm: "(s, m) \<in> set moves"
  proof -
    have "map_of (map prod.swap moves) m = Some s"
      using sm assms by (intro map_of_is_SomeI) (force simp: comp_def)+
    moreover have "s \<in> fst ` set moves" using sm by force
    moreover from this have "s \<notin> snd ` set moves" using assms by auto
    ultimately show ?thesis using absent [of s] by (simp add: after_moves_def child)
  qed
qed

lemma prepare_layout_done:
  assumes "map (socket_name H c docker) (zip [0..<length (dc_validators c)] (dc_validators c)) =
      map (Inr \<circ> fst) moves"
    and "map vc_moniker (dc_validators c) = map (PStr \<circ> snd) moves"
    and "list_all (\<lambda>(s, m). plain_name s \<and> plain_name m) moves"
    and "distinct (map fst moves @ map snd moves)" "is_dir F D"
    and "list_all (\<lambda>(s, m). node_at F (sib D s) = Some Folder) moves"
    and "list_all (\<lambda>(s, m). \<forall>q. child D q = Some m \<longrightarrow> node_at F q = None) moves"
  shows "\<exists>G. prepare_layout H TempoBackend c D docker F = (Inr (), G) \<and>
    (\<forall>(s, m) \<in> set moves. \<forall>rest.
       node_at G (fst D, snd D @ m # rest) = node_at F (fst D, snd D @ s # rest) \<and>
       node_at G (fst D, snd D @ s # rest) = None) \<and>
    (\<forall>q. child D q \<notin> Some ` set (map fst moves @ map snd moves) \<longrightarrow> node_at G q = node_at F q)"
proof -
  have concat: "concat (map (\<lambda>(s, m). [(sib D s, sib D m)]) moves) = map (\<lambda>(s, m). (sib D s, sib D m)) moves"
    by (induction moves) auto
  have "\<forall>s \<in> fst ` set moves. node_at F (sib D s) = Some Folder"
      "\<forall>m \<in> snd ` set moves. \<forall>q. child D q = Some m \<longrightarrow> node_at F q = None"
    using assms(6,7) unfolding list_all_iff by auto
  with rename_siblings [of moves F D] assms(4,5) obtain G where
    G: "forA (map (\<lambda>(s, m). (sib D s, sib D m)) moves) (\<lambda>(src, dst). rename_path src dst) F = (Inr (), G)"
      "\<And>x. node_at G x = after_moves D moves F x"
    by auto
  have "prepare_layout H TempoBackend c D docker F = (Inr (), G)"
    using collect_all [OF assms(1-4,6,7)] G(1) by (simp add: bindA_def concat)
  moreover have "node_at G (fst D, snd D @ m # rest) = node_at F (fst D, snd D @ s # rest) \<and>
       node_at G (fst D, snd D @ s # rest) = None" if "(s, m) \<in> set moves" for s m rest
    unfolding G(2) using that by (rule after_moves_between(1) [OF assms(4)])
  moreover have "node_at G q = node_at F q" if "child D q \<notin> Some ` set (map fst moves @ map snd moves)" for q
    unfolding G(2) using that by (rule after_moves_between(2) [OF assms(4)])
  ultimately show ?thesis by blast
qed

text \<open>
  C34. In a fresh data directory every node directory gets its moniker: when the sockets and the
  monikers of the validators are plain names, no name occurs twice, and the generator made a directory
  for every socket and nothing under a moniker, the layout succeeds; everything that was in the
  directory of a socket is then in the directory of its validator's moniker, nothing is left under the
  sockets, and the rest of the file system is as it was.
\<close>

theorem prepare_layout_moves:
  assumes "map (socket_name H c docker) (zip [0..<length (dc_validators c)] (dc_validators c)) =
      map (Inr \<circ> fst) moves"
    and "map vc_moniker (dc_validators c) = map (PStr \<circ> snd) moves"
    and "list_all (\<lambda>(s, m). plain_name s \<and> plain_name m) moves"
    and "distinct (map fst moves @ map snd moves)" "is_dir F D"
    and "list_all (\<lambda>(s, m). node_at F (sib D s) = Some Folder) moves"
    and "list_all (\<lambda>(s, m). \<forall>q. child D q = Some m \<longrightarrow> node_at F q = None) moves"
  shows "\<exists>G. prepare_layout H TempoBackend c D docker F = (Inr (), G) \<and>
    (\<forall>(s, m) \<in> set moves. \<forall>rest.
       node_at G (fst D, snd D @ m # rest) = node_at F (fst D, snd D @ s # rest) \<and>
       node_at G (fst D, snd D @ s # rest) = None) \<and>
    (\<forall>q. child D q \<notin> Some ` set (map fst moves @ map snd moves) \<longrightarrow> node_at G q = node_at F q)"
  by (rule prepare_layout_done [OF assms])

definition demo_root :: path where "demo_root = (''/'', [''d''])"

definition demo_host :: host where
  "demo_host =
     \<lparr>xtask = \<lambda>args F. (Inr 0, F), json_merge = \<lambda>s patch. Inr (PDict patch),
      json_dump = \<lambda>v. (py_str v, None), toml_dump = \<lambda>d. (py_str (PDict d), None),
      yaml_dump = \<lambda>sort v. (py_str v, None), yaml_load = \<lambda>s. Inr PNone,
      fresh_key = \<lambda>p. replicate 32 7, p2p_enode = \<lambda>p F. Inr (0, ''enode://ab@h:1''),
      other_ip = \<lambda>v k i. Inr []\<rparr>"

text \<open>A directory as the generator leaves it, for the two validators of \<open>demo_data\<close>.\<close>

definition demo_fs :: fs where
  "demo_fs =
     [(sib demo_root ''10.0.0.1:9010'', Folder), (sib demo_root ''10.0.0.2:9020'', Folder),
      ((''/'', [''d'', ''10.0.0.1:9010'', ''signing.key'']), TextFile ''k0''),
      ((''/'', [''d'', ''10.0.0.2:9020'', ''signing.key'']), TextFile ''k1''),
      (sib demo_root ''genesis.json'', TextFile ''{}''), (demo_root, Folder)]"

lemma demo_addresses: "dec_int 9010 = ''9010''" "dec_int 9020 = ''9020''"
proof -
  have "char_of (57 :: nat) = CHR ''9''" "char_of (48 :: nat) = CHR ''0''" "char_of (49 :: nat) = CHR ''1''"
    "char_of (50 :: nat) = CHR ''2''" by code_simp+
  then show "dec_int 9010 = ''9010''" "dec_int 9020 = ''9020''"
    by (simp_all add: dec_int_def dec_nat.simps [of 9010] dec_nat.simps [of 901] dec_nat.simps [of 90]
        dec_nat.simps [of 9] dec_nat.simps [of 9020] dec_nat.simps [of 902])
qed

text \<open>The names the generator gives the two directories of the example.\<close>

lemma demo_names:
  obtains c where "config_init demo_data = Inr c" "map vc_moniker (dc_validators c) = [PStr ''node1'', PStr ''node2'']"
    "\<forall>H. map (socket_name H c False) (zip [0..<length (dc_validators c)] (dc_validators c)) =
      [Inr ''10.0.0.1:9010'', Inr ''10.0.0.2:9020'']"
proof -
  have "case config_init demo_data of Inl e \<Rightarrow> False | Inr c \<Rightarrow>
      map vc_moniker (dc_validators c) = [PStr ''node1'', PStr ''node2''] \<and>
      map vc_host (dc_validators c) = [PStr ''10.0.0.1'', PStr ''10.0.0.2''] \<and>
      map vc_port (dc_validators c) = [PInt 9010, PInt 9020]"
    by code_simp
  then obtain c where c: "config_init demo_data = Inr c"
      "map vc_moniker (dc_validators c) = [PStr ''node1'', PStr ''node2'']"
      "map vc_host (dc_validators c) = [PStr ''10.0.0.1'', PStr ''10.0.0.2'']"
      "map vc_port (dc_validators c) = [PInt 9010, PInt 9020]" by (auto split: sum.splits)
  from c(2) obtain v w where vw: "dc_validators c = [v, w]" by (auto simp: map_eq_Cons_conv)
  have "[0..<length [v, w]] = [0, 1]" by (simp add: upt_rec)
  moreover have "addr_str v = ''10.0.0.1:9010''" "addr_str w = ''10.0.0.2:9020''"
    using c(3,4) demo_addresses by (simp_all add: vw addr_str_def)
  ultimately have "map (socket_name H c False) (zip [0..<length (dc_validators c)] (dc_validators c)) =
      [Inr ''10.0.0.1:9010'', Inr ''10.0.0.2:9020'']" for H
    by (simp add: vw socket_name_def)
  then show thesis using that c(1,2) by simp
qed

theorem prepare_layout_moves_witness:
  "\<exists>H c G. config_init demo_data = Inr c \<and> prepare_layout H TempoBackend c demo_root False demo_fs = (Inr (), G) \<and>
     node_at G (''/'', [''d'', ''node1'', ''signing.key'']) = Some (TextFile ''k0'') \<and>
     node_at G (''/'', [''d'', ''node2'', ''signing.key'']) = Some (TextFile ''k1'')"
proof -
  let ?moves = "[(''10.0.0.1:9010'', ''node1''), (''10.0.0.2:9020'', ''node2'')]"
  obtain c where c: "config_init demo_data = Inr c" "map vc_moniker (dc_validators c) = [PStr ''node1'', PStr ''node2'']"
    and socket: "\<forall>H. map (socket_name H c False) (zip [0..<length (dc_validators c)] (dc_validators c)) =
      [Inr ''10.0.0.1:9010'', Inr ''10.0.0.2:9020'']" by (rule demo_names) (rule that)
  have names: "map (socket_name H c False) (zip [0..<length (dc_validators c)] (dc_validators c)) =
      map (Inr \<circ> fst) ?moves" for H by (simp only: socket list.map comp_def fst_conv)
  have fr: "\<forall>q. child demo_root q = Some m \<longrightarrow> node_at demo_fs q = None" if "m = ''node1'' \<or> m = ''node2''" for m
    using that by (auto simp: demo_fs_def child_def demo_root_def sib_def path_under_def split: if_splits)
  have fresh: "list_all (\<lambda>(s, m). \<forall>q. child demo_root q = Some m \<longrightarrow> node_at demo_fs q = None) ?moves"
    using fr [of "''node1''"] fr [of "''node2''"] by (simp del: split_paired_All)
  have "list_all (\<lambda>(s, m). plain_name s \<and> plain_name m) ?moves" "distinct (map fst ?moves @ map snd ?moves)"
    "is_dir demo_fs demo_root"
    "list_all (\<lambda>(s, m). node_at demo_fs (sib demo_root s) = Some Folder) ?moves"
    by (simp_all add: plain_name_def is_dir_def demo_fs_def demo_root_def sib_def)
  then have "\<exists>G. prepare_layout demo_host TempoBackend c demo_root False demo_fs = (Inr (), G) \<and>
      (\<forall>(s, m) \<in> set ?moves. \<forall>rest.
        node_at G (fst demo_root, snd demo_root @ m # rest) = node_at demo_fs (fst demo_root, snd demo_root @ s # rest) \<and>
        node_at G (fst demo_root, snd demo_root @ s # rest) = None) \<and>
      (\<forall>q. child demo_root q \<notin> Some ` set (map fst ?moves @ map snd ?moves) \<longrightarrow> node_at G q = node_at demo_fs q)"
    by (intro prepare_layout_moves names fresh) (simp_all only: c(2) list.map comp_def snd_conv)
  then obtain G where G: "prepare_layout demo_host TempoBackend c demo_root False demo_fs = (Inr (), G)"
      "\<forall>(s, m) \<in> set ?moves. \<forall>rest.
        node_at G (fst demo_root, snd demo_root @ m # rest) = node_at demo_fs (fst demo_root, snd demo_root @ s # rest) \<and>
        node_at G (fst demo_root, snd demo_root @ s # rest) = None"
    by (elim exE conjE)
  from G(2) have "node_at G (''/'', [''d'', ''node1'', ''signing.key'']) =
      node_at demo_fs (''/'', [''d'', ''10.0.0.1:9010'', ''signing.key''])"
    "node_at G (''/'', [''d'', ''node2'', ''signing.key'']) =
      node_at demo_fs (''/'', [''d'', ''10.0.0.2:9020'', ''signing.key''])"
    by (simp_all add: demo_root_def)
  moreover have "node_at demo_fs (''/'', [''d'', ''10.0.0.1:9010'', ''signing.key'']) = Some (TextFile ''k0'')"
    "node_at demo_fs (''/'', [''d'', ''10.0.0.2:9020'', ''signing.key'']) = Some (TextFile ''k1'')"
    by (simp_all add: demo_fs_def sib_def demo_root_def)
  ultimately show ?thesis using c(1) G(1) by (intro exI [of _ demo_host] exI [of _ c] exI [of _ G]) simp
qed

end
