(* ===== verification/Builder.thy ===== *)
theory Builder
  imports Payloads
begin

text \<open>
  The class \<open>Builder\<close> of \<open>tempo/transaction.py\<close>: a mutable object whose setters return it, so a
  chain of calls is a sequence of steps on its state. The specification reads the transaction off
  the sequence: the last value given to each setter, the calls and the access list entries in the
  order they were added.
\<close>

section \<open>The state and the setters\<close>

record builder =
  b_chain_id :: int
  b_max_priority_fee :: int
  b_max_fee :: int
  b_gas_limit :: int
  b_calls :: "call list"
  b_access_list :: "access_entry list"
  b_nonce_key :: int
  b_nonce :: int
  b_valid_before :: "int option"
  b_valid_after :: "int option"
  b_fee_token :: "bytes option"
  b_awaiting_fee_payer :: bool

definition builder_init :: builder where
  "builder_init = \<lparr>
     b_chain_id = DEFAULT_CHAIN_ID, b_max_priority_fee = 0, b_max_fee = 0, b_gas_limit = 21000,
     b_calls = [], b_access_list = [], b_nonce_key = DEFAULT_NONCE_KEY, b_nonce = 0,
     b_valid_before = None, b_valid_after = None, b_fee_token = None, b_awaiting_fee_payer = False\<rparr>"

definition set_fee_token :: "ext \<Rightarrow> bytes_like option \<Rightarrow> builder \<Rightarrow> builder result" where
  "set_fee_token E token b =
     (case token of
        None \<Rightarrow> Inr (b\<lparr>b_fee_token := None\<rparr>)
      | Some v \<Rightarrow> bindE (as_optional_address E (Some v)) (\<lambda>a. Inr (b\<lparr>b_fee_token := a\<rparr>)))"

definition add_call :: "ext \<Rightarrow> bytes_like \<Rightarrow> int \<Rightarrow> bytes_like \<Rightarrow> builder \<Rightarrow> builder result" where
  "add_call E to val dat b =
     bindE (call_create E to val dat) (\<lambda>c. Inr (b\<lparr>b_calls := b_calls b @ [c]\<rparr>))"

definition add_access_list_entry ::
    "ext \<Rightarrow> bytes_like \<Rightarrow> bytes_like list \<Rightarrow> builder \<Rightarrow> builder result" where
  "add_access_list_entry E address keys b =
     bindE (access_list_item_create E address keys) (\<lambda>i.
       Inr (b\<lparr>b_access_list := b_access_list b @ [AccessItem i]\<rparr>))"

text \<open>One method call of a chain.\<close>

datatype builder_op =
    OpChainId int
  | OpMaxPriorityFee int
  | OpMaxFee int
  | OpGasLimit int
  | OpNonce int
  | OpNonceKey int
  | OpValidBefore int
  | OpValidAfter int
  | OpFeeToken "bytes_like option"
  | OpAwaitingFeePayer bool
  | OpAddCall bytes_like int bytes_like
  | OpAddAccess bytes_like "bytes_like list"

fun builder_step :: "ext \<Rightarrow> builder_op \<Rightarrow> builder \<Rightarrow> builder result" where
  "builder_step E (OpChainId v) b = Inr (b\<lparr>b_chain_id := v\<rparr>)"
| "builder_step E (OpMaxPriorityFee v) b = Inr (b\<lparr>b_max_priority_fee := v\<rparr>)"
| "builder_step E (OpMaxFee v) b = Inr (b\<lparr>b_max_fee := v\<rparr>)"
| "builder_step E (OpGasLimit v) b = Inr (b\<lparr>b_gas_limit := v\<rparr>)"
| "builder_step E (OpNonce v) b = Inr (b\<lparr>b_nonce := v\<rparr>)"
| "builder_step E (OpNonceKey v) b = Inr (b\<lparr>b_nonce_key := v\<rparr>)"
| "builder_step E (OpValidBefore v) b = Inr (b\<lparr>b_valid_before := Some v\<rparr>)"
| "builder_step E (OpValidAfter v) b = Inr (b\<lparr>b_valid_after := Some v\<rparr>)"
| "builder_step E (OpFeeToken v) b = set_fee_token E v b"
| "builder_step E (OpAwaitingFeePayer v) b = Inr (b\<lparr>b_awaiting_fee_payer := v\<rparr>)"
| "builder_step E (OpAddCall to val dat) b = add_call E to val dat b"
| "builder_step E (OpAddAccess a ks) b = add_access_list_entry E a ks b"

fun builder_run :: "ext \<Rightarrow> builder_op list \<Rightarrow> builder \<Rightarrow> builder result" where
  "builder_run E [] b = Inr b"
| "builder_run E (p # ps) b = bindE (builder_step E p b) (builder_run E ps)"

definition build :: "ext \<Rightarrow> builder \<Rightarrow> tempo_tx result" where
  "build E b = tx_create E (tx_args_default\<lparr>
     arg_chain_id := b_chain_id b,
     arg_gas_limit := b_gas_limit b,
     arg_max_fee_per_gas := b_max_fee b,
     arg_max_priority_fee_per_gas := b_max_priority_fee b,
     arg_nonce := b_nonce b,
     arg_nonce_key := b_nonce_key b,
     arg_valid_before := b_valid_before b,
     arg_valid_after := b_valid_after b,
     arg_fee_token := map_option BBytes (b_fee_token b),
     arg_awaiting_fee_payer := b_awaiting_fee_payer b,
     arg_calls := b_calls b,
     arg_access_list := b_access_list b\<rparr>)"

section \<open>The invariant of a builder\<close>

definition builder_ok :: "builder \<Rightarrow> bool" where
  "builder_ok b \<longleftrightarrow> address_opt_ok (b_fee_token b) \<and> list_all call_ok (b_calls b) \<and>
     list_all entry_ok (b_access_list b)"

lemma builder_init_ok: "builder_ok builder_init"
  by (simp add: builder_ok_def builder_init_def)

lemma builder_step_ok: "builder_step E p b = Inr b' \<Longrightarrow> builder_ok b \<Longrightarrow> builder_ok b'"
  by (cases p)
     (auto simp: builder_ok_def set_fee_token_def add_call_def add_access_list_entry_def entry_ok_def
        access_list_item_create_def call_create_def bindE_Inr_conv
        dest: as_optional_address_ok call_init_ok access_list_item_init_ok split: option.splits)

lemma builder_run_ok: "builder_run E ps b = Inr b' \<Longrightarrow> builder_ok b \<Longrightarrow> builder_ok b'"
  by (induction ps arbitrary: b) (auto simp: bindE_Inr_conv dest: builder_step_ok)

text \<open>\<open>build\<close> cannot fail on a builder that meets the invariant.\<close>

definition built_tx :: "builder \<Rightarrow> tempo_tx" where
  "built_tx b = tx_default\<lparr>
     chain_id := b_chain_id b, gas_limit := b_gas_limit b, max_fee_per_gas := b_max_fee b,
     max_priority_fee_per_gas := b_max_priority_fee b, nonce := b_nonce b, nonce_key := b_nonce_key b,
     valid_before := b_valid_before b, valid_after := b_valid_after b, fee_token := b_fee_token b,
     awaiting_fee_payer := b_awaiting_fee_payer b, calls := b_calls b, access_list := b_access_list b\<rparr>"

lemma build_conv: "builder_ok b \<Longrightarrow> build E b = Inr (built_tx b)"
  by (simp add: build_def tx_create_conv built_tx_def tx_default_def tx_args_default_def builder_ok_def
      as_optional_address_idem)

lemma built_tx_wf: "builder_ok b \<Longrightarrow> tx_wf (built_tx b)"
  by (simp add: builder_ok_def built_tx_def tx_wf_def tx_ok_def tx_addresses_ok_def fee_payer_ok_def
      tx_default_def)

section \<open>The specification: what a chain of calls means\<close>

text \<open>The values a selector finds in a chain, and the last of them.\<close>

definition given :: "(builder_op \<Rightarrow> 'a option) \<Rightarrow> builder_op list \<Rightarrow> 'a list" where
  "given f ps = List.map_filter f ps"

definition last_given :: "(builder_op \<Rightarrow> 'a option) \<Rightarrow> 'a \<Rightarrow> builder_op list \<Rightarrow> 'a" where
  "last_given f d ps = last (d # given f ps)"

lemma given_simps [simp]:
  "given f [] = []"
  "given f (p # ps) = (case f p of None \<Rightarrow> given f ps | Some v \<Rightarrow> v # given f ps)"
  by (simp_all add: given_def map_filter_simps split: option.split)

lemma last_given_simps [simp]:
  "last_given f d [] = d"
  "last_given f d (p # ps) = last_given f (case f p of None \<Rightarrow> d | Some v \<Rightarrow> v) ps"
  by (simp_all add: last_given_def split: option.split)

definition chain_arg :: "builder_op \<Rightarrow> int option" where
  "chain_arg p = (case p of OpChainId v \<Rightarrow> Some v | _ \<Rightarrow> None)"
definition priority_arg :: "builder_op \<Rightarrow> int option" where
  "priority_arg p = (case p of OpMaxPriorityFee v \<Rightarrow> Some v | _ \<Rightarrow> None)"
definition max_fee_arg :: "builder_op \<Rightarrow> int option" where
  "max_fee_arg p = (case p of OpMaxFee v \<Rightarrow> Some v | _ \<Rightarrow> None)"
definition gas_arg :: "builder_op \<Rightarrow> int option" where
  "gas_arg p = (case p of OpGasLimit v \<Rightarrow> Some v | _ \<Rightarrow> None)"
definition nonce_arg :: "builder_op \<Rightarrow> int option" where
  "nonce_arg p = (case p of OpNonce v \<Rightarrow> Some v | _ \<Rightarrow> None)"
definition nonce_key_arg :: "builder_op \<Rightarrow> int option" where
  "nonce_key_arg p = (case p of OpNonceKey v \<Rightarrow> Some v | _ \<Rightarrow> None)"
definition before_arg :: "builder_op \<Rightarrow> int option option" where
  "before_arg p = (case p of OpValidBefore v \<Rightarrow> Some (Some v) | _ \<Rightarrow> None)"
definition after_arg :: "builder_op \<Rightarrow> int option option" where
  "after_arg p = (case p of OpValidAfter v \<Rightarrow> Some (Some v) | _ \<Rightarrow> None)"
definition token_arg :: "builder_op \<Rightarrow> bytes_like option option" where
  "token_arg p = (case p of OpFeeToken v \<Rightarrow> Some v | _ \<Rightarrow> None)"
definition awaiting_arg :: "builder_op \<Rightarrow> bool option" where
  "awaiting_arg p = (case p of OpAwaitingFeePayer v \<Rightarrow> Some v | _ \<Rightarrow> None)"
definition call_arg :: "builder_op \<Rightarrow> (bytes_like \<times> int \<times> bytes_like) option" where
  "call_arg p = (case p of OpAddCall a v d \<Rightarrow> Some (a, v, d) | _ \<Rightarrow> None)"
definition access_arg :: "builder_op \<Rightarrow> (bytes_like \<times> bytes_like list) option" where
  "access_arg p = (case p of OpAddAccess a ks \<Rightarrow> Some (a, ks) | _ \<Rightarrow> None)"

lemmas op_args = chain_arg_def priority_arg_def max_fee_arg_def gas_arg_def nonce_arg_def
  nonce_key_arg_def before_arg_def after_arg_def token_arg_def awaiting_arg_def call_arg_def
  access_arg_def

text \<open>The arguments of \<open>TempoTransaction.create\<close> a chain stands for.\<close>

definition chain_args :: "builder_op list \<Rightarrow> call list \<Rightarrow> access_list_item list \<Rightarrow> tx_args" where
  "chain_args ps cs items = tx_args_default\<lparr>
     arg_chain_id := last_given chain_arg DEFAULT_CHAIN_ID ps,
     arg_gas_limit := last_given gas_arg 21000 ps,
     arg_max_fee_per_gas := last_given max_fee_arg 0 ps,
     arg_max_priority_fee_per_gas := last_given priority_arg 0 ps,
     arg_nonce := last_given nonce_arg 0 ps,
     arg_nonce_key := last_given nonce_key_arg DEFAULT_NONCE_KEY ps,
     arg_valid_before := last_given before_arg None ps,
     arg_valid_after := last_given after_arg None ps,
     arg_fee_token := last_given token_arg None ps,
     arg_awaiting_fee_payer := last_given awaiting_arg False ps,
     arg_calls := cs,
     arg_access_list := map AccessItem items\<rparr>"

lemma builder_run_scalars:
  "builder_run E ps b = Inr b' \<Longrightarrow>
     b_chain_id b' = last_given chain_arg (b_chain_id b) ps \<and>
     b_max_priority_fee b' = last_given priority_arg (b_max_priority_fee b) ps \<and>
     b_max_fee b' = last_given max_fee_arg (b_max_fee b) ps \<and>
     b_gas_limit b' = last_given gas_arg (b_gas_limit b) ps \<and>
     b_nonce b' = last_given nonce_arg (b_nonce b) ps \<and>
     b_nonce_key b' = last_given nonce_key_arg (b_nonce_key b) ps \<and>
     b_valid_before b' = last_given before_arg (b_valid_before b) ps \<and>
     b_valid_after b' = last_given after_arg (b_valid_after b) ps \<and>
     b_awaiting_fee_payer b' = last_given awaiting_arg (b_awaiting_fee_payer b) ps"
proof (induction ps arbitrary: b)
  case (Cons p ps)
  then obtain c where "builder_step E p b = Inr c" "builder_run E ps c = Inr b'"
    by (auto simp: bindE_Inr_conv)
  with Cons.IH [of c] show ?case
    by (cases p) (auto simp: op_args set_fee_token_def add_call_def add_access_list_entry_def
        bindE_Inr_conv split: option.splits)
qed simp

lemma builder_run_token:
  "builder_run E ps b = Inr b' \<Longrightarrow> as_optional_address E tok = Inr (b_fee_token b) \<Longrightarrow>
     as_optional_address E (last_given token_arg tok ps) = Inr (b_fee_token b')"
proof (induction ps arbitrary: b tok)
  case (Cons p ps)
  then obtain c where c: "builder_step E p b = Inr c" "builder_run E ps c = Inr b'"
    by (auto simp: bindE_Inr_conv)
  have "as_optional_address E (case token_arg p of None \<Rightarrow> tok | Some v \<Rightarrow> v) = Inr (b_fee_token c)"
    using c(1) Cons.prems(2)
    by (cases p) (auto simp: token_arg_def set_fee_token_def add_call_def add_access_list_entry_def
        bindE_Inr_conv split: option.splits)
  from Cons.IH [OF c(2) this] show ?case by simp
qed simp

lemma builder_run_lists:
  "builder_run E ps b = Inr b' \<Longrightarrow>
     (\<exists>cs. mapE (\<lambda>(a, v, d). call_create E a v d) (given call_arg ps) = Inr cs \<and>
           b_calls b' = b_calls b @ cs) \<and>
     (\<exists>items. mapE (\<lambda>(a, ks). access_list_item_create E a ks) (given access_arg ps) = Inr items \<and>
           b_access_list b' = b_access_list b @ map AccessItem items)"
proof (induction ps arbitrary: b)
  case (Cons p ps)
  then obtain c where "builder_step E p b = Inr c" "builder_run E ps c = Inr b'"
    by (auto simp: bindE_Inr_conv)
  with Cons.IH [of c] show ?case
    by (cases p) (auto simp: call_arg_def access_arg_def set_fee_token_def add_call_def
        add_access_list_entry_def bindE_Inr_conv split: option.splits)
qed simp

text \<open>
  C21. A chain of builder calls is \<open>TempoTransaction.create\<close>: if the chain raises nothing, \<open>build\<close>
  returns, unsigned and well-formed, the transaction that \<open>create\<close> makes of the last value given
  to each setter (the default where none was given), the calls in the order they were added and
  the access list entries in the order they were added.
\<close>

theorem builder_chain_is_create:
  assumes "builder_run E ps builder_init = Inr b"
  shows "\<exists>cs items t.
    mapE (\<lambda>(a, v, d). call_create E a v d) (given call_arg ps) = Inr cs \<and>
    mapE (\<lambda>(a, ks). access_list_item_create E a ks) (given access_arg ps) = Inr items \<and>
    build E b = Inr t \<and> tx_create E (chain_args ps cs items) = Inr t \<and> tx_wf t \<and>
    \<not> has_sender_signature t \<and> \<not> has_fee_payer_signature t"
proof -
  have ok: "builder_ok b" using builder_run_ok [OF assms builder_init_ok] .
  from builder_run_lists [OF assms] obtain cs items where
    l: "mapE (\<lambda>(a, v, d). call_create E a v d) (given call_arg ps) = Inr cs" "b_calls b = cs"
      "mapE (\<lambda>(a, ks). access_list_item_create E a ks) (given access_arg ps) = Inr items"
      "b_access_list b = map AccessItem items"
    by (auto simp: builder_init_def)
  have tok: "as_optional_address E (last_given token_arg None ps) = Inr (b_fee_token b)"
    by (rule builder_run_token [OF assms]) (simp add: builder_init_def)
  note sc = builder_run_scalars [OF assms]
  have "tx_create E (chain_args ps cs items) = Inr (built_tx b)"
    using l tok sc by (simp add: tx_create_conv chain_args_def tx_args_default_def built_tx_def
        tx_default_def builder_init_def)
  moreover have "\<not> has_sender_signature (built_tx b) \<and> \<not> has_fee_payer_signature (built_tx b)"
    by (simp add: built_tx_def tx_default_def has_sender_signature_def has_fee_payer_signature_def)
  ultimately show ?thesis using l build_conv [OF ok] built_tx_wf [OF ok] by blast
qed

definition demo_chain :: "builder_op list" where
  "demo_chain = [OpNonce 1, OpAddCall (BBytes (replicate 20 0x11)) 5 (BBytes []), OpFeeToken None,
     OpNonce 2, OpAddCall (BBytes []) 0 (BBytes [1])]"

theorem builder_chain_is_create_witness:
  "\<exists>b t. builder_run ref_ext demo_chain builder_init = Inr b \<and> build ref_ext b = Inr t \<and>
     tx_wf t \<and> last_given nonce_arg 0 demo_chain = 2"
proof -
  have "\<exists>b. builder_run ref_ext demo_chain builder_init = Inr b"
    by (simp add: demo_chain_def set_fee_token_def add_call_def call_create_def call_init_def
        as_address_def address_of_bytes_def)
  then obtain b where b: "builder_run ref_ext demo_chain builder_init = Inr b" by blast
  moreover have "last_given nonce_arg 0 demo_chain = 2"
    by (simp add: demo_chain_def nonce_arg_def)
  ultimately show ?thesis using builder_chain_is_create [OF b] by blast
qed

definition op_accepted :: "ext \<Rightarrow> builder_op \<Rightarrow> bool" where
  "op_accepted E p \<longleftrightarrow>
     (case p of
        OpFeeToken v \<Rightarrow> \<not> isl (as_optional_address E v)
      | OpAddCall a v d \<Rightarrow> \<not> isl (call_init E a v d)
      | OpAddAccess a ks \<Rightarrow> \<not> isl (access_list_item_create E a ks)
      | _ \<Rightarrow> True)"

lemma builder_step_accepts: "(\<exists>b'. builder_step E p b = Inr b') \<longleftrightarrow> op_accepted E p"
  by (cases p) (auto simp: op_accepted_def set_fee_token_def add_call_def add_access_list_entry_def
      call_create_def isl_def bindE_Inr_conv split: option.splits, (metis sum.exhaust)+)

text \<open>
  A chain raises exactly when one of its calls would raise on its own: a fee token that is no
  address, also one a later call overrides, a call with a bad target, data or a negative value, a
  bad access list entry.
\<close>

lemma builder_chain_accepted:
  "(\<exists>b'. builder_run E ps b = Inr b') \<longleftrightarrow> list_all (op_accepted E) ps"
proof (induction ps arbitrary: b)
  case (Cons p ps)
  have "(\<exists>b'. builder_run E (p # ps) b = Inr b') \<longleftrightarrow>
      (\<exists>c. builder_step E p b = Inr c \<and> (\<exists>b'. builder_run E ps c = Inr b'))"
    by (auto simp: bindE_Inr_conv)
  with Cons builder_step_accepts [of E p b] show ?case by auto
qed simp

end
