(* ===== verification/Frames.thy ===== *)
theory Frames
  imports Files
begin

text \<open>
  What an action guarantees about the file system, whether it returns or raises: a relation between the
  file systems before and after. Any reflexive and transitive relation composes over sequences, branches
  and loops (locale \<open>guarantee\<close>). The relation \<open>keeps W\<close>, that every directory and every file not named in \<open>W\<close> is
  kept, is an instance; a second one, \<open>unchanged P\<close>, is in the theory of the supervisor configuration.
\<close>

section \<open>The contract\<close>

definition guarantees :: "(fs \<Rightarrow> fs \<Rightarrow> bool) \<Rightarrow> 'a act \<Rightarrow> bool" where
  "guarantees R m \<longleftrightarrow> (\<forall>F. R F (snd (m F)))"

lemma guaranteesI: "(\<And>F r G. m F = (r, G) \<Longrightarrow> R F G) \<Longrightarrow> guarantees R m"
  unfolding guarantees_def by (metis prod.collapse)

lemma guaranteesD: "guarantees R m \<Longrightarrow> m F = (r, G) \<Longrightarrow> R F G"
  unfolding guarantees_def by (metis snd_conv)

text \<open>A loop that threads a value.\<close>

fun foldA :: "('a \<Rightarrow> 's \<Rightarrow> 's act) \<Rightarrow> 'a list \<Rightarrow> 's \<Rightarrow> 's act" where
  "foldA f [] s = pureA (Inr s)"
| "foldA f (x # xs) s = bindA (f x s) (foldA f xs)"

locale guarantee =
  fixes R :: "fs \<Rightarrow> fs \<Rightarrow> bool"
  assumes unchanged_ok: "R F F"
    and composes: "R F G \<Longrightarrow> R G K \<Longrightarrow> R F K"
begin

lemma pure: "guarantees R (pureA r)"
  by (simp add: guarantees_def pureA_def unchanged_ok)

lemma reads: "guarantees R (readA g)"
  by (simp add: guarantees_def readA_def unchanged_ok)

lemma sequence: "guarantees R m \<Longrightarrow> (\<And>a. guarantees R (f a)) \<Longrightarrow> guarantees R (bindA m f)"
proof (rule guaranteesI)
  fix F r K
  assume m: "guarantees R m" and f: "\<And>a. guarantees R (f a)" and run: "bindA m f F = (r, K)"
  obtain s G where s: "m F = (s, G)" by (cases "m F")
  with m have "R F G" by (rule guaranteesD)
  moreover have "R G K" if "s = Inr a" for a
    using guaranteesD [OF f [of a], of G r K] run s that by (simp add: bindA_def)
  ultimately show "R F K" using run s composes by (cases s) (auto simp: bindA_def)
qed

lemma nothing: "guarantees R (\<lambda>F. (r, F))"
  by (simp add: guarantees_def unchanged_ok)

lemma branch: "guarantees R m \<Longrightarrow> guarantees R n \<Longrightarrow> guarantees R (if b then m else n)"
  by simp

text \<open>A branch that looks at the file system.\<close>

lemma look: "guarantees R m \<Longrightarrow> guarantees R n \<Longrightarrow> guarantees R (\<lambda>F. if P F then m F else n F)"
  by (simp add: guarantees_def)

lemma collect: "(\<And>x. x \<in> set xs \<Longrightarrow> guarantees R (f x)) \<Longrightarrow> guarantees R (mapA f xs)"
  by (induction xs) (auto intro!: sequence pure)

lemma each: "(\<And>x. x \<in> set xs \<Longrightarrow> guarantees R (f x)) \<Longrightarrow> guarantees R (forA xs f)"
  unfolding forA_def by (intro sequence collect pure)

lemma thread: "(\<And>x s. guarantees R (f x s)) \<Longrightarrow> guarantees R (foldA f xs s)"
  by (induction xs arbitrary: s) (auto intro!: sequence pure)

lemma make_dirs_from_ok: "(\<And>p. guarantees R (make_dir p)) \<Longrightarrow> guarantees R (make_dirs_from p xs)"
  by (induction xs arbitrary: p) (auto intro!: sequence pure)

lemma make_dirs_ok: "(\<And>p. guarantees R (make_dir p)) \<Longrightarrow> guarantees R (make_dirs p)"
  unfolding make_dirs_def by (rule make_dirs_from_ok)

end

section \<open>Everything but some names is kept\<close>

definition keeps :: "string set \<Rightarrow> fs \<Rightarrow> fs \<Rightarrow> bool" where
  "keeps W F G \<longleftrightarrow> (\<forall>p n. node_at F p = Some n \<longrightarrow> n = Folder \<or> path_name p \<notin> W \<longrightarrow> node_at G p = Some n)"

lemma keepsD: "keeps W F G \<Longrightarrow> node_at F p = Some n \<Longrightarrow> n = Folder \<or> path_name p \<notin> W \<Longrightarrow> node_at G p = Some n"
  unfolding keeps_def by blast

interpretation kept: guarantee "keeps W"
  by unfold_locales (simp_all add: keeps_def del: split_paired_All)

lemma keeps_write: "path_name p \<in> W \<Longrightarrow> guarantees (keeps W) (write_text p s)"
  by (rule guaranteesI)
    (auto simp: write_text_def keeps_def simp del: split_paired_All split: if_splits)

text \<open>A file that is written only where there is none.\<close>

lemma keeps_new: "\<not> path_exists F p \<Longrightarrow> write_text p s F = (r, G) \<Longrightarrow> keeps W F G"
  by (auto simp: write_text_def keeps_def path_exists_def simp del: split_paired_All split: if_splits)

lemma keeps_make_dir: "guarantees (keeps W) (make_dir p)"
  by (rule guaranteesI)
    (auto simp: make_dir_def keeps_def is_dir_def simp del: split_paired_All split: if_splits)

lemmas keeps_make_dirs = kept.make_dirs_ok [OF keeps_make_dir]

end
