(* ===== verification/Supervisor.thy ===== *)
theory Supervisor
  imports Backends Frames
begin

text \<open>
  The native half of \<open>tempo/devnet/supervisor.py\<close>: trusted peers, the genesis patch, the per-node files
  and the supervisor configuration. The data directory is given resolved; file modes and messages are
  not modelled. An INI file is the list of its sections in order.
\<close>

definition SUPERVISOR_CONFIG_FILE :: string where "SUPERVISOR_CONFIG_FILE = ''supervisord.ini''"

section \<open>Peers and per-node files\<close>

definition enode_url :: "string \<Rightarrow> string \<Rightarrow> int \<Rightarrow> string" where
  "enode_url identity host port = ''enode://'' @ py_strip identity @ ''@'' @ host @ '':'' @ dec_int port"

definition trusted_peer :: "fs \<Rightarrow> path \<Rightarrow> validator_config \<Rightarrow> string list result" where
  "trusted_peer F data_dir v =
     bindE (path_join data_dir (dir_name v)) (\<lambda>val_dir.
       let identity_file = path_add val_dir ''enode.identity'' in
       if \<not> path_exists F identity_file then Inr []
       else
         bindE (port_of execution_p2p_port (vc_base_port v)) (\<lambda>exec_port.
         bindE (read_text F identity_file) (\<lambda>s.
           Inr [enode_url s (py_str (vc_host v)) exec_port])))"

definition trusted_peers :: "devnet_config \<Rightarrow> path \<Rightarrow> fs \<Rightarrow> string list result" where
  "trusted_peers c data_dir F =
     bindE (mapE (trusted_peer F data_dir) (dc_validators c)) (\<lambda>ps. Inr (concat ps))"

definition write_run_script :: "path \<Rightarrow> pyval list \<Rightarrow> path act" where
  "write_run_script val_dir args =
     bindA (pureA (run_script_content args [] False)) (\<lambda>s.
     bindA (write_text (path_add val_dir ''run.sh'') s) (\<lambda>_.
       pureA (Inr (path_add val_dir ''run.sh''))))"

definition apply_genesis_patch :: "host \<Rightarrow> path \<Rightarrow> pydict \<Rightarrow> unit act" where
  "apply_genesis_patch H data_dir patch F =
     (let genesis_path = path_add data_dir ''genesis.json'' in
      if patch = [] \<or> \<not> path_exists F genesis_path then (Inr (), F)
      else
        bindA (readA (\<lambda>F. read_text F genesis_path)) (\<lambda>s.
        bindA (pureA (json_merge H s patch)) (\<lambda>genesis.
          dump_file genesis_path (json_dump H genesis))) F)"

definition write_reth_config :: "host \<Rightarrow> path \<Rightarrow> pydict \<Rightarrow> unit act" where
  "write_reth_config H val_dir patch =
     (if patch = [] then pureA (Inr ())
      else dump_file (path_add val_dir ''reth.toml'') (toml_dump H patch))"

definition copy_genesis :: "devnet_config \<Rightarrow> path \<Rightarrow> unit act" where
  "copy_genesis c data_dir F =
     (let genesis_src = path_add data_dir ''genesis.json'' in
      if path_exists F genesis_src then
        forA (dc_validators c) (\<lambda>v.
          bindA (pureA (path_join data_dir (dir_name v))) (\<lambda>val_dir.
          bindA (readA (\<lambda>F. read_text F genesis_src)) (\<lambda>s.
            write_text (path_add val_dir ''genesis.json'') s))) F
      else (Inr (), F))"

section \<open>The supervisor configuration\<close>

type_synonym ini = "(string \<times> (string \<times> string) list) list"

definition add_section :: "ini \<Rightarrow> string \<Rightarrow> ini result" where
  "add_section i s =
     (if s \<in> set (map fst i) then Inl (LibraryError ''DuplicateSectionError'') else Inr (i @ [(s, [])]))"

definition set_section :: "ini \<Rightarrow> string \<Rightarrow> (string \<times> string) list \<Rightarrow> ini" where
  "set_section i s kvs = map (\<lambda>(t, old). (t, if t = s then kvs else old)) i"

text \<open>\<open>ini.write(fp)\<close>: a newline in a value is followed by a tab.\<close>

definition ini_value :: "string \<Rightarrow> string" where
  "ini_value s = concat (map (\<lambda>c. if c = newline then [newline, CHR 0x09] else [c]) s)"

definition ini_text :: "ini \<Rightarrow> string" where
  "ini_text i = concat (map (\<lambda>(s, kvs).
     ''['' @ s @ '']'' @ [newline]
     @ concat (map (\<lambda>(k, v). k @ '' = '' @ ini_value v @ [newline]) kvs) @ [newline]) i)"

definition COMMON_PROG_OPTIONS :: "(string \<times> string) list" where
  "COMMON_PROG_OPTIONS =
     [(''autostart'', ''true''), (''autorestart'', ''true''), (''redirect_stderr'', ''true''),
      (''startsecs'', ''3''), (''stopwaitsecs'', ''10'')]"

definition daemon_sections :: "path \<Rightarrow> ini" where
  "daemon_sections data_dir =
     (let d = path_text data_dir; sock = path_text (path_add data_dir ''supervisor.sock'') in
      [(''supervisord'',
          [(''pidfile'', d @ ''/supervisord.pid''), (''nodaemon'', ''true''),
           (''logfile'', d @ ''/supervisord.log''), (''logfile_maxbytes'', ''0''), (''strip_ansi'', ''true'')]),
       (''rpcinterface:supervisor'',
          [(''supervisor.rpcinterface_factory'', ''supervisor.rpcinterface:make_main_rpcinterface'')]),
       (''unix_http_server'', [(''file'', sock)]),
       (''supervisorctl'', [(''serverurl'', ''unix://'' @ sock)])])"

definition program_section :: "path \<Rightarrow> (string \<times> string) list" where
  "program_section val_dir =
     COMMON_PROG_OPTIONS
     @ [(''directory'', path_text val_dir), (''command'', path_text (path_add val_dir ''run.sh'')),
        (''stdout_logfile'', path_text val_dir @ ''/node.log'')]"

fun write_programs ::
    "host \<Rightarrow> backend \<Rightarrow> devnet_config \<Rightarrow> path \<Rightarrow> string list \<Rightarrow> (nat \<times> validator_config) list \<Rightarrow> ini
       \<Rightarrow> ini act" where
  "write_programs H b c data_dir peers [] i = pureA (Inr i)"
| "write_programs H b c data_dir peers ((index, v) # rest) i =
     bindA (pureA (path_join data_dir (dir_name v))) (\<lambda>val_dir.
     let prgname = ''program:'' @ py_str (dir_name v) in
     bindA (pureA (add_section i prgname)) (\<lambda>i.
     bindA (node_args b c v index val_dir ''./genesis.json'' ''.'' peers (dc_patch_node_flags c)) (\<lambda>args.
     bindA (write_run_script val_dir args) (\<lambda>_.
     bindA (write_reth_config H val_dir (dc_patch_reth c)) (\<lambda>_.
       write_programs H b c data_dir peers rest (set_section i prgname (program_section val_dir)))))))"

definition generate_supervisor_config ::
    "host \<Rightarrow> devnet_config \<Rightarrow> path \<Rightarrow> bool \<Rightarrow> path act" where
  "generate_supervisor_config H c data_dir force =
     bindA (apply_genesis_patch H data_dir (dc_patch_genesis c)) (\<lambda>_.
     bindA (copy_genesis c data_dir) (\<lambda>_ F.
       let dst = path_add data_dir SUPERVISOR_CONFIG_FILE in
       if path_exists F dst \<and> \<not> force then (Inr dst, F)
       else
         bindA (readA (trusted_peers c data_dir)) (\<lambda>peers.
         bindA (pureA (get_backend c)) (\<lambda>b.
         bindA (write_programs H b c data_dir peers
                  (zip [0..<length (dc_validators c)] (dc_validators c)) (daemon_sections data_dir)) (\<lambda>i.
         bindA (write_text dst (ini_text i)) (\<lambda>_.
           pureA (Inr dst))))) F))"


section \<open>What a successful run leaves\<close>

lemma child_grandchild [simp]: "child D (sib (sib D m) x) = Some m"
  by (simp add: child_def sib_def path_under_def)

lemma sib_inj [simp]: "sib D x = sib D y \<longleftrightarrow> x = y"
  by (simp add: sib_def)

lemma file_names: "plain_name ''run.sh''" "plain_name ''reth.toml''" "plain_name ''.secret''"
  "plain_name ''genesis.json''" "plain_name ''supervisord.ini''" "plain_name ''enode.identity''"
  "plain_name ''enode.key''" "plain_name ''docker-run.sh''" "plain_name ''docker-compose.yaml''"
  "plain_name ''devnet.yaml''"
  by (simp_all add: plain_name_def)

lemmas file_paths = file_names [THEN path_add_plain]

text \<open>The arguments of a node, without the secret file.\<close>

definition validator_args ::
    "backend \<Rightarrow> devnet_config \<Rightarrow> validator_config \<Rightarrow> nat \<Rightarrow> string list \<Rightarrow> pyval list result" where
  "validator_args b c v index peers =
     (case b of
        TempoBackend \<Rightarrow>
          build_common_node_args (tempo_node_params c v ''./genesis.json'' ''.'' peers (dc_patch_node_flags c))
      | AllegroBackend \<Rightarrow> allegro_node_args c v index ''./genesis.json'' ''.'' (dc_patch_node_flags c))"

text \<open>The files outside a set of paths are as they were.\<close>

definition unchanged :: "path set \<Rightarrow> fs \<Rightarrow> fs \<Rightarrow> bool" where
  "unchanged P F G \<longleftrightarrow> (\<forall>q. q \<notin> P \<longrightarrow> node_at G q = node_at F q)"

lemma unchangedD: "unchanged P F G \<Longrightarrow> q \<notin> P \<Longrightarrow> node_at G q = node_at F q"
  by (simp add: unchanged_def del: split_paired_All)

lemma unchanged_refl [simp]: "unchanged P F F"
  by (simp add: unchanged_def)

lemma unchanged_trans: "unchanged P F G \<Longrightarrow> unchanged Q G K \<Longrightarrow> unchanged (P \<union> Q) F K"
  by (simp add: unchanged_def)

interpretation untouched: guarantee "unchanged P"
  by unfold_locales (simp_all add: unchanged_def del: split_paired_All)

lemma unchanged_mono: "unchanged P F G \<Longrightarrow> P \<subseteq> Q \<Longrightarrow> unchanged Q F G"
  by (auto simp: unchanged_def simp del: split_paired_All)

lemma unchanged_write: "write_text p s F = (r, G) \<Longrightarrow> unchanged {p} F G"
  unfolding unchanged_def using write_text_frame by blast

lemma unchanged_dump: "dump_file p d F = (r, G) \<Longrightarrow> unchanged {p} F G"
  by (auto simp: dump_file_def bindA_def pureA_def dest: unchanged_write split: prod.splits sum.splits option.splits)

definition node_files :: "path \<Rightarrow> string \<Rightarrow> path set" where
  "node_files D m = sib (sib D m) ` {''.secret'', ''run.sh'', ''reth.toml''}"

lemma node_files_other: "m \<noteq> k \<Longrightarrow> sib (sib D m) x \<notin> node_files D k"
  by (auto simp: node_files_def sib_def)

lemma program_step:
  assumes "node_args b c v index (sib D m) ''./genesis.json'' ''.'' peers (dc_patch_node_flags c) F = (Inr args, F1)"
    and "write_run_script (sib D m) args F1 = (Inr p, F2)"
    and "write_reth_config H (sib D m) patch F2 = (Inr u, F3)"
  shows "validator_args b c v index peers = Inr args" and "unchanged (node_files D m) F F3"
    and "\<exists>s. run_script_content args [] False = Inr s \<and> node_at F3 (sib (sib D m) ''run.sh'') = Some (TextFile s)"
proof -
  have a: "validator_args b c v index peers = Inr args \<and> unchanged {sib (sib D m) ''.secret''} F F1"
    using assms(1)
    by (cases b) (auto simp: validator_args_def write_secret_file_def file_paths bindA_Inr_conv pureA_conv
        intro: unchanged_write)
  then show "validator_args b c v index peers = Inr args" by simp
  from assms(2) obtain s where s: "run_script_content args [] False = Inr s"
    and w: "write_text (sib (sib D m) ''run.sh'') s F1 = (Inr (), F2)"
    by (auto simp: write_run_script_def file_paths bindA_Inr_conv pureA_conv)
  have o3: "unchanged {sib (sib D m) ''reth.toml''} F2 F3"
    using assms(3) by (auto simp: write_reth_config_def file_paths pureA_conv dest: unchanged_dump split: if_splits)
  show "unchanged (node_files D m) F F3"
    using unchanged_trans [OF unchanged_trans [OF conjunct2 [OF a] unchanged_write [OF w]] o3]
    by (rule unchanged_mono) (auto simp: node_files_def)
  from w have "node_at F2 (sib (sib D m) ''run.sh'') = Some (TextFile s)" by (auto simp: write_text_Inr)
  moreover have "node_at F3 (sib (sib D m) ''run.sh'') = node_at F2 (sib (sib D m) ''run.sh'')"
    using o3 by (rule unchangedD) simp
  ultimately show "\<exists>s. run_script_content args [] False = Inr s \<and>
      node_at F3 (sib (sib D m) ''run.sh'') = Some (TextFile s)" using s by auto
qed

lemma set_section_last: "s \<notin> set (map fst i) \<Longrightarrow> set_section (i @ [(s, old)]) s kvs = i @ [(s, kvs)]"
  by (induction i) (auto simp: set_section_def)

text \<open>What is to be found for one validator.\<close>

definition node_written ::
    "backend \<Rightarrow> devnet_config \<Rightarrow> path \<Rightarrow> string list \<Rightarrow> fs \<Rightarrow> nat \<times> validator_config \<Rightarrow> bool" where
  "node_written b c D peers G = (\<lambda>(index, v).
     \<exists>args s. validator_args b c v index peers = Inr args \<and> run_script_content args [] False = Inr s \<and>
       node_at G (sib (sib D (py_str (vc_moniker v))) ''run.sh'') = Some (TextFile s))"

definition named_node :: "nat \<times> validator_config \<Rightarrow> bool" where
  "named_node = (\<lambda>(index, v). case vc_moniker v of PStr m \<Rightarrow> plain_name m | _ \<Rightarrow> False)"

abbreviation node_name :: "nat \<times> validator_config \<Rightarrow> string" where
  "node_name e \<equiv> py_str (vc_moniker (snd e))"

lemma write_programs_done:
  assumes "write_programs H b c D peers vs i F = (Inr j, G)" "list_all named_node vs"
  shows "j = i @ map (\<lambda>e. (''program:'' @ node_name e, program_section (sib D (node_name e)))) vs \<and>
    distinct (map node_name vs) \<and> list_all (node_written b c D peers G) vs \<and>
    unchanged (\<Union>e \<in> set vs. node_files D (node_name e)) F G \<and>
    (\<forall>e \<in> set vs. ''program:'' @ node_name e \<notin> set (map fst i))"
  using assms
proof (induction vs arbitrary: i F)
  case Nil
  then show ?case by (simp add: pureA_conv)
next
  case (Cons e vs)
  obtain index v where e: "e = (index, v)" by (cases e)
  with Cons.prems obtain m where m: "vc_moniker v = PStr m" "plain_name m"
    by (auto simp: named_node_def split: pyval.splits)
  let ?name = "''program:'' @ m"
  from Cons.prems(1) obtain args F1 p F2 F3 where
    new: "?name \<notin> set (map fst i)"
    and step: "node_args b c v index (sib D m) ''./genesis.json'' ''.'' peers (dc_patch_node_flags c) F = (Inr args, F1)"
      "write_run_script (sib D m) args F1 = (Inr p, F2)"
      "write_reth_config H (sib D m) (dc_patch_reth c) F2 = (Inr (), F3)"
    and rest: "write_programs H b c D peers vs (i @ [(?name, program_section (sib D m))]) F3 = (Inr j, G)"
    by (auto simp: e m path_join_def dir_name_def path_add_plain Let_def bindA_Inr_conv pureA_conv
        add_section_def set_section_last split: if_splits)
  note IH = Cons.IH [OF rest]
  have named: "list_all named_node vs" using Cons.prems(2) by simp
  note dn = IH [OF named]
  note st = program_step [OF step]
  have fresh: "m \<notin> set (map node_name vs)" using dn by auto
  then have keep: "node_at G (sib (sib D m) ''run.sh'') = node_at F3 (sib (sib D m) ''run.sh'')"
    using dn by (intro unchangedD) (auto dest: node_files_other)
  have "node_written b c D peers G (index, v)"
    using st(1,3) keep by (auto simp: node_written_def m)
  moreover have "unchanged (\<Union>e \<in> set (e # vs). node_files D (node_name e)) F G"
    using unchanged_trans [OF st(2)] dn by (auto simp: e m)
  ultimately show ?case using dn fresh new by (auto simp: e m)
qed

section \<open>The whole configuration\<close>

lemma forA_unchanged:
  assumes "\<And>x F r G. x \<in> set xs \<Longrightarrow> f x F = (r, G) \<Longrightarrow> unchanged P F G" "forA xs f F = (r, G)"
  shows "unchanged P F G"
  using untouched.each [OF guaranteesI [OF assms(1)]] assms(2) by (rule guaranteesD)

lemma apply_genesis_patch_unchanged:
  "apply_genesis_patch H D patch F = (r, G) \<Longrightarrow> unchanged {sib D ''genesis.json''} F G"
  by (auto simp: apply_genesis_patch_def file_paths Let_def bindA_def readA_def pureA_def
      dest: unchanged_dump split: if_splits sum.splits prod.splits)

definition genesis_copies :: "path \<Rightarrow> devnet_config \<Rightarrow> path set" where
  "genesis_copies D c = (\<lambda>v. sib (sib D (py_str (vc_moniker v))) ''genesis.json'') ` set (dc_validators c)"

definition nodes_of_config :: "devnet_config \<Rightarrow> (nat \<times> validator_config) list" where
  "nodes_of_config c = zip [0..<length (dc_validators c)] (dc_validators c)"

lemma named_validators:
  "list_all named_node (nodes_of_config c) \<Longrightarrow> v \<in> set (dc_validators c) \<Longrightarrow>
     \<exists>m. vc_moniker v = PStr m \<and> plain_name m"
proof -
  assume "list_all named_node (nodes_of_config c)" "v \<in> set (dc_validators c)"
  then obtain i where "(i, v) \<in> set (nodes_of_config c)"
    by (force simp: nodes_of_config_def in_set_zip in_set_conv_nth)
  with \<open>list_all named_node (nodes_of_config c)\<close> have "named_node (i, v)" by (auto simp: list_all_iff)
  then show ?thesis by (cases "vc_moniker v") (auto simp: named_node_def)
qed

lemma copy_genesis_unchanged:
  assumes "list_all named_node (nodes_of_config c)" "copy_genesis c D F = (r, G)"
  shows "unchanged (genesis_copies D c) F G"
proof (cases "path_exists F (sib D ''genesis.json'')")
  case False
  then show ?thesis using assms(2) by (simp add: copy_genesis_def file_paths)
next
  case True
  let ?f = "\<lambda>v. bindA (pureA (path_join D (dir_name v))) (\<lambda>val_dir.
          bindA (readA (\<lambda>F. read_text F (sib D ''genesis.json''))) (\<lambda>s.
            write_text (path_add val_dir ''genesis.json'') s))"
  have "forA (dc_validators c) ?f F = (r, G)"
    using True assms(2) by (simp add: copy_genesis_def file_paths)
  moreover have "unchanged (genesis_copies D c) F' G'" if "v \<in> set (dc_validators c)" "?f v F' = (r', G')" for v F' r' G'
  proof -
    from named_validators [OF assms(1) that(1)] obtain m where m: "vc_moniker v = PStr m" "plain_name m" by blast
    have join: "path_join D (dir_name v) = Inr (sib D m)"
      using m by (simp add: dir_name_def path_join_def path_add_plain)
    have "unchanged {sib (sib D m) ''genesis.json''} F' G'"
    proof (cases "read_text F' (sib D ''genesis.json'')")
      case (Inl e)
      with that(2) show ?thesis by (simp add: join bindA_def readA_def)
    next
      case (Inr s)
      with that(2) have "write_text (sib (sib D m) ''genesis.json'') s F' = (r', G')"
        by (simp add: join file_paths bindA_def readA_def)
      then show ?thesis by (rule unchanged_write)
    qed
    moreover have "sib (sib D m) ''genesis.json'' \<in> genesis_copies D c"
      unfolding genesis_copies_def using that(1) m by (intro image_eqI [of _ _ v]) simp_all
    ultimately show ?thesis by (auto dest: unchanged_mono)
  qed
  ultimately show ?thesis by (rule forA_unchanged [rotated])
qed

lemma trusted_peers_cong:
  assumes "list_all named_node (nodes_of_config c)" "unchanged P F G"
    and "\<And>m. sib (sib D m) ''enode.identity'' \<notin> P"
  shows "trusted_peers c D G = trusted_peers c D F"
proof -
  have "trusted_peer G D v = trusted_peer F D v" if v: "v \<in> set (dc_validators c)" for v
  proof -
    from named_validators [OF assms(1) v] obtain m where m: "vc_moniker v = PStr m" "plain_name m" by blast
    have "node_at G (sib (sib D m) ''enode.identity'') = node_at F (sib (sib D m) ''enode.identity'')"
      using assms(2,3) by (rule unchangedD)
    then show ?thesis
      using m by (simp add: trusted_peer_def dir_name_def path_join_def path_add_plain file_paths
          path_exists_def read_text_def Let_def cong: if_cong)
  qed
  then show ?thesis unfolding trusted_peers_def by (simp cong: mapE_cong)
qed

lemma supervisor_config_done:
  assumes "generate_supervisor_config H c D True F = (Inr p, G)" "list_all named_node (nodes_of_config c)"
  shows "p = sib D ''supervisord.ini'' \<and> distinct (map node_name (nodes_of_config c)) \<and>
    (\<exists>b peers. get_backend c = Inr b \<and> trusted_peers c D F = Inr peers \<and>
      node_at G p = Some (TextFile (ini_text (daemon_sections D @
        map (\<lambda>e. (''program:'' @ node_name e, program_section (sib D (node_name e)))) (nodes_of_config c)))) \<and>
      list_all (node_written b c D peers G) (nodes_of_config c))"
proof -
  let ?dst = "sib D ''supervisord.ini''"
  from assms(1) obtain F1 F2 F3 b peers i where
    patch: "apply_genesis_patch H D (dc_patch_genesis c) F = (Inr (), F1)"
    and copy: "copy_genesis c D F1 = (Inr (), F2)"
    and peers: "trusted_peers c D F2 = Inr peers" and b: "get_backend c = Inr b"
    and progs: "write_programs H b c D peers (nodes_of_config c) (daemon_sections D) F2 = (Inr i, F3)"
    and w: "write_text ?dst (ini_text i) F3 = (Inr (), G)" and p: "p = ?dst"
    by (auto simp: generate_supervisor_config_def SUPERVISOR_CONFIG_FILE_def file_paths Let_def
        nodes_of_config_def bindA_Inr_conv pureA_conv readA_conv)
  have "unchanged ({sib D ''genesis.json''} \<union> genesis_copies D c) F F2"
    using unchanged_trans apply_genesis_patch_unchanged [OF patch] copy_genesis_unchanged [OF assms(2) copy]
    by blast
  moreover have "sib (sib D m) ''enode.identity'' \<notin> {sib D ''genesis.json''} \<union> genesis_copies D c" for m
    by (auto simp: genesis_copies_def sib_def)
  ultimately have "trusted_peers c D F = Inr peers"
    using trusted_peers_cong [OF assms(2)] peers by metis
  moreover note dn = write_programs_done [OF progs assms(2)]
  have "node_written b c D peers G e" if "e \<in> set (nodes_of_config c)" for e
  proof -
    have "node_at G (sib (sib D (node_name e)) ''run.sh'') = node_at F3 (sib (sib D (node_name e)) ''run.sh'')"
      by (rule write_text_frame [OF w]) (simp add: sib_def)
    then show ?thesis using dn that by (auto simp: list_all_iff node_written_def split: prod.splits)
  qed
  ultimately show ?thesis
    using p b w dn by (auto simp: write_text_Inr list_all_iff)
qed


definition demo_net :: pyval where
  "demo_net = PDict
     [(''validators'', PList [PDict [(''port'', PInt 10), (''moniker'', PStr ''node0'')],
                              PDict [(''port'', PInt 20), (''moniker'', PStr ''node1'')]]),
      (''patch_node_flags'', PList [PStr ''--x'']), (''patch_reth'', PDict [(''a'', PInt 1)])]"

definition demo_net_fs :: fs where
  "demo_net_fs =
     [(demo_root, Folder), (sib demo_root ''node0'', Folder), (sib demo_root ''node1'', Folder),
      (sib (sib demo_root ''node0'') ''enode.identity'', TextFile '' ab''),
      (sib demo_root ''genesis.json'', TextFile ''{}'')]"

lemma demo_net_runs:
  "case config_init demo_net of
     Inl e \<Rightarrow> False
   | Inr c \<Rightarrow> list_all named_node (nodes_of_config c) \<and> length (nodes_of_config c) = 2 \<and>
       (case fst (generate_supervisor_config demo_host c demo_root True demo_net_fs) of
          Inl e \<Rightarrow> False | Inr p \<Rightarrow> True)"
  by code_simp

end
