(* ===== verification/Cluster.thy ===== *)
theory Cluster
  imports Supervisor "HOL-Library.List_Lexorder" "HOL-Library.Char_ord" "HOL-Library.Sublist"
begin

text \<open>
  \<open>tempo/devnet/cluster.py\<close>: finding the endpoint of a node, and \<open>ClusterCLI\<close>. The process manager
  behind the XML-RPC proxy is a parameter: a state of any type and the three calls that are used, each
  of which returns a value or raises and leaves a new state.
\<close>

section \<open>Endpoints\<close>

definition find_rpc_endpoint :: "devnet_config \<Rightarrow> pyval \<Rightarrow> (pyval \<times> pyval) result" where
  "find_rpc_endpoint c moniker =
     (case find (\<lambda>v. py_eq (vc_moniker v) moniker) (dc_validators c) of
        Some v \<Rightarrow> Inr (vc_host v, vc_base_port v)
      | None \<Rightarrow>
          (case find (\<lambda>n. py_eq (an_moniker n) moniker)
                  (dt_follow_nodes (dc_docker c) @ dt_public_nodes (dc_docker c)) of
             Some n \<Rightarrow> Inr (PStr ''127.0.0.1'', an_port n)
           | None \<Rightarrow> Inl (KeyError ''node not found'')))"

definition node_url :: "string \<Rightarrow> (int \<Rightarrow> int) \<Rightarrow> devnet_config \<Rightarrow> pyval \<Rightarrow> string result" where
  "node_url scheme port c moniker =
     bindE (find_rpc_endpoint c moniker) (\<lambda>(host, base_port).
     bindE (port_of port base_port) (\<lambda>p.
       Inr (scheme @ ''://'' @ py_str host @ '':'' @ dec_int p)))"

definition node_rpc_url :: "devnet_config \<Rightarrow> pyval \<Rightarrow> string result" where
  "node_rpc_url = node_url ''http'' http_rpc_port"

definition node_ws_url :: "devnet_config \<Rightarrow> pyval \<Rightarrow> string result" where
  "node_ws_url = node_url ''ws'' ws_rpc_port"

section \<open>The session\<close>

record 'w rpc =
  rpc_info :: "'w \<Rightarrow> pydict list result \<times> 'w"
    \<comment> \<open>\<open>getAllProcessInfo()\<close>\<close>
  rpc_start :: "pyval \<Rightarrow> 'w \<Rightarrow> pyval result \<times> 'w"
    \<comment> \<open>\<open>startProcess(name)\<close>\<close>
  rpc_stop :: "pyval \<Rightarrow> 'w \<Rightarrow> pyval result \<times> 'w"
    \<comment> \<open>\<open>stopProcess(name)\<close>\<close>

text \<open>The object: the configuration and the proxy it keeps, and the process manager it talks to.\<close>

record 'w session =
  se_config :: "devnet_config option"
  se_proxy :: bool
  se_world :: 'w

definition session_init :: "devnet_config option \<Rightarrow> 'w \<Rightarrow> 'w session" where
  "session_init c w = \<lparr>se_config = c, se_proxy = False, se_world = w\<rparr>"

definition node_dir_names :: "fs \<Rightarrow> path \<Rightarrow> string list result" where
  "node_dir_names F D =
     (if is_dir F D
      then Inr (sort (map path_name (filter (\<lambda>p. is_dir F p \<and> starts_with ''node'' (path_name p)) (iterdir F D))))
      else Inl (OSError ''no such directory''))"

definition node_dirs :: "fs \<Rightarrow> path \<Rightarrow> path list result" where
  "node_dirs F D = bindE (node_dir_names F D) (\<lambda>ns. Inr (map (sib D) ns))"

text \<open>The configuration: the saved file, or a guess from the node directories.\<close>

definition guessed_data :: "string list \<Rightarrow> pyval" where
  "guessed_data names = PDict [(''validators'', PList (map (\<lambda>(i, name).
     PDict [(''host'', PStr ''127.0.0.1''), (''port'', PInt (8000 + int i * 10)), (''moniker'', PStr name)])
     (zip [0..<length names] names)))]"

definition find_config :: "host \<Rightarrow> fs \<Rightarrow> path \<Rightarrow> devnet_config result" where
  "find_config H F D =
     (let config_path = path_add D ''devnet.yaml'' in
      if path_exists F config_path
      then bindE (read_text F config_path) (\<lambda>s. bindE (yaml_load H s) config_load)
      else bindE (node_dir_names F D) (\<lambda>names. config_init (guessed_data names)))"

definition session_config :: "host \<Rightarrow> fs \<Rightarrow> path \<Rightarrow> 'w session \<Rightarrow> devnet_config result \<times> 'w session" where
  "session_config H F D s =
     (case se_config s of
        Some c \<Rightarrow> (Inr c, s)
      | None \<Rightarrow>
          (case find_config H F D of
             Inl e \<Rightarrow> (Inl e, s)
           | Inr c \<Rightarrow> (Inr c, s\<lparr>se_config := Some c\<rparr>)))"

section \<open>Process control\<close>

definition with_proxy :: "('w \<Rightarrow> 'a result \<times> 'w) \<Rightarrow> 'w session \<Rightarrow> 'a result \<times> 'w session" where
  "with_proxy call s =
     (let (r, w) = call (se_world s) in (r, s\<lparr>se_proxy := True, se_world := w\<rparr>))"

text \<open>A status request that fails drops the proxy.\<close>

definition status :: "'w rpc \<Rightarrow> 'w session \<Rightarrow> pydict list result \<times> 'w session" where
  "status R s =
     (case with_proxy (rpc_info R) s of
        (Inl e, s') \<Rightarrow> (Inl e, s'\<lparr>se_proxy := False\<rparr>)
      | (Inr raw, s') \<Rightarrow> (Inr raw, s'))"

definition start_node :: "'w rpc \<Rightarrow> pyval \<Rightarrow> 'w session \<Rightarrow> pyval result \<times> 'w session" where
  "start_node R moniker = with_proxy (rpc_start R moniker)"

definition stop_node :: "'w rpc \<Rightarrow> pyval \<Rightarrow> 'w session \<Rightarrow> pyval result \<times> 'w session" where
  "stop_node R moniker = with_proxy (rpc_stop R moniker)"

definition dict_item :: "pydict \<Rightarrow> string \<Rightarrow> pyval result" where
  "dict_item d k = (case map_of d k of None \<Rightarrow> Inl (KeyError k) | Some v \<Rightarrow> Inr v)"

fun start_stopped :: "'w rpc \<Rightarrow> pydict list \<Rightarrow> 'w session \<Rightarrow> bool result \<times> 'w session" where
  "start_stopped R [] s = (Inr True, s)"
| "start_stopped R (info # infos) s =
     (case dict_item info ''statename'' of
        Inl e \<Rightarrow> (Inl e, s)
      | Inr state \<Rightarrow>
          if \<not> py_eq state (PStr ''STOPPED'') then start_stopped R infos s
          else
            (case dict_item info ''name'' of
               Inl e \<Rightarrow> (Inl e, s)
             | Inr name \<Rightarrow>
                 (case start_node R name s of
                    (Inl e, s') \<Rightarrow> (Inl e, s')
                  | (Inr _, s') \<Rightarrow> start_stopped R infos s')))"

definition start_all :: "'w rpc \<Rightarrow> 'w session \<Rightarrow> bool result \<times> 'w session" where
  "start_all R s =
     (case status R s of (Inl e, s') \<Rightarrow> (Inl e, s') | (Inr infos, s') \<Rightarrow> start_stopped R infos s')"

fun stop_each :: "'w rpc \<Rightarrow> pydict list \<Rightarrow> 'w session \<Rightarrow> bool result \<times> 'w session" where
  "stop_each R [] s = (Inr True, s)"
| "stop_each R (info # infos) s =
     (case dict_item info ''name'' of
        Inl e \<Rightarrow> (Inl e, s)
      | Inr name \<Rightarrow>
          (case stop_node R name s of
             (Inl e, s') \<Rightarrow> (Inl e, s')
           | (Inr _, s') \<Rightarrow> stop_each R infos s'))"

definition stop_all :: "'w rpc \<Rightarrow> 'w session \<Rightarrow> bool result \<times> 'w session" where
  "stop_all R s =
     (case status R s of (Inl e, s') \<Rightarrow> (Inl e, s') | (Inr infos, s') \<Rightarrow> stop_each R infos s')"

text \<open>\<open>stop(...) and start(...)\<close>.\<close>

definition restart_node :: "'w rpc \<Rightarrow> pyval \<Rightarrow> 'w session \<Rightarrow> pyval result \<times> 'w session" where
  "restart_node R moniker s =
     (case stop_node R moniker s of
        (Inl e, s') \<Rightarrow> (Inl e, s')
      | (Inr v, s') \<Rightarrow> if truthy v then start_node R moniker s' else (Inr v, s'))"


section \<open>The summary\<close>

text \<open>\<open>format(v, "<n")\<close>.\<close>

definition ljust :: "nat \<Rightarrow> string \<Rightarrow> string" where
  "ljust n s = s @ replicate (n - length s) (CHR '' '')"

definition py_format_left :: "nat \<Rightarrow> pyval \<Rightarrow> string result" where
  "py_format_left n v =
     (case v of
        PStr s \<Rightarrow> Inr (ljust n s)
      | PInt k \<Rightarrow> Inr (ljust n (dec_int k))
      | PBool b \<Rightarrow> Inr (ljust n (if b then ''1'' else ''0''))
      | _ \<Rightarrow> Inl (TypeError ''unsupported format string''))"

text \<open>\<open>{p["name"]: p for p in infos}\<close>, looked up with a default.\<close>

definition info_of :: "pydict list \<Rightarrow> pyval \<Rightarrow> pydict result" where
  "info_of infos moniker =
     bindE (mapE (\<lambda>p. bindE (dict_item p ''name'') (\<lambda>n.
              if hashable n then Inr (n, p) else Inl (TypeError ''unhashable type''))) infos) (\<lambda>named.
       if \<not> hashable moniker then Inl (TypeError ''unhashable type'')
       else Inr (case find (\<lambda>e. py_eq (fst e) moniker) (rev named) of Some e \<Rightarrow> snd e | None \<Rightarrow> []))"

definition summary_line :: "devnet_config \<Rightarrow> pydict list \<Rightarrow> validator_config \<Rightarrow> string result" where
  "summary_line c infos v =
     bindE (info_of infos (vc_moniker v)) (\<lambda>info.
     bindE (node_rpc_url c (vc_moniker v)) (\<lambda>rpc.
     bindE (py_format_left 16 (vc_moniker v)) (\<lambda>name.
     bindE (py_format_left 10 (dict_get info ''statename'' (PStr ''N/A''))) (\<lambda>state.
       Inr (name @ '' '' @ state @ '' '' @ ljust 8 (py_str (dict_get info ''pid'' (PStr ''-''))) @ '' '' @ rpc)))))"

definition summary ::
    "host \<Rightarrow> 'w rpc \<Rightarrow> fs \<Rightarrow> path \<Rightarrow> 'w session \<Rightarrow> string result \<times> 'w session" where
  "summary H R F D s =
     (case session_config H F D s of
        (Inl e, s1) \<Rightarrow> (Inl e, s1)
      | (Inr c, s1) \<Rightarrow>
          (case status R s1 of
             (Inl e, s2) \<Rightarrow> (Inl e, s2)
           | (Inr infos, s2) \<Rightarrow>
               (bindE (info_of infos PNone) (\<lambda>_.
                bindE (mapE (summary_line c infos) (dc_validators c)) (\<lambda>rows.
                  Inr (join_with [newline] (
                    [''Devnet: '' @ path_text D, ''  Chain ID: '' @ py_str (dc_chain_id c),
                     ''  Genesis:  '' @ path_text (path_add D ''genesis.json''), [],
                     ljust 16 ''Moniker'' @ '' '' @ ljust 10 ''Status'' @ '' '' @ ljust 8 ''PID'' @ '' RPC URL'',
                     replicate 72 (CHR ''-'')] @ rows)))), s2)))"

section \<open>Where a node is served\<close>

lemma common_args_flags:
  assumes "build_common_node_args q = Inr args"
  shows "\<exists>n. py_int (np_base_port q) = Some n \<and>
    sublist [PStr ''--http.addr'', np_rpc_addr q, PStr ''--http.port'', int_arg (http_rpc_port n)] args \<and>
    sublist [PStr ''--ws.addr'', np_rpc_addr q, PStr ''--ws.port'', int_arg (ws_rpc_port n)] args"
  using assms
  by (auto simp: build_common_node_args_def port_of_def bindE_Inr_conv Let_def sublist_Cons_right
      split: option.splits)

lemma allegro_args_flags:
  assumes "allegro_node_args c v i g d fl = Inr args"
  shows "\<exists>n. py_int (vc_base_port v) = Some n \<and>
    sublist [PStr ''--http.addr'', vc_rpc_host v, PStr ''--http.port'', int_arg (http_rpc_port n)] args \<and>
    sublist [PStr ''--ws.addr'', vc_rpc_host v, PStr ''--ws.port'', int_arg (ws_rpc_port n)] args"
  using assms
  by (auto simp: allegro_node_args_def port_of_def bindE_Inr_conv Let_def sublist_Cons_right
      split: option.splits)

lemma validator_args_flags:
  assumes "validator_args b c v i peers = Inr args"
  shows "\<exists>n. py_int (vc_base_port v) = Some n \<and>
    sublist [PStr ''--http.addr'', vc_rpc_host v, PStr ''--http.port'', int_arg (http_rpc_port n)] args \<and>
    sublist [PStr ''--ws.addr'', vc_rpc_host v, PStr ''--ws.port'', int_arg (ws_rpc_port n)] args"
  using assms allegro_args_flags
    common_args_flags [of "tempo_node_params c v ''./genesis.json'' ''.'' peers (dc_patch_node_flags c)" args]
  by (cases b) (auto simp: validator_args_def tempo_node_params_def)

lemma sublist_map_PStr:
  assumes "sublist [PStr a, h, PStr b, PStr d] (map PStr ts)"
  shows "\<exists>t. h = PStr t \<and> sublist [a, t, b, d] ts"
proof -
  from assms obtain us vs where "map PStr ts = us @ [PStr a, h, PStr b, PStr d] @ vs"
    by (auto simp: sublist_def)
  then obtain us' t vs' where "ts = us' @ [a, t, b, d] @ vs'" "h = PStr t"
    by (auto simp: map_eq_append_conv map_eq_Cons_conv)
  then show ?thesis by (auto simp: sublist_def)
qed

lemma find_unique:
  "distinct (map f xs) \<Longrightarrow> x \<in> set xs \<Longrightarrow> find (\<lambda>y. f y = f x) xs = Some x"
  by (induction xs) force+

lemma endpoint_of_validator:
  assumes "distinct (map node_name (nodes_of_config c))" "list_all named_node (nodes_of_config c)"
    and "(i, v) \<in> set (nodes_of_config c)"
  shows "find_rpc_endpoint c (vc_moniker v) = Inr (vc_host v, vc_base_port v)"
proof -
  have names: "map vc_moniker (dc_validators c) = map (PStr \<circ> node_name) (nodes_of_config c)"
  proof (rule nth_equalityI)
    fix k assume "k < length (map vc_moniker (dc_validators c))"
    then have "named_node (k, dc_validators c ! k)"
      using assms(2) by (force simp: list_all_length nodes_of_config_def)
    then show "map vc_moniker (dc_validators c) ! k = map (PStr \<circ> node_name) (nodes_of_config c) ! k"
      using \<open>k < _\<close> by (auto simp: nodes_of_config_def named_node_def split: pyval.splits)
  qed (simp add: nodes_of_config_def)
  have "distinct (map vc_moniker (dc_validators c))"
    using assms(1) unfolding names by (simp add: distinct_map comp_inj_on inj_on_def)
  moreover have "v \<in> set (dc_validators c)" using assms(3) by (auto simp: nodes_of_config_def dest: set_zip_rightD)
  moreover from named_validators [OF assms(2) this] obtain m where "vc_moniker v = PStr m" by blast
  ultimately show ?thesis
    using find_unique [of vc_moniker "dc_validators c" v] by (simp add: find_rpc_endpoint_def)
qed

text \<open>
  C38. The cluster's URL of a node is where its script makes it listen: after a successful
  \<open>generate_supervisor_config\<close>, for every validator the wrapper script in its directory runs a command
  whose \<open>--http.port\<close> and \<open>--ws.port\<close> are the ports in the URLs that \<open>node_rpc_url\<close> and \<open>node_ws_url\<close> give
  for its moniker. The address it listens on is \<open>rpc_host\<close>; the one in the URLs is \<open>host\<close>.
\<close>

theorem node_urls_served:
  assumes "generate_supervisor_config H c D True F = (Inr p, G)" "list_all named_node (nodes_of_config c)"
    and "(i, v) \<in> set (nodes_of_config c)"
  shows "\<exists>n command words rpc_host.
    node_at G (sib (sib D (py_str (vc_moniker v))) ''run.sh'') = Some (TextFile (preamble [] False @ command)) \<and>
    sh_words None False command = Some (''exec'' # words, []) \<and> vc_rpc_host v = PStr rpc_host \<and>
    sublist [''--http.addr'', rpc_host, ''--http.port'', dec_int (n + 4)] words \<and>
    sublist [''--ws.addr'', rpc_host, ''--ws.port'', dec_int (n + 5)] words \<and>
    node_rpc_url c (vc_moniker v) = Inr (''http://'' @ py_str (vc_host v) @ '':'' @ dec_int (n + 4)) \<and>
    node_ws_url c (vc_moniker v) = Inr (''ws://'' @ py_str (vc_host v) @ '':'' @ dec_int (n + 5))"
proof -
  from supervisor_config_done [OF assms(1,2)] obtain b peers where
    dist: "distinct (map node_name (nodes_of_config c))"
    and written: "list_all (node_written b c D peers G) (nodes_of_config c)" by blast
  from written assms(3) obtain args s where args: "validator_args b c v i peers = Inr args"
    and script: "run_script_content args [] False = Inr s"
    and found: "node_at G (sib (sib D (py_str (vc_moniker v))) ''run.sh'') = Some (TextFile s)"
    by (auto simp: list_all_iff node_written_def dest!: bspec)
  from run_script_done [OF script] obtain words command where
    words: "args = map PStr words" "s = preamble [] False @ command"
      "sh_words None False command = Some (''exec'' # words, [])" by blast
  from validator_args_flags [OF args] obtain n where n: "py_int (vc_base_port v) = Some n"
    and flags: "sublist [PStr ''--http.addr'', vc_rpc_host v, PStr ''--http.port'', PStr (dec_int (n + 4))] (map PStr words)"
      "sublist [PStr ''--ws.addr'', vc_rpc_host v, PStr ''--ws.port'', PStr (dec_int (n + 5))] (map PStr words)"
    by (auto simp: words(1) int_arg_def http_rpc_port_def ws_rpc_port_def)
  from sublist_map_PStr [OF flags(1)] sublist_map_PStr [OF flags(2)] obtain t where
    t: "vc_rpc_host v = PStr t" "sublist [''--http.addr'', t, ''--http.port'', dec_int (n + 4)] words"
      "sublist [''--ws.addr'', t, ''--ws.port'', dec_int (n + 5)] words" by auto
  have "node_rpc_url c (vc_moniker v) = Inr (''http://'' @ py_str (vc_host v) @ '':'' @ dec_int (n + 4))"
    "node_ws_url c (vc_moniker v) = Inr (''ws://'' @ py_str (vc_host v) @ '':'' @ dec_int (n + 5))"
    using endpoint_of_validator [OF dist assms(2,3)] n
    by (simp_all add: node_rpc_url_def node_ws_url_def node_url_def port_of_def http_rpc_port_def ws_rpc_port_def)
  with found words(2,3) t show ?thesis by blast
qed

theorem node_urls_served_witness:
  "\<exists>c p G i v. config_init demo_net = Inr c \<and>
     generate_supervisor_config demo_host c demo_root True demo_net_fs = (Inr p, G) \<and>
     (i, v) \<in> set (nodes_of_config c) \<and> isl (node_rpc_url c (vc_moniker v)) = False"
proof -
  from demo_net_runs obtain c where c: "config_init demo_net = Inr c"
      "list_all named_node (nodes_of_config c)" "length (nodes_of_config c) = 2"
      "case fst (generate_supervisor_config demo_host c demo_root True demo_net_fs) of
          Inl e \<Rightarrow> False | Inr p \<Rightarrow> True" by (auto split: sum.splits)
  then obtain p G where r: "generate_supervisor_config demo_host c demo_root True demo_net_fs = (Inr p, G)"
    by (cases "generate_supervisor_config demo_host c demo_root True demo_net_fs") (auto split: sum.splits)
  from c(3) obtain i v where iv: "(i, v) \<in> set (nodes_of_config c)"
    by (cases "nodes_of_config c") auto
  from node_urls_served [OF r c(2) iv] have "isl (node_rpc_url c (vc_moniker v)) = False" by auto
  with c(1) r iv show ?thesis by blast
qed

section \<open>Starting and stopping\<close>

text \<open>
  What the process manager documents: the information it gives lists its processes, starting a process
  takes it out of the state \<open>STOPPED\<close> and leaves the others alone. \<open>view\<close> is the table of names and states.
\<close>

type_synonym proc_table = "(string \<times> string) list"

definition info_dict :: "string \<times> string \<Rightarrow> pydict" where
  "info_dict e = [(''name'', PStr (fst e)), (''statename'', PStr (snd e))]"

definition info_matches :: "pydict \<Rightarrow> string \<times> string \<Rightarrow> bool" where
  "info_matches d e \<longleftrightarrow> map_of d ''name'' = Some (PStr (fst e)) \<and> map_of d ''statename'' = Some (PStr (snd e))"

definition set_state :: "string \<Rightarrow> string \<Rightarrow> proc_table \<Rightarrow> proc_table" where
  "set_state n st = map (\<lambda>(m, s). (m, if m = n then st else s))"

definition lists_processes :: "'w rpc \<Rightarrow> ('w \<Rightarrow> proc_table) \<Rightarrow> bool" where
  "lists_processes R view \<longleftrightarrow>
     (\<forall>w. \<exists>infos w'. rpc_info R w = (Inr infos, w') \<and> view w' = view w \<and>
        list_all2 info_matches infos (view w))"

definition starts_processes :: "'w rpc \<Rightarrow> ('w \<Rightarrow> proc_table) \<Rightarrow> bool" where
  "starts_processes R view \<longleftrightarrow>
     (\<forall>w. \<forall>n \<in> fst ` set (view w). \<exists>v w' st. rpc_start R (PStr n) w = (Inr v, w') \<and>
        st \<noteq> ''STOPPED'' \<and> view w' = set_state n st (view w))"

lemma start_stopped_ok:
  assumes "starts_processes R view" "list_all2 info_matches infos es" "fst ` set es \<subseteq> fst ` set (view (se_world s))"
    and "\<forall>(n, st) \<in> set (view (se_world s)). st = ''STOPPED'' \<longrightarrow> (n, ''STOPPED'') \<in> set es"
  shows "\<exists>s'. start_stopped R infos s = (Inr True, s') \<and>
    map fst (view (se_world s')) = map fst (view (se_world s)) \<and>
    (\<forall>(n, st) \<in> set (view (se_world s')). st \<noteq> ''STOPPED'') \<and>
    (\<forall>n. (n, ''STOPPED'') \<notin> set es \<longrightarrow> (\<forall>st. (n, st) \<in> set (view (se_world s)) \<longrightarrow> (n, st) \<in> set (view (se_world s'))))"
  using assms(2-)
proof (induction infos es arbitrary: s rule: list_all2_induct)
  case Nil
  then show ?case by (intro exI [of _ s]) auto
next
  case (Cons info infos e es)
  obtain n st where e: "e = (n, st)" by (cases e)
  then have d: "dict_item info ''name'' = Inr (PStr n)" "dict_item info ''statename'' = Inr (PStr st)"
    using Cons.hyps(1) by (simp_all add: info_matches_def dict_item_def)
  show ?case
  proof (cases "st = ''STOPPED''")
    case False
    then have "\<forall>(k, sk) \<in> set (view (se_world s)). sk = ''STOPPED'' \<longrightarrow> (k, ''STOPPED'') \<in> set es"
      using Cons.prems(2) e by auto
    with Cons.IH [of s] Cons.prems(1) e d False show ?thesis by auto
  next
    case True
    have "n \<in> fst ` set (view (se_world s))" using Cons.prems(1) e by force
    with assms(1) obtain v w' st' where
      start: "rpc_start R (PStr n) (se_world s) = (Inr v, w')" "st' \<noteq> ''STOPPED''"
        "view w' = set_state n st' (view (se_world s))"
      unfolding starts_processes_def by blast
    let ?s = "s\<lparr>se_proxy := True, se_world := w'\<rparr>"
    have "fst ` set es \<subseteq> fst ` set (view (se_world ?s))"
      using Cons.prems(1) e start(3) by (force simp: set_state_def)
    moreover have "\<forall>(k, sk) \<in> set (view (se_world ?s)). sk = ''STOPPED'' \<longrightarrow> (k, ''STOPPED'') \<in> set es"
      using Cons.prems(2) e start(2,3) by (auto simp: set_state_def split: if_splits)
    ultimately obtain s' where s': "start_stopped R infos ?s = (Inr True, s')"
      "map fst (view (se_world s')) = map fst (view w')"
      "\<forall>(n, st) \<in> set (view (se_world s')). st \<noteq> ''STOPPED''"
      "\<forall>n. (n, ''STOPPED'') \<notin> set es \<longrightarrow> (\<forall>st. (n, st) \<in> set (view w') \<longrightarrow> (n, st) \<in> set (view (se_world s')))"
      using Cons.IH [of ?s] by auto
    have "start_stopped R (info # infos) s = (Inr True, s')"
      using d True start(1) s'(1) by (simp add: start_node_def with_proxy_def)
    moreover have "map fst (view w') = map fst (view (se_world s))"
      by (simp add: start(3) set_state_def comp_def case_prod_beta)
    moreover have "(k, sk) \<in> set (view (se_world s'))"
      if "(k, ''STOPPED'') \<notin> set (e # es)" "(k, sk) \<in> set (view (se_world s))" for k sk
    proof -
      have "k \<noteq> n" using that(1) e True by auto
      then have "(k, sk) \<in> set (view w')" using that(2) start(3) by (force simp: set_state_def)
      with s'(4) that(1) show ?thesis by auto
    qed
    ultimately show ?thesis using s'(2,3) by auto
  qed
qed


text \<open>
  \<open>start_all\<close> gets every node going: with a process manager that lists its processes and whose
  \<open>startProcess\<close> takes a process out of \<open>STOPPED\<close>, it returns \<open>True\<close>, no process is \<open>STOPPED\<close> afterwards,
  no process is lost or added, and a process none of whose entries was \<open>STOPPED\<close> keeps its state.
\<close>

lemma start_all_starts:
  assumes "lists_processes R view" "starts_processes R view"
  shows "\<exists>s'. start_all R s = (Inr True, s') \<and>
    map fst (view (se_world s')) = map fst (view (se_world s)) \<and>
    (\<forall>(n, st) \<in> set (view (se_world s')). st \<noteq> ''STOPPED'') \<and>
    (\<forall>(n, st) \<in> set (view (se_world s)). (n, ''STOPPED'') \<notin> set (view (se_world s)) \<longrightarrow>
       (n, st) \<in> set (view (se_world s')))"
proof -
  from assms(1) obtain infos w' where w: "rpc_info R (se_world s) = (Inr infos, w')"
    "view w' = view (se_world s)" "list_all2 info_matches infos (view (se_world s))"
    unfolding lists_processes_def by blast
  let ?s = "s\<lparr>se_proxy := True, se_world := w'\<rparr>"
  have "start_all R s = start_stopped R infos ?s"
    using w(1) by (simp add: start_all_def status_def with_proxy_def)
  moreover from start_stopped_ok [OF assms(2) w(3), of ?s] w(2) obtain s' where
    "start_stopped R infos ?s = (Inr True, s')"
    "map fst (view (se_world s')) = map fst (view (se_world s))"
    "\<forall>(n, st) \<in> set (view (se_world s')). st \<noteq> ''STOPPED''"
    "\<forall>n. (n, ''STOPPED'') \<notin> set (view (se_world s)) \<longrightarrow>
       (\<forall>st. (n, st) \<in> set (view (se_world s)) \<longrightarrow> (n, st) \<in> set (view (se_world s')))"
    by auto
  ultimately show ?thesis by (intro exI [of _ s']) auto
qed

text \<open>A process manager of the documented behaviour: stopping a process that does not run is a fault.\<close>

definition table_manager :: "proc_table rpc" where
  "table_manager =
     \<lparr>rpc_info = \<lambda>w. (Inr (map info_dict w), w),
      rpc_start = \<lambda>n w. (case n of PStr s \<Rightarrow> (Inr (PBool True), set_state s ''RUNNING'' w)
                         | _ \<Rightarrow> (Inl (LibraryError ''BAD_NAME''), w)),
      rpc_stop = \<lambda>n w. (case n of
          PStr s \<Rightarrow> if (s, ''RUNNING'') \<in> set w then (Inr (PBool True), set_state s ''STOPPED'' w)
                    else (Inl (LibraryError ''NOT_RUNNING''), w)
        | _ \<Rightarrow> (Inl (LibraryError ''BAD_NAME''), w))\<rparr>"

lemma table_manager_ok: "lists_processes table_manager id" "starts_processes table_manager id"
proof -
  show "lists_processes table_manager id"
    by (auto simp: lists_processes_def table_manager_def list_all2_conv_all_nth info_matches_def info_dict_def)
  show "starts_processes table_manager id"
    unfolding starts_processes_def
  proof (intro allI ballI)
    fix w n
    show "\<exists>v w' st. rpc_start table_manager (PStr n) w = (Inr v, w') \<and> st \<noteq> ''STOPPED'' \<and>
        id w' = set_state n st (id w)"
      by (intro exI [of _ "PBool True"] exI [of _ "set_state n ''RUNNING'' w"] exI [of _ "''RUNNING''"])
         (simp add: table_manager_def)
  qed
qed

text \<open>Stopping the named processes one after the other.\<close>

fun stop_calls :: "'w rpc \<Rightarrow> pyval list \<Rightarrow> 'w \<Rightarrow> 'w option" where
  "stop_calls R [] w = Some w"
| "stop_calls R (n # ns) w = (case rpc_stop R n w of (Inl e, _) \<Rightarrow> None | (Inr _, w') \<Rightarrow> stop_calls R ns w')"

lemma stop_each_run:
  "list_all2 (\<lambda>d n. map_of d ''name'' = Some n) infos names \<Longrightarrow> stop_calls R names (se_world s) = Some w \<Longrightarrow>
     \<exists>s'. se_world s' = w \<and> (\<forall>rest. stop_each R (infos @ rest) s = stop_each R rest s')"
proof (induction infos names arbitrary: s rule: list_all2_induct)
  case Nil
  then show ?case by (intro exI [of _ s]) simp
next
  case (Cons d infos n names)
  from Cons.prems obtain v w' where n: "rpc_stop R n (se_world s) = (Inr v, w')"
    "stop_calls R names w' = Some w" by (auto split: prod.splits sum.splits)
  from Cons.IH [of "s\<lparr>se_proxy := True, se_world := w'\<rparr>"] n Cons.hyps(1) show ?case
    by (auto simp: dict_item_def stop_node_def with_proxy_def)
qed

text \<open>
  \<open>stop_all\<close> gives up at the first process that cannot be stopped: when the manager lists a process
  whose \<open>stopProcess\<close> raises (as supervisor does for one that is not running), \<open>stop_all\<close> raises the same
  error, and the processes listed after it have not been touched: the manager is left as that call
  left it. When every call succeeds, every listed process was stopped, in order.
\<close>

lemma stop_all_gives_up:
  assumes "rpc_info R (se_world s) = (Inr (before @ info # later), w0)"
    and "list_all2 (\<lambda>d n. map_of d ''name'' = Some n) before names" "map_of info ''name'' = Some name"
    and "stop_calls R names w0 = Some w1" "rpc_stop R name w1 = (r, w2)"
  shows "(\<forall>e. r = Inl e \<longrightarrow> (\<exists>s'. stop_all R s = (Inl e, s') \<and> se_world s' = w2)) \<and>
    (\<forall>v. r = Inr v \<and> later = [] \<longrightarrow> (\<exists>s'. stop_all R s = (Inr True, s') \<and> se_world s' = w2))"
proof -
  let ?s = "s\<lparr>se_proxy := True, se_world := w0\<rparr>"
  have "stop_all R s = stop_each R (before @ info # later) ?s"
    using assms(1) by (simp add: stop_all_def status_def with_proxy_def)
  moreover from stop_each_run [OF assms(2), of R ?s w1] assms(4) obtain s1 where
    s1: "se_world s1 = w1" "\<forall>rest. stop_each R (before @ rest) ?s = stop_each R rest s1" by auto
  ultimately have "stop_all R s = stop_each R (info # later) s1" by simp
  then show ?thesis
    using assms(3,5) s1(1) by (auto simp: dict_item_def stop_node_def with_proxy_def)
qed

end
