(* ===== verification/Compose.thy ===== *)
theory Compose
  imports Supervisor Frames
begin

text \<open>
  The Docker half of \<open>tempo/devnet/supervisor.py\<close>: the commands of the containers, the directories of
  follow nodes, proxies and public nodes, and the compose file in both topologies. A service is a
  record with one field per key; dictionaries whose keys come from the configuration keep them as Python
  values. \<open>yaml.dump\<close> of the compose file is an argument.
\<close>

section \<open>Dictionaries with computed keys\<close>

type_synonym 'v table = "(pyval \<times> 'v) list"

text \<open>\<open>d[k] = v\<close>, and the display \<open>{k: v, ...}\<close>.\<close>

definition put_key :: "'v table \<Rightarrow> pyval \<Rightarrow> 'v \<Rightarrow> 'v table result" where
  "put_key d k v =
     (if \<not> hashable k then Inl (TypeError ''unhashable type'')
      else if list_ex (\<lambda>(j, _). py_eq j k) d then Inr (map (\<lambda>(j, w). (j, if py_eq j k then v else w)) d)
      else Inr (d @ [(k, v)]))"

fun put_keys :: "'v table \<Rightarrow> (pyval \<times> 'v) list \<Rightarrow> 'v table result" where
  "put_keys d [] = Inr d"
| "put_keys d ((k, v) # kvs) = bindE (put_key d k v) (\<lambda>d. put_keys d kvs)"

section \<open>Commands\<close>

definition DOCKER_CONFIG_FILE :: string where "DOCKER_CONFIG_FILE = ''docker-compose.yaml''"
definition CONTAINER_DATA_DIR :: string where "CONTAINER_DATA_DIR = ''/data''"

definition docker_trusted_peer :: "fs \<Rightarrow> path \<Rightarrow> pyval \<Rightarrow> validator_config \<Rightarrow> string list result" where
  "docker_trusted_peer F data_dir exclude_moniker other =
     (if truthy exclude_moniker \<and> py_eq (vc_moniker other) exclude_moniker then Inr []
      else
        bindE (path_join data_dir (dir_name other)) (\<lambda>d.
        let enode_id_file = path_add d ''enode.identity'' in
        if \<not> path_exists F enode_id_file then Inr []
        else
          bindE (read_text F enode_id_file) (\<lambda>s.
            Inr [enode_url s (py_str (vc_moniker other)) (execution_p2p_port DOCKER_CONSENSUS_P2P_PORT)])))"

definition docker_trusted_peers :: "devnet_config \<Rightarrow> path \<Rightarrow> pyval \<Rightarrow> fs \<Rightarrow> string list result" where
  "docker_trusted_peers c data_dir exclude_moniker F =
     bindE (mapE (docker_trusted_peer F data_dir exclude_moniker) (dc_validators c)) (\<lambda>ps. Inr (concat ps))"

definition docker_node_params :: "devnet_config \<Rightarrow> string \<Rightarrow> string list \<Rightarrow> node_params" where
  "docker_node_params c addr peers =
     \<lparr>np_tempo_bin = dc_tempo_bin c, np_base_port = PInt DOCKER_CONSENSUS_P2P_PORT,
      np_listen_addr = PStr addr, np_metrics_addr = PStr addr, np_rpc_addr = PStr addr,
      np_genesis_path = ''./genesis.json'', np_datadir = ''.'', np_signing_key = ''./signing.key'',
      np_signing_share = ''./signing.share'', np_secret_file = ''./.secret'', np_enode_key = ''./enode.key'',
      np_trusted_peers = peers, np_extra_flags = dc_patch_node_flags c, np_bootnodes_endpoint = True\<rparr>"

definition docker_node_command ::
    "devnet_config \<Rightarrow> validator_config \<Rightarrow> path \<Rightarrow> fs \<Rightarrow> pyval list result" where
  "docker_node_command c v data_dir F =
     bindE (docker_trusted_peers c data_dir (vc_moniker v) F) (\<lambda>peers.
       build_common_node_args (docker_node_params c ''0.0.0.0'' peers))"

definition docker_node_two_network_command ::
    "host \<Rightarrow> devnet_config \<Rightarrow> validator_config \<Rightarrow> path \<Rightarrow> nat \<Rightarrow> fs \<Rightarrow> pyval list result" where
  "docker_node_two_network_command H c v data_dir index F =
     bindE (docker_ip (other_ip H) c (int index)) (\<lambda>val_ip.
     bindE (docker_trusted_peers c data_dir (vc_moniker v) F) (\<lambda>peers.
       build_common_node_args (docker_node_params c val_ip peers)))"

text \<open>Ports inside a container.\<close>

definition container_port :: "(int \<Rightarrow> int) \<Rightarrow> string" where
  "container_port f = dec_int (f DOCKER_CONSENSUS_P2P_PORT)"

definition build_follow_node_args ::
    "pyval \<Rightarrow> string \<Rightarrow> string list \<Rightarrow> string option \<Rightarrow> pyval list" where
  "build_follow_node_args tempo_bin upstream_ws peers p2p_secret_key =
     [tempo_bin, PStr ''node'', PStr ''--follow'', PStr upstream_ws,
      PStr ''--chain'', PStr ''./genesis.json'', PStr ''--datadir'', PStr ''.'',
      PStr ''--http'', PStr ''--http.addr'', PStr ''0.0.0.0'',
      PStr ''--http.port'', PStr (container_port http_rpc_port), PStr ''--http.api'', PStr ''all'',
      PStr ''--ws'', PStr ''--ws.addr'', PStr ''0.0.0.0'',
      PStr ''--ws.port'', PStr (container_port ws_rpc_port)]
     @ (case p2p_secret_key of
          Some key \<Rightarrow>
            if peers \<noteq> [] \<and> key \<noteq> []
            then [PStr ''--port'', PStr (container_port execution_p2p_port),
                  PStr ''--discovery.port'', PStr (container_port execution_p2p_port),
                  PStr ''--p2p-secret-key'', PStr key,
                  PStr ''--trusted-peers'', PStr (join_with '','' peers)]
            else []
        | None \<Rightarrow> [])"

section \<open>Keys and peers of the other services\<close>

text \<open>The public key in the output of \<open>tempo p2p enode\<close>.\<close>

definition enode_pubkey :: "string \<Rightarrow> string option" where
  "enode_pubkey out =
     (let line = py_strip out in
      if starts_with ''enode://'' line \<and> CHR ''@'' \<in> set line
      then Some (drop 8 (takeWhile (\<lambda>ch. ch \<noteq> CHR ''@'') line)) else None)"

definition ensure_enode_identity :: "host \<Rightarrow> path \<Rightarrow> unit act" where
  "ensure_enode_identity H svc_dir F =
     (case p2p_enode H (path_add svc_dir ''enode.key'') F of
        Inl e \<Rightarrow> (Inr (), F)
      | Inr (returncode, out) \<Rightarrow>
          if returncode = 0
          then case enode_pubkey out of
                 None \<Rightarrow> (Inr (), F)
               | Some pubkey \<Rightarrow> (Inr (), snd (write_text (path_add svc_dir ''enode.identity'') pubkey F))
          else (Inr (), F))"

definition ensure_enode_keypair :: "host \<Rightarrow> path \<Rightarrow> unit act" where
  "ensure_enode_keypair H svc_dir =
     bindA (\<lambda>F. if \<not> path_exists F (path_add svc_dir ''enode.key'')
               then write_text (path_add svc_dir ''enode.key'')
                      (bytes_hex (fresh_key H (path_add svc_dir ''enode.key''))) F
               else (Inr (), F)) (\<lambda>_ F.
       if \<not> path_exists F (path_add svc_dir ''enode.identity'') then ensure_enode_identity H svc_dir F
       else (Inr (), F))"

definition service_trusted_peer :: "host \<Rightarrow> path \<Rightarrow> aux_node \<Rightarrow> string list act" where
  "service_trusted_peer H data_dir svc =
     bindA (pureA (path_join data_dir (an_moniker svc))) (\<lambda>svc_dir.
     bindA (make_dirs svc_dir) (\<lambda>_.
     bindA (ensure_enode_keypair H svc_dir) (\<lambda>_.
       readA (\<lambda>F.
         let enode_id_file = path_add svc_dir ''enode.identity'' in
         if \<not> path_exists F enode_id_file then Inr []
         else
           bindE (read_text F enode_id_file) (\<lambda>s.
             Inr [enode_url s (py_str (an_moniker svc)) (execution_p2p_port DOCKER_CONSENSUS_P2P_PORT)])))))"

definition service_trusted_peers :: "host \<Rightarrow> aux_node list \<Rightarrow> path \<Rightarrow> string list act" where
  "service_trusted_peers H services data_dir =
     bindA (mapA (service_trusted_peer H data_dir) services) (\<lambda>ps. pureA (Inr (concat ps)))"

definition follow_args :: "devnet_config \<Rightarrow> string \<Rightarrow> string list \<Rightarrow> pyval list" where
  "follow_args c upstream_ws peers =
     build_follow_node_args (dc_tempo_bin c) upstream_ws peers
       (if peers \<noteq> [] then Some ''./enode.key'' else None)
     @ map PStr (dc_patch_node_flags c)"

definition docker_follow_node_command :: "host \<Rightarrow> devnet_config \<Rightarrow> path \<Rightarrow> pyval list act" where
  "docker_follow_node_command H c data_dir =
     bindA (pureA (docker_ip (other_ip H) c 0)) (\<lambda>val_ws_ip.
     bindA (readA (docker_trusted_peers c data_dir (PStr []))) (\<lambda>validators.
     bindA (service_trusted_peers H (dt_p2p_proxies (dc_docker c)) data_dir) (\<lambda>proxies.
       pureA (Inr (follow_args c (''ws://'' @ val_ws_ip @ '':'' @ container_port ws_rpc_port)
                     (validators @ proxies))))))"

definition docker_p2p_proxy_command :: "host \<Rightarrow> devnet_config \<Rightarrow> pyval list result" where
  "docker_p2p_proxy_command H c =
     bindE (docker_ip (other_ip H) c 0) (\<lambda>val_rpc_ip.
       Inr ([dc_tempo_bin c, PStr ''p2p-proxy'',
             PStr ''--rpc-url'', PStr (''http://'' @ val_rpc_ip @ '':'' @ container_port http_rpc_port),
             PStr ''--chain'', PStr ''./genesis.json'', PStr ''--p2p-secret-key'', PStr ''./enode.key'',
             PStr ''--port'', PStr (container_port execution_p2p_port)]
            @ map PStr (dc_patch_node_flags c)))"

definition docker_public_node_command :: "host \<Rightarrow> devnet_config \<Rightarrow> path \<Rightarrow> pyval list act" where
  "docker_public_node_command H c data_dir =
     (let follow_nodes = dt_follow_nodes (dc_docker c);
          upstream_moniker = (case follow_nodes of [] \<Rightarrow> ''follower0'' | f # _ \<Rightarrow> py_str (an_moniker f)) in
      bindA (service_trusted_peers H follow_nodes data_dir) (\<lambda>followers.
      bindA (service_trusted_peers H (dt_p2p_proxies (dc_docker c)) data_dir) (\<lambda>proxies.
        pureA (Inr (follow_args c (''ws://'' @ upstream_moniker @ '':'' @ container_port ws_rpc_port)
                      (followers @ proxies))))))"

section \<open>Directories\<close>

definition write_docker_run_script :: "path \<Rightarrow> pyval list \<Rightarrow> path act" where
  "write_docker_run_script val_dir args =
     bindA (pureA (run_script_content args ''docker'' True)) (\<lambda>s.
     bindA (write_text (path_add val_dir ''docker-run.sh'') s) (\<lambda>_.
       pureA (Inr (path_add val_dir ''docker-run.sh''))))"

definition prepare_periphery_dir :: "path \<Rightarrow> pyval \<Rightarrow> pyval list \<Rightarrow> path act" where
  "prepare_periphery_dir data_dir moniker command =
     bindA (pureA (path_join data_dir moniker)) (\<lambda>svc_dir.
     bindA (make_dirs svc_dir) (\<lambda>_.
     bindA (\<lambda>F. if path_exists F (path_add data_dir ''genesis.json'')
               then bindA (readA (\<lambda>F. read_text F (path_add data_dir ''genesis.json''))) (\<lambda>s.
                      write_text (path_add svc_dir ''genesis.json'') s) F
               else (Inr (), F)) (\<lambda>_.
     bindA (write_docker_run_script svc_dir command) (\<lambda>_.
       pureA (Inr svc_dir)))))"

text \<open>A periphery directory with its keys, once the command is there.\<close>

definition prepare_with_keys :: "host \<Rightarrow> path \<Rightarrow> pyval \<Rightarrow> pyval list act \<Rightarrow> unit act" where
  "prepare_with_keys H data_dir moniker command =
     bindA command (\<lambda>args.
     bindA (prepare_periphery_dir data_dir moniker args) (\<lambda>_.
     bindA (pureA (path_join data_dir moniker)) (\<lambda>d.
       ensure_enode_keypair H d)))"

definition prepare_follow_node_dir :: "host \<Rightarrow> devnet_config \<Rightarrow> path \<Rightarrow> pyval \<Rightarrow> unit act" where
  "prepare_follow_node_dir H c data_dir moniker =
     prepare_with_keys H data_dir moniker (docker_follow_node_command H c data_dir)"

definition prepare_proxy_dir :: "host \<Rightarrow> devnet_config \<Rightarrow> path \<Rightarrow> pyval \<Rightarrow> unit act" where
  "prepare_proxy_dir H c data_dir moniker =
     prepare_with_keys H data_dir moniker (pureA (docker_p2p_proxy_command H c))"

definition prepare_public_node_dir :: "host \<Rightarrow> devnet_config \<Rightarrow> path \<Rightarrow> pyval \<Rightarrow> unit act" where
  "prepare_public_node_dir H c data_dir moniker =
     prepare_with_keys H data_dir moniker (docker_public_node_command H c data_dir)"


section \<open>Services\<close>

record service =
  sv_image :: pyval
  sv_entrypoint :: "string list"
  sv_command :: string
  sv_volumes :: "string list"
  sv_ports :: "string list"
  sv_healthcheck :: pydict
  sv_restart :: string
  sv_depends_on :: "pydict table"
  sv_networks :: "pydict table"

type_synonym services = "service table"

definition healthcheck_config :: "string \<Rightarrow> int \<Rightarrow> pydict" where
  "healthcheck_config h port =
     [(''test'', PList [PStr ''CMD-SHELL'',
         PStr (''/bin/bash -c '' @ [CHR 0x27] @ ''exec 3<>/dev/tcp/'' @ h @ ''/'' @ dec_int port @ [CHR 0x27])]),
      (''interval'', PStr ''3s''), (''retries'', PInt 20), (''start_period'', PStr ''5s'')]"

text \<open>The entries that every service has, with its volume.\<close>

definition container :: "devnet_config \<Rightarrow> path \<Rightarrow> pydict \<Rightarrow> string \<Rightarrow> service" where
  "container c dir health restart =
     \<lparr>sv_image = dc_docker_image c, sv_entrypoint = [''/bin/sh''],
      sv_command = CONTAINER_DATA_DIR @ ''/docker-run.sh'',
      sv_volumes = [path_text dir @ '':'' @ CONTAINER_DATA_DIR], sv_ports = [],
      sv_healthcheck = health, sv_restart = restart, sv_depends_on = [], sv_networks = []\<rparr>"

definition published_ports :: "pyval \<Rightarrow> string list result" where
  "published_ports base =
     bindE (port_of http_rpc_port base) (\<lambda>http.
     bindE (port_of ws_rpc_port base) (\<lambda>ws.
       Inr [dec_int http @ '':'' @ container_port http_rpc_port,
            dec_int ws @ '':'' @ container_port ws_rpc_port]))"

definition at_address :: "string \<Rightarrow> pydict" where
  "at_address ip = [(''ipv4_address'', PStr ip)]"

definition healthy :: pydict where
  "healthy = [(''condition'', PStr ''service_healthy'')]"

definition add_single_validator ::
    "host \<Rightarrow> devnet_config \<Rightarrow> path \<Rightarrow> nat \<times> validator_config \<Rightarrow> services \<Rightarrow> services act" where
  "add_single_validator H c data_dir = (\<lambda>(index, v) S.
     bindA (pureA (path_join data_dir (dir_name v))) (\<lambda>val_dir.
     bindA (readA (docker_node_command c v data_dir)) (\<lambda>args.
     bindA (write_docker_run_script val_dir args) (\<lambda>_.
       pureA (
         bindE (published_ports (vc_base_port v)) (\<lambda>ports.
         bindE (docker_ip (other_ip H) c (int index)) (\<lambda>ip.
         bindE (put_keys [] [(dt_network (dc_docker c), at_address ip)]) (\<lambda>nets.
           put_key S (vc_moniker v)
             ((container c val_dir
                (healthcheck_config ''localhost'' (http_rpc_port DOCKER_CONSENSUS_P2P_PORT)) ''unless-stopped'')
              \<lparr>sv_ports := ports, sv_networks := nets\<rparr>)))))))))"

definition generate_single_network_compose :: "host \<Rightarrow> devnet_config \<Rightarrow> path \<Rightarrow> services act" where
  "generate_single_network_compose H c data_dir =
     foldA (add_single_validator H c data_dir) (nodes_of_config c) []"

definition add_validator ::
    "host \<Rightarrow> devnet_config \<Rightarrow> path \<Rightarrow> nat \<times> validator_config \<Rightarrow> services \<Rightarrow> services act" where
  "add_validator H c data_dir = (\<lambda>(index, v) S.
     bindA (pureA (path_join data_dir (dir_name v))) (\<lambda>val_dir.
     bindA (readA (docker_node_two_network_command H c v data_dir index)) (\<lambda>args.
     bindA (write_docker_run_script val_dir args) (\<lambda>_.
       pureA (
         bindE (published_ports (vc_base_port v)) (\<lambda>ports.
         bindE (docker_ip (other_ip H) c (int index)) (\<lambda>ip.
         bindE (docker_validator_network_name (dc_docker c)) (\<lambda>net.
         bindE (put_keys [] [(net, at_address ip)]) (\<lambda>nets.
           put_key S (vc_moniker v)
             ((container c val_dir
                (healthcheck_config ip (http_rpc_port DOCKER_CONSENSUS_P2P_PORT)) ''unless-stopped'')
              \<lparr>sv_ports := ports, sv_networks := nets\<rparr>))))))))))"

text \<open>The two addresses of a service on both networks.\<close>

definition dual_networks :: "devnet_config \<Rightarrow> string \<Rightarrow> string \<Rightarrow> pydict table result" where
  "dual_networks c val_ip pub_ip =
     bindE (docker_validator_network_name (dc_docker c)) (\<lambda>vnet.
     bindE (docker_public_network_name (dc_docker c)) (\<lambda>pnet.
       put_keys [] [(vnet, at_address val_ip), (pnet, at_address pub_ip)]))"

definition add_follow_node ::
    "host \<Rightarrow> devnet_config \<Rightarrow> path \<Rightarrow> nat \<times> aux_node \<Rightarrow> services \<Rightarrow> services act" where
  "add_follow_node H c data_dir = (\<lambda>(index, follow) S.
     bindA (prepare_follow_node_dir H c data_dir (an_moniker follow)) (\<lambda>_.
       pureA (
         bindE (docker_ip (other_ip H) c (int index)) (\<lambda>val_ip.
         bindE (docker_public_ip (other_ip H) c (int index)) (\<lambda>pub_ip.
         bindE (path_join data_dir (an_moniker follow)) (\<lambda>dir.
         bindE (published_ports (an_port follow)) (\<lambda>ports.
         bindE (dual_networks c val_ip pub_ip) (\<lambda>nets.
           put_key S (an_moniker follow)
             ((container c dir
                (healthcheck_config ''localhost'' (http_rpc_port DOCKER_CONSENSUS_P2P_PORT)) ''on-failure'')
              \<lparr>sv_depends_on := [(PStr ''node0'', healthy)], sv_ports := ports,
               sv_networks := nets\<rparr>)))))))))"

definition add_proxy ::
    "host \<Rightarrow> devnet_config \<Rightarrow> path \<Rightarrow> nat \<times> aux_node \<Rightarrow> services \<Rightarrow> services act" where
  "add_proxy H c data_dir = (\<lambda>(index, proxy) S.
     bindA (prepare_proxy_dir H c data_dir (an_moniker proxy)) (\<lambda>_.
       pureA (
         bindE (docker_ip (other_ip H) c (int index)) (\<lambda>val_ip.
         bindE (docker_public_ip (other_ip H) c (int index)) (\<lambda>pub_ip.
         bindE (path_join data_dir (an_moniker proxy)) (\<lambda>dir.
         bindE (dual_networks c val_ip pub_ip) (\<lambda>nets.
           put_key S (an_moniker proxy)
             ((container c dir
                (healthcheck_config ''localhost'' (execution_p2p_port DOCKER_CONSENSUS_P2P_PORT)) ''on-failure'')
              \<lparr>sv_ports := [py_str (an_port proxy) @ '':'' @ container_port execution_p2p_port],
               sv_networks := nets\<rparr>))))))))"

definition add_public_node ::
    "host \<Rightarrow> devnet_config \<Rightarrow> path \<Rightarrow> nat \<times> aux_node \<Rightarrow> services \<Rightarrow> services act" where
  "add_public_node H c data_dir = (\<lambda>(index, public_node) S.
     bindA (prepare_public_node_dir H c data_dir (an_moniker public_node)) (\<lambda>_.
       pureA (
         bindE (docker_public_ip (other_ip H) c (int index)) (\<lambda>pub_ip.
         bindE (path_join data_dir (an_moniker public_node)) (\<lambda>dir.
         bindE (case dt_follow_nodes (dc_docker c) of
                  [] \<Rightarrow> Inl (IndexError ''list index out of range'')
                | f # _ \<Rightarrow> put_keys [] [(an_moniker f, healthy)]) (\<lambda>deps.
         bindE (published_ports (an_port public_node)) (\<lambda>ports.
         bindE (docker_public_network_name (dc_docker c)) (\<lambda>pnet.
         bindE (put_keys [] [(pnet, at_address pub_ip)]) (\<lambda>nets.
           put_key S (an_moniker public_node)
             ((container c dir
                (healthcheck_config ''localhost'' (http_rpc_port DOCKER_CONSENSUS_P2P_PORT)) ''on-failure'')
              \<lparr>sv_depends_on := deps, sv_ports := ports, sv_networks := nets\<rparr>))))))))))"

text \<open>\<open>enumerate\<close>, from an offset.\<close>

definition numbered :: "nat \<Rightarrow> 'a list \<Rightarrow> (nat \<times> 'a) list" where
  "numbered start xs = zip [start..<start + length xs] xs"

definition generate_two_network_compose :: "host \<Rightarrow> devnet_config \<Rightarrow> path \<Rightarrow> services act" where
  "generate_two_network_compose H c data_dir =
     (let t = dc_docker c;
          f_start = length (dc_validators c);
          p_start = f_start + length (dt_follow_nodes t);
          n_start = p_start + length (dt_p2p_proxies t) in
      bindA (foldA (add_validator H c data_dir) (nodes_of_config c) []) (\<lambda>S.
      bindA (foldA (add_follow_node H c data_dir) (numbered f_start (dt_follow_nodes t)) S) (\<lambda>S.
      bindA (foldA (add_proxy H c data_dir) (numbered p_start (dt_p2p_proxies t)) S) (\<lambda>S.
        foldA (add_public_node H c data_dir) (numbered n_start (dt_public_nodes t)) S))))"

section \<open>The compose file\<close>

record compose =
  cp_services :: services
  cp_networks :: "pydict table"

definition bridge_network :: "pyval \<Rightarrow> pydict" where
  "bridge_network subnet =
     [(''driver'', PStr ''bridge''),
      (''ipam'', PDict [(''config'', PList [PDict [(''subnet'', subnet)]])])]"

definition compose_networks :: "devnet_config \<Rightarrow> pydict table result" where
  "compose_networks c =
     (let t = dc_docker c in
      if docker_is_two_network t
      then
        bindE (docker_validator_network_name t) (\<lambda>vnet.
        bindE (put_key [] vnet (bridge_network (dt_subnet t))) (\<lambda>nets.
        bindE (docker_public_subnet_cidr t) (\<lambda>cidr.
        bindE (docker_public_network_name t) (\<lambda>pnet.
          put_key nets pnet (bridge_network cidr)))))
      else put_key [] (dt_network t) (bridge_network (dt_subnet t)))"

definition compose_document :: "host \<Rightarrow> devnet_config \<Rightarrow> path \<Rightarrow> compose act" where
  "compose_document H c data_dir =
     bindA (if docker_is_two_network (dc_docker c) then generate_two_network_compose H c data_dir
            else generate_single_network_compose H c data_dir) (\<lambda>S.
     bindA (pureA (compose_networks c)) (\<lambda>nets.
       pureA (Inr \<lparr>cp_services = S, cp_networks = nets\<rparr>)))"

definition generate_docker_compose ::
    "host \<Rightarrow> (compose \<Rightarrow> dumped) \<Rightarrow> devnet_config \<Rightarrow> path \<Rightarrow> bool \<Rightarrow> path act" where
  "generate_docker_compose H dump c data_dir force F =
     (let dst = path_add data_dir DOCKER_CONFIG_FILE in
      if \<not> py_eq (dc_backend c) (PStr ''tempo'')
      then (Inl (NotImplementedError ''docker mode is not supported for backend''), F)
      else if path_exists F dst \<and> \<not> force then (Inr dst, F)
      else
        bindA (compose_document H c data_dir) (\<lambda>doc.
        bindA (dump_file dst (dump doc)) (\<lambda>_.
          pureA (Inr dst))) F)"


section \<open>What is kept\<close>

definition compose_outputs :: "string set" where
  "compose_outputs = {''docker-run.sh'', ''genesis.json'', ''docker-compose.yaml''}"

lemma path_name_sib [simp]: "path_name (sib D x) = x"
  by (simp add: path_name_def sib_def)

lemma keeps_key_file: "guarantees (keeps W) (\<lambda>F. if \<not> path_exists F p then write_text p s F else (Inr (), F))"
  by (rule guaranteesI) (auto simp: kept.unchanged_ok dest: keeps_new split: if_splits)

lemma keeps_identity:
  assumes "\<not> path_exists F (path_add d ''enode.identity'')"
  shows "keeps W F (snd (ensure_enode_identity H d F))"
proof -
  have "keeps W F (snd (write_text (path_add d ''enode.identity'') s F))" for s
    using keeps_new [OF assms, of s "fst (write_text (path_add d ''enode.identity'') s F)"] by simp
  then show ?thesis
    by (auto simp: ensure_enode_identity_def kept.unchanged_ok split: sum.splits option.splits prod.splits)
qed

lemma keeps_keypair: "guarantees (keeps W) (ensure_enode_keypair H d)"
  unfolding ensure_enode_keypair_def
proof (intro kept.sequence keeps_key_file)
  show "guarantees (keeps W) (\<lambda>F. if \<not> path_exists F (path_add d ''enode.identity'')
      then ensure_enode_identity H d F else (Inr (), F))"
    by (simp add: guarantees_def keeps_identity kept.unchanged_ok)
qed

lemma keeps_run_script: "''docker-run.sh'' \<in> W \<Longrightarrow> guarantees (keeps W) (write_docker_run_script d args)"
  unfolding write_docker_run_script_def
  by (intro kept.sequence kept.pure keeps_write) (simp add: file_paths)

lemma keeps_periphery:
  assumes "''docker-run.sh'' \<in> W" "''genesis.json'' \<in> W"
  shows "guarantees (keeps W) (prepare_periphery_dir D m args)"
  unfolding prepare_periphery_dir_def
  by (intro kept.sequence kept.pure keeps_make_dirs keeps_run_script kept.look kept.reads kept.nothing
      keeps_write) (simp_all add: assms file_paths)

lemma keeps_service_peers: "guarantees (keeps W) (service_trusted_peers H xs D)"
  unfolding service_trusted_peers_def service_trusted_peer_def
  by (intro kept.sequence kept.collect kept.pure kept.reads keeps_make_dirs keeps_keypair)

lemma keeps_with_keys:
  "guarantees (keeps compose_outputs) m \<Longrightarrow> guarantees (keeps compose_outputs) (prepare_with_keys H D n m)"
  unfolding prepare_with_keys_def
  by (intro kept.sequence kept.pure keeps_periphery keeps_keypair) (simp_all add: compose_outputs_def)

lemma keeps_compose_script: "guarantees (keeps compose_outputs) (write_docker_run_script d args)"
  by (rule keeps_run_script) (simp add: compose_outputs_def)

lemma keeps_services:
  "guarantees (keeps compose_outputs) (add_single_validator H c D iv S)"
  "guarantees (keeps compose_outputs) (add_validator H c D iv S)"
  "guarantees (keeps compose_outputs) (add_follow_node H c D ia S)"
  "guarantees (keeps compose_outputs) (add_proxy H c D ia S)"
  "guarantees (keeps compose_outputs) (add_public_node H c D ia S)"
  unfolding add_single_validator_def add_validator_def add_follow_node_def add_proxy_def add_public_node_def
    prepare_follow_node_dir_def prepare_proxy_dir_def prepare_public_node_dir_def
    docker_follow_node_command_def docker_public_node_command_def Let_def
  by (cases iv, cases ia, simp only: prod.case, intro kept.sequence kept.pure kept.reads keeps_with_keys
      keeps_service_peers keeps_compose_script)+

lemma keeps_document: "guarantees (keeps compose_outputs) (compose_document H c D)"
  unfolding compose_document_def generate_two_network_compose_def generate_single_network_compose_def Let_def
  by (intro kept.sequence kept.pure kept.branch kept.thread keeps_services)

lemma keeps_dump: "path_name p \<in> W \<Longrightarrow> guarantees (keeps W) (dump_file p d)"
  unfolding dump_file_def by (intro kept.sequence kept.pure keeps_write)

lemma generate_compose_keeps:
  "keeps compose_outputs F (snd (generate_docker_compose H dump c D force F))"
proof -
  have "guarantees (keeps compose_outputs) (bindA (compose_document H c D) (\<lambda>doc.
      bindA (dump_file (path_add D DOCKER_CONFIG_FILE) (dump doc)) (\<lambda>_.
        pureA (Inr (path_add D DOCKER_CONFIG_FILE)))))"
    by (intro kept.sequence kept.pure keeps_document keeps_dump)
      (simp add: DOCKER_CONFIG_FILE_def file_paths compose_outputs_def)
  then show ?thesis
    by (simp add: generate_docker_compose_def Let_def kept.unchanged_ok guarantees_def)
qed

text \<open>
  C36. Whatever \<open>generate_docker_compose\<close> does, for any configuration and also when it raises, every
  directory stays and every file that was there is left as it was, except files named
  \<open>docker-run.sh\<close>, \<open>genesis.json\<close> and \<open>docker-compose.yaml\<close>: a regenerated compose file never replaces a
  signing key, a node key or an identity.
\<close>

theorem compose_keeps_keys:
  "keeps compose_outputs F (snd (generate_docker_compose H dump c D force F))"
  by (rule generate_compose_keeps)

section \<open>Keys are made once\<close>

lemma write_text_Inr_iff: "write_text p s F = (Inr (), G) \<Longrightarrow> node_at G p = Some (TextFile s) \<and> G = fs_put p (TextFile s) F"
  by (auto simp: write_text_def split: if_splits)

lemma ensure_identity_again:
  assumes "ensure_enode_identity H d F = (Inr (), G)"
  shows "G = F \<or> path_exists G (path_add d ''enode.identity'')"
  using assms by (auto simp: ensure_enode_identity_def write_text_def path_exists_def
      split: sum.splits option.splits prod.splits if_splits)

lemma bindA_Inr_unit:
  "bindA m (\<lambda>u :: unit. f) F = (Inr b, G) \<longleftrightarrow> (\<exists>K. m F = (Inr (), K) \<and> f K = (Inr b, G))"
  by (auto simp: bindA_Inr_conv)

text \<open>
  \<open>_ensure_enode_keypair\<close> is idempotent: once it has returned, the key exists, and running it again
  on the directory changes nothing, with the same tool, also when the identity could not be derived.
\<close>

lemma ensure_keypair_after:
  assumes "ensure_enode_keypair H d F = (Inr (), G)"
  shows "path_exists G (path_add d ''enode.key'') \<and> ensure_enode_keypair H d G = (Inr (), G)"
proof -
  let ?key = "path_add d ''enode.key''"
  let ?first = "\<lambda>F. if \<not> path_exists F ?key then write_text ?key (bytes_hex (fresh_key H ?key)) F else (Inr (), F)"
  let ?second = "\<lambda>F. if \<not> path_exists F (path_add d ''enode.identity'')
      then ensure_enode_identity H d F else (Inr (), F)"
  have both: "ensure_enode_keypair H d = bindA ?first (\<lambda>_. ?second)"
    by (simp add: ensure_enode_keypair_def)
  from assms obtain F1 where first: "?first F = (Inr (), F1)" and rest: "?second F1 = (Inr (), G)"
    unfolding both bindA_Inr_unit by blast
  from first have key: "path_exists F1 ?key"
    by (cases "path_exists F ?key") (auto simp: path_exists_def dest: write_text_Inr_iff)
  from key rest have k: "path_exists G ?key"
    using keeps_identity [of F1 d "{}" H] by (auto simp: path_exists_def dest: keepsD split: if_splits)
  moreover have "ensure_enode_keypair H d G = (Inr (), G)"
  proof (cases "path_exists G (path_add d ''enode.identity'')")
    case True
    with k show ?thesis by (simp add: ensure_enode_keypair_def bindA_def)
  next
    case False
    with rest have "G = F1" "ensure_enode_identity H d G = (Inr (), G)"
      using ensure_identity_again [of H d F1 G] by (auto split: if_splits)
    with k show ?thesis by (simp add: ensure_enode_keypair_def bindA_def)
  qed
  ultimately show ?thesis by blast
qed

section \<open>Where the services are\<close>

lemma put_key_new: "PStr m \<notin> set (map fst S) \<Longrightarrow> put_key S (PStr m) v = Inr (S @ [(PStr m, v)])"
  by (force simp: put_key_def list_ex_iff)

lemma put_keys_one: "put_keys [] [(k, v)] = Inr d \<Longrightarrow> d = [(k, v)]"
  by (auto simp: put_key_def split: if_splits)

lemma put_keys_two: "put_keys [] [(k, v), (l, w)] = Inr d \<Longrightarrow> \<not> py_eq k l \<Longrightarrow> d = [(k, v), (l, w)]"
  by (auto simp: put_key_def bindE_def split: if_splits)

lemma path_join_str: "path_join D v = Inr p \<Longrightarrow> \<exists>m. v = PStr m"
  by (cases v) (simp_all add: path_join_def)

text \<open>A loop that appends one service per element.\<close>

lemma foldA_appends:
  assumes step: "\<And>x S F T G. f x S F = (Inr T, G) \<Longrightarrow> x \<in> set xs \<Longrightarrow> key x \<notin> set (map fst S) \<Longrightarrow>
      \<exists>v. T = S @ [(key x, v)] \<and> P x v"
    and run: "foldA f xs S F = (Inr T, G)" and new: "distinct (map fst S @ map key xs)"
  shows "\<exists>vs. T = S @ zip (map key xs) vs \<and> list_all2 P xs vs"
  using run new step
proof (induction xs arbitrary: S F)
  case Nil
  then show ?case by (simp add: pureA_conv)
next
  case (Cons x xs)
  from Cons.prems(1) obtain S' F' where x: "f x S F = (Inr S', F')" and rest: "foldA f xs S' F' = (Inr T, G)"
    by (auto simp: bindA_Inr_conv)
  from Cons.prems(3) [OF x] Cons.prems(2) obtain v where v: "S' = S @ [(key x, v)]" "P x v" by auto
  have "distinct (map fst S' @ map key xs)" using Cons.prems(2) v by auto
  from Cons.IH [OF rest this] Cons.prems(3) obtain vs where "T = S' @ zip (map key xs) vs" "list_all2 P xs vs"
    by (metis list.set_intros(2))
  then show ?case using v by (intro exI [of _ "v # vs"]) simp
qed

lemma subnet_ip_ipv4:
  "ipv4_network s = Some (base, p) \<Longrightarrow> subnet_ip other s 10 (int i) = Inr ip \<Longrightarrow>
     ip = ipv4_text (base + 10 + i) \<and> base + 10 + i < 2 ^ 32"
  by (auto simp: subnet_ip_def ipv4_add_def bindE_Inr_conv nat_add_distrib nat_int_add split: if_splits)


definition service_names :: "devnet_config \<Rightarrow> pyval list" where
  "service_names c =
     map vc_moniker (dc_validators c) @ map an_moniker (dt_follow_nodes (dc_docker c))
     @ map an_moniker (dt_p2p_proxies (dc_docker c)) @ map an_moniker (dt_public_nodes (dc_docker c))"

text \<open>Two different networks on IPv4 subnets with the given addresses.\<close>

definition two_networks :: "devnet_config \<Rightarrow> pyval \<Rightarrow> pyval \<Rightarrow> nat \<Rightarrow> nat \<Rightarrow> bool" where
  "two_networks c vnet pnet base pbase \<longleftrightarrow>
     docker_is_two_network (dc_docker c) \<and> docker_validator_network_name (dc_docker c) = Inr vnet \<and>
     docker_public_network_name (dc_docker c) = Inr pnet \<and> \<not> py_eq vnet pnet \<and>
     map_option fst (ipv4_network (dt_subnet (dc_docker c))) = Some base \<and>
     (case docker_public_subnet_cidr (dc_docker c) of
        Inl e \<Rightarrow> False | Inr s \<Rightarrow> map_option fst (ipv4_network s) = Some pbase)"

text \<open>The position of service \<open>i\<close>: validators, then follow nodes, proxies and public nodes.\<close>

definition is_validator :: "devnet_config \<Rightarrow> nat \<Rightarrow> bool" where
  "is_validator c i \<longleftrightarrow> i < length (dc_validators c)"

definition is_public_node :: "devnet_config \<Rightarrow> nat \<Rightarrow> bool" where
  "is_public_node c i \<longleftrightarrow>
     length (dc_validators c) + length (dt_follow_nodes (dc_docker c)) + length (dt_p2p_proxies (dc_docker c)) \<le> i"

definition placement :: "devnet_config \<Rightarrow> pyval \<Rightarrow> pyval \<Rightarrow> nat \<Rightarrow> nat \<Rightarrow> nat \<Rightarrow> pydict table" where
  "placement c vnet pnet base pbase i =
     (if is_public_node c i then [] else [(vnet, at_address (ipv4_text (base + 10 + i)))])
     @ (if is_validator c i then [] else [(pnet, at_address (ipv4_text (pbase + 10 + i)))])"

definition dependency :: "devnet_config \<Rightarrow> nat \<Rightarrow> pyval list" where
  "dependency c i =
     (if is_validator c i then []
      else if i < length (dc_validators c) + length (dt_follow_nodes (dc_docker c)) then [PStr ''node0'']
      else if is_public_node c i then [an_moniker (hd (dt_follow_nodes (dc_docker c)))]
      else [])"

definition placed :: "devnet_config \<Rightarrow> pyval \<Rightarrow> pyval \<Rightarrow> nat \<Rightarrow> nat \<Rightarrow> nat \<Rightarrow> service \<Rightarrow> bool" where
  "placed c vnet pnet base pbase i sv \<longleftrightarrow>
     sv_networks sv = placement c vnet pnet base pbase i \<and> map fst (sv_depends_on sv) = dependency c i \<and>
     (is_public_node c i \<or> base + 10 + i < 2 ^ 32) \<and> (is_validator c i \<or> pbase + 10 + i < 2 ^ 32) \<and>
     (\<not> is_public_node c i \<or> dt_follow_nodes (dc_docker c) \<noteq> [])"

lemmas position_defs = is_validator_def is_public_node_def placement_def dependency_def

lemma docker_ip_two:
  "two_networks c vnet pnet base pbase \<Longrightarrow> docker_ip other c (int i) = Inr ip \<Longrightarrow>
     ip = ipv4_text (base + 10 + i) \<and> base + 10 + i < 2 ^ 32"
  by (auto simp: two_networks_def docker_ip_def DOCKER_IP_HOST_OCTET_BASE_def dest: subnet_ip_ipv4)

lemma docker_public_ip_two:
  "two_networks c vnet pnet base pbase \<Longrightarrow> docker_public_ip other c (int i) = Inr ip \<Longrightarrow>
     ip = ipv4_text (pbase + 10 + i) \<and> pbase + 10 + i < 2 ^ 32"
  by (auto simp: two_networks_def docker_public_ip_def DOCKER_PUBLIC_IP_HOST_OCTET_BASE_def
      split: sum.splits dest: subnet_ip_ipv4)

lemma dual_networks_two:
  assumes "two_networks c vnet pnet base pbase" "dual_networks c a b = Inr nets"
  shows "nets = [(vnet, at_address a), (pnet, at_address b)]"
  using assms put_keys_two [of vnet "at_address a" pnet "at_address b" nets]
  by (simp add: two_networks_def dual_networks_def)

lemma container_fields [simp]: "sv_depends_on (container c d h r) = []"
  by (simp add: container_def)

lemma put_key_newD: "put_key S (PStr m) v = Inr T \<Longrightarrow> PStr m \<notin> fst ` set S \<Longrightarrow> T = S @ [(PStr m, v)]"
  using put_key_new [of m S v] by simp

lemmas service_defs = dir_name_def bindA_Inr_conv pureA_conv bindE_Inr_conv placed_def

lemma add_validator_placed:
  assumes "two_networks c vnet pnet base pbase" "is_validator c i"
    and "add_validator H c D (i, v) S F = (Inr T, G)" "vc_moniker v \<notin> set (map fst S)"
  shows "\<exists>sv. T = S @ [(vc_moniker v, sv)] \<and> placed c vnet pnet base pbase i sv"
  using assms
  by (auto simp: add_validator_def service_defs position_defs two_networks_def simp del: put_keys.simps
      dest!: path_join_str docker_ip_two [OF assms(1)] put_keys_one put_key_newD)

lemma add_follow_node_placed:
  assumes two: "two_networks c vnet pnet base pbase"
    and i: "\<not> is_validator c i" "i < length (dc_validators c) + length (dt_follow_nodes (dc_docker c))"
    and run: "add_follow_node H c D (i, f) S F = (Inr T, G)" and new: "an_moniker f \<notin> set (map fst S)"
  shows "\<exists>sv. T = S @ [(an_moniker f, sv)] \<and> placed c vnet pnet base pbase i sv"
  using i run new
  by (auto simp: add_follow_node_def service_defs position_defs simp del: put_keys.simps
      dest!: path_join_str docker_ip_two [OF two] docker_public_ip_two [OF two] dual_networks_two [OF two]
        put_key_newD)

lemma add_proxy_placed:
  assumes two: "two_networks c vnet pnet base pbase"
    and i: "\<not> i < length (dc_validators c) + length (dt_follow_nodes (dc_docker c))" "\<not> is_public_node c i"
    and run: "add_proxy H c D (i, f) S F = (Inr T, G)" and new: "an_moniker f \<notin> set (map fst S)"
  shows "\<exists>sv. T = S @ [(an_moniker f, sv)] \<and> placed c vnet pnet base pbase i sv"
  using i run new
  by (auto simp: add_proxy_def service_defs position_defs simp del: put_keys.simps
      dest!: path_join_str docker_ip_two [OF two] docker_public_ip_two [OF two] dual_networks_two [OF two]
        put_key_newD)

lemma add_public_node_placed:
  assumes two: "two_networks c vnet pnet base pbase" and i: "is_public_node c i"
    and run: "add_public_node H c D (i, f) S F = (Inr T, G)" and new: "an_moniker f \<notin> set (map fst S)"
  shows "\<exists>sv. T = S @ [(an_moniker f, sv)] \<and> placed c vnet pnet base pbase i sv"
  using i run new two
  by (auto simp: add_public_node_def service_defs position_defs two_networks_def simp del: put_keys.simps
      split: list.splits
      dest!: path_join_str docker_public_ip_two [OF two] put_keys_one put_key_newD)


lemma map_numbered: "map fst (numbered n xs) = [n..<n + length xs]" "map snd (numbered n xs) = xs"
  by (simp_all add: numbered_def)

lemma in_numbered: "(i, x) \<in> set (numbered n xs) \<Longrightarrow> n \<le> i \<and> i < n + length xs"
  by (auto simp: numbered_def dest: set_zip_leftD)

lemma nodes_of_config_numbered: "nodes_of_config c = numbered 0 (dc_validators c)"
  by (simp add: nodes_of_config_def numbered_def)

text \<open>One of the four loops, over numbered elements.\<close>

lemma numbered_loop:
  assumes run: "foldA f (numbered n xs) S F = (Inr T, G)"
    and new: "distinct (map fst S @ map key xs)"
    and step: "\<And>i x S F T G. f (i, x) S F = (Inr T, G) \<Longrightarrow> n \<le> i \<Longrightarrow> i < n + length xs \<Longrightarrow>
      key x \<notin> set (map fst S) \<Longrightarrow> \<exists>v. T = S @ [(key x, v)] \<and> P i v"
  shows "\<exists>vs. T = S @ zip (map key xs) vs \<and> list_all2 P [n..<n + length xs] vs"
proof -
  have keys: "map (key \<circ> snd) (numbered n xs) = map key xs"
    by (metis map_map map_numbered(2))
  have "\<exists>vs. T = S @ zip (map (key \<circ> snd) (numbered n xs)) vs \<and> list_all2 (P \<circ> fst) (numbered n xs) vs"
  proof (rule foldA_appends [OF _ run])
    fix e S F T G
    assume a: "f e S F = (Inr T, G)" "e \<in> set (numbered n xs)" "(key \<circ> snd) e \<notin> set (map fst S)"
    obtain i x where e: "e = (i, x)" by (cases e)
    show "\<exists>v. T = S @ [((key \<circ> snd) e, v)] \<and> (P \<circ> fst) e v"
      using step [of i x S F T G] a in_numbered [of i x n xs] by (simp add: e)
  qed (use new keys in simp)
  then show ?thesis
    unfolding keys by (simp only: comp_def list_all2_map1 [symmetric, of P fst] map_numbered)
qed

text \<open>The same after \<open>n\<close> elements.\<close>

lemma loop_extends:
  assumes start: "\<exists>us. S = zip ks us \<and> list_all2 P [0..<length ks] us"
    and run: "foldA f (numbered (length ks) xs) S F = (Inr T, G)"
    and new: "distinct (ks @ map key xs)"
    and step: "\<And>i x S F T G. f (i, x) S F = (Inr T, G) \<Longrightarrow> length ks \<le> i \<Longrightarrow> i < length ks + length xs \<Longrightarrow>
      key x \<notin> set (map fst S) \<Longrightarrow> \<exists>v. T = S @ [(key x, v)] \<and> P i v"
  shows "\<exists>vs. T = zip (ks @ map key xs) vs \<and> list_all2 P [0..<length (ks @ map key xs)] vs"
proof -
  from start obtain us where us: "S = zip ks us" "list_all2 P [0..<length ks] us" by blast
  then have len: "length us = length ks" using list_all2_lengthD by fastforce
  have d: "distinct (map fst S @ map key xs)" using new us(1) len by simp
  have "\<exists>vs. T = S @ zip (map key xs) vs \<and> list_all2 P [length ks..<length ks + length xs] vs"
    by (rule numbered_loop [OF run d]) (rule step)
  then obtain vs where
    vs: "T = S @ zip (map key xs) vs" "list_all2 P [length ks..<length ks + length xs] vs" by blast
  have "list_all2 P ([0..<length ks] @ [length ks..<length ks + length xs]) (us @ vs)"
    using us(2) vs(2) by (rule list_all2_appendI)
  moreover have "[0..<length ks] @ [length ks..<length ks + length xs] = [0..<length (ks @ map key xs)]"
    using upt_add_eq_append [of 0 "length ks" "length xs"] by simp
  moreover have "T = zip (ks @ map key xs) (us @ vs)" using us(1) vs(1) len by simp
  ultimately show ?thesis by metis
qed

lemma two_network_services:
  assumes two: "two_networks c vnet pnet base pbase" and new: "distinct (service_names c)"
    and run: "generate_two_network_compose H c D F = (Inr S, G)"
  shows "\<exists>vs. S = zip (service_names c) vs \<and>
    list_all2 (placed c vnet pnet base pbase) [0..<length (service_names c)] vs"
proof -
  let ?P = "placed c vnet pnet base pbase" and ?t = "dc_docker c"
  let ?k1 = "map vc_moniker (dc_validators c)"
  let ?k2 = "?k1 @ map an_moniker (dt_follow_nodes ?t)"
  let ?k3 = "?k2 @ map an_moniker (dt_p2p_proxies ?t)"
  from run obtain S1 S2 S3 F1 F2 F3 where
    l1: "foldA (add_validator H c D) (numbered (length ([] :: pyval list)) (dc_validators c)) [] F = (Inr S1, F1)" and
    l2: "foldA (add_follow_node H c D) (numbered (length ?k1) (dt_follow_nodes ?t)) S1 F1 = (Inr S2, F2)" and
    l3: "foldA (add_proxy H c D) (numbered (length ?k2) (dt_p2p_proxies ?t)) S2 F2 = (Inr S3, F3)" and
    l4: "foldA (add_public_node H c D) (numbered (length ?k3) (dt_public_nodes ?t)) S3 F3 = (Inr S, G)"
    by (auto simp: generate_two_network_compose_def Let_def bindA_Inr_conv nodes_of_config_numbered
        add.assoc)
  have "\<exists>vs. S1 = zip ([] @ ?k1) vs \<and> list_all2 ?P [0..<length ([] @ ?k1)] vs"
  proof (rule loop_extends [OF _ l1])
    show "distinct ([] @ ?k1)" using new by (simp add: service_names_def)
  qed (auto intro: add_validator_placed [OF two] simp: is_validator_def)
  then have "\<exists>vs. S1 = zip ?k1 vs \<and> list_all2 ?P [0..<length ?k1] vs" by simp
  then have "\<exists>vs. S2 = zip ?k2 vs \<and> list_all2 ?P [0..<length ?k2] vs"
  proof (rule loop_extends [OF _ l2])
    show "distinct ?k2" using new by (auto simp: service_names_def)
  qed (auto intro: add_follow_node_placed [OF two] simp: is_validator_def)
  then have "\<exists>vs. S3 = zip ?k3 vs \<and> list_all2 ?P [0..<length ?k3] vs"
  proof (rule loop_extends [OF _ l3])
    show "distinct ?k3" using new by (auto simp: service_names_def)
  qed (auto intro: add_proxy_placed [OF two] simp: is_public_node_def)
  then have "\<exists>vs. S = zip (?k3 @ map an_moniker (dt_public_nodes ?t)) vs \<and>
      list_all2 ?P [0..<length (?k3 @ map an_moniker (dt_public_nodes ?t))] vs"
  proof (rule loop_extends [OF _ l4])
    show "distinct (?k3 @ map an_moniker (dt_public_nodes ?t))" using new by (simp add: service_names_def)
  qed (auto intro: add_public_node_placed [OF two] simp: is_public_node_def)
  then show ?thesis by (simp add: service_names_def)
qed


text \<open>The addresses in use on a network.\<close>

definition addresses_on :: "pyval \<Rightarrow> compose \<Rightarrow> pydict list" where
  "addresses_on net doc =
     concat (map (\<lambda>(k, s). map snd (filter (\<lambda>(n, a). n = net) (sv_networks s))) (cp_services doc))"

definition networks_of :: "compose \<Rightarrow> (pyval \<times> pydict table) list" where
  "networks_of doc = map (\<lambda>(k, s). (k, sv_networks s)) (cp_services doc)"

definition dependencies_of :: "compose \<Rightarrow> (pyval \<times> pyval list) list" where
  "dependencies_of doc = map (\<lambda>(k, s). (k, map fst (sv_depends_on s))) (cp_services doc)"

lemma py_eq_refl: "hashable v \<Longrightarrow> py_eq v v"
  by (induction v rule: hashable.induct) (auto simp: list_all_iff list_all2_same py_int_def)

lemma compose_networks_two:
  assumes two: "two_networks c vnet pnet base pbase" and run: "compose_networks c = Inr nets"
  shows "vnet \<noteq> pnet \<and> map fst nets = [vnet, pnet]"
proof -
  from two run have "hashable vnet" "\<not> py_eq vnet pnet" "map fst nets = [vnet, pnet]"
    by (auto simp: compose_networks_def Let_def two_networks_def bindE_Inr_conv put_key_def split: if_splits)
  then show ?thesis using py_eq_refl by blast
qed

lemma zip_table:
  assumes "list_all2 P [0..<length ks] vs"
  shows "map (\<lambda>(k, s). (k, g s)) (zip ks vs) = map (\<lambda>i. (ks ! i, g (vs ! i))) [0..<length ks]"
  using list_all2_lengthD [OF assms] by (intro nth_equalityI) auto

lemma two_network_document:
  assumes two: "two_networks c vnet pnet base pbase" and new: "distinct (service_names c)"
    and run: "compose_document H c D F = (Inr doc, G)"
  shows "vnet \<noteq> pnet \<and> map fst (cp_networks doc) = [vnet, pnet] \<and>
    networks_of doc =
      map (\<lambda>i. (service_names c ! i, placement c vnet pnet base pbase i)) [0..<length (service_names c)] \<and>
    dependencies_of doc = map (\<lambda>i. (service_names c ! i, dependency c i)) [0..<length (service_names c)] \<and>
    (\<forall>i < length (service_names c). \<exists>s. placed c vnet pnet base pbase i s)"
proof -
  from two run obtain S F1 nets where S: "generate_two_network_compose H c D F = (Inr S, F1)"
    and nets: "compose_networks c = Inr nets" and doc: "doc = \<lparr>cp_services = S, cp_networks = nets\<rparr>"
    by (auto simp: compose_document_def two_networks_def bindA_Inr_conv pureA_conv)
  from two_network_services [OF two new S] obtain vs where vs: "S = zip (service_names c) vs"
    and all: "list_all2 (placed c vnet pnet base pbase) [0..<length (service_names c)] vs" by blast
  from all have at: "placed c vnet pnet base pbase i (vs ! i)" if "i < length (service_names c)" for i
    using list_all2_nthD [OF all, of i] that by simp
  show ?thesis
    unfolding networks_of_def dependencies_of_def
    using compose_networks_two [OF two nets] zip_table [OF all, of sv_networks]
      zip_table [OF all, of "\<lambda>s. map fst (sv_depends_on s)"] at
    by (auto simp: doc vs placed_def)
qed

lemma distinct_optional:
  "distinct xs \<Longrightarrow> inj_on g {i \<in> set xs. \<not> Q i} \<Longrightarrow> distinct (concat (map (\<lambda>i. if Q i then [] else [g i]) xs))"
proof (induction xs)
  case (Cons x xs)
  have "inj_on g {i \<in> set xs. \<not> Q i}" using Cons.prems(2) by (rule inj_on_subset) auto
  moreover have "g x \<noteq> g y" if "\<not> Q x" "\<not> Q y" "y \<in> set xs" for y
    using Cons.prems that by (auto dest: inj_onD)
  ultimately show ?case using Cons by (auto split: if_splits)
qed simp

lemma addresses_on_networks:
  "addresses_on net doc = concat (map (\<lambda>(k, ns). map snd (filter (\<lambda>(n, a). n = net) ns)) (networks_of doc))"
  by (simp add: addresses_on_def networks_of_def comp_def case_prod_unfold)

lemma at_address_inj:
  "at_address (ipv4_text m) = at_address (ipv4_text n) \<Longrightarrow> m < 2 ^ 32 \<Longrightarrow> n < 2 ^ 32 \<Longrightarrow> m = n"
  using ipv4_text_inj by (simp add: at_address_def)

lemma two_network_addresses:
  assumes two: "two_networks c vnet pnet base pbase" and new: "distinct (service_names c)"
    and run: "compose_document H c D F = (Inr doc, G)"
  shows "distinct (addresses_on vnet doc) \<and> distinct (addresses_on pnet doc)"
proof -
  let ?n = "length (service_names c)"
  note doc = two_network_document [OF assms]
  have "addresses_on vnet doc =
      concat (map (\<lambda>i. if is_public_node c i then [] else [at_address (ipv4_text (base + 10 + i))]) [0..<?n])"
    "addresses_on pnet doc =
      concat (map (\<lambda>i. if is_validator c i then [] else [at_address (ipv4_text (pbase + 10 + i))]) [0..<?n])"
    using doc by (auto simp: addresses_on_networks comp_def placement_def intro!: arg_cong [where f = concat])
  moreover have "inj_on (\<lambda>i. at_address (ipv4_text (base + 10 + i))) {i \<in> set [0..<?n]. \<not> is_public_node c i}"
    "inj_on (\<lambda>i. at_address (ipv4_text (pbase + 10 + i))) {i \<in> set [0..<?n]. \<not> is_validator c i}"
    using doc by (auto intro!: inj_onI dest!: at_address_inj simp: placed_def)
  ultimately show ?thesis by (simp add: distinct_optional)
qed

text \<open>
  C29. The compose file of a two-network devnet isolates the validators: with two differently named
  networks on IPv4 subnets and different monikers, the services are the validators, follow nodes,
  proxies and public nodes in order; service \<open>i\<close> is on the validator network unless it is a public node,
  at address \<open>base + 10 + i\<close>, and on the public network unless it is a validator, at \<open>pbase + 10 + i\<close>; no
  address is given twice on a network, and exactly the two networks are declared.
\<close>

theorem two_network_isolation:
  assumes "two_networks c vnet pnet base pbase" "distinct (service_names c)"
    and "compose_document H c D F = (Inr doc, G)"
  shows "networks_of doc =
      map (\<lambda>i. (service_names c ! i, placement c vnet pnet base pbase i)) [0..<length (service_names c)] \<and>
    distinct (addresses_on vnet doc) \<and> distinct (addresses_on pnet doc) \<and>
    map fst (cp_networks doc) = [vnet, pnet]"
  using two_network_document [OF assms] two_network_addresses [OF assms] by blast

text \<open>Every service that another one waits for is in the file.\<close>

definition dependencies_closed :: "compose \<Rightarrow> bool" where
  "dependencies_closed doc \<longleftrightarrow>
     list_all (\<lambda>(k, ds). list_all (\<lambda>d. d \<in> set (map fst (cp_services doc))) ds) (dependencies_of doc)"

lemma service_keys: "map fst (networks_of doc) = map fst (cp_services doc)"
  by (simp add: networks_of_def comp_def case_prod_unfold)

lemma follow_name_in: "dt_follow_nodes (dc_docker c) \<noteq> [] \<Longrightarrow>
    an_moniker (hd (dt_follow_nodes (dc_docker c))) \<in> set (service_names c)"
  by (simp add: service_names_def)

text \<open>
  C39. Which services wait for which: a follow node always for a service called \<open>node0\<close>, a public node for
  the first follow node, the others for none. So with public nodes there has to be a follow node, and
  the file is consistent exactly when there is no follow node or some service has the moniker \<open>node0\<close>.
\<close>

theorem compose_dependencies:
  assumes two: "two_networks c vnet pnet base pbase" and new: "distinct (service_names c)"
    and run: "compose_document H c D F = (Inr doc, G)"
  shows "dependencies_of doc = map (\<lambda>i. (service_names c ! i, dependency c i)) [0..<length (service_names c)] \<and>
    (dt_public_nodes (dc_docker c) = [] \<or> dt_follow_nodes (dc_docker c) \<noteq> []) \<and>
    (dependencies_closed doc \<longleftrightarrow>
       dt_follow_nodes (dc_docker c) = [] \<or> PStr ''node0'' \<in> set (service_names c))"
proof -
  let ?n = "length (service_names c)" and ?t = "dc_docker c"
  note doc = two_network_document [OF assms]
  then have keys: "map fst (cp_services doc) = service_names c"
    using service_keys [of doc] by (simp add: comp_def map_nth)
  have closed: "dependencies_closed doc \<longleftrightarrow> (\<forall>i < ?n. set (dependency c i) \<subseteq> set (service_names c))"
    using doc unfolding dependencies_closed_def keys by (auto simp: list_all_iff)
  have public: "dt_public_nodes ?t = [] \<or> dt_follow_nodes ?t \<noteq> []"
  proof (cases "dt_public_nodes ?t")
    case (Cons n ns)
    then have "?n - 1 < ?n" "is_public_node c (?n - 1)" by (simp_all add: service_names_def is_public_node_def)
    then show ?thesis using doc by (auto simp: placed_def)
  qed simp
  have "dt_follow_nodes ?t = [] \<or> PStr ''node0'' \<in> set (service_names c)" if "dependencies_closed doc"
  proof (cases "dt_follow_nodes ?t")
    case (Cons f fs)
    then have "length (dc_validators c) < ?n" "dependency c (length (dc_validators c)) = [PStr ''node0'']"
      by (simp_all add: service_names_def dependency_def is_validator_def)
    then show ?thesis using that unfolding closed by fastforce
  qed simp
  moreover have "dependencies_closed doc"
    if "dt_follow_nodes ?t = [] \<or> PStr ''node0'' \<in> set (service_names c)"
    unfolding closed using that follow_name_in [of c] doc by (auto simp: dependency_def placed_def is_validator_def)
  ultimately show ?thesis using doc public by blast
qed

text \<open>One validator, one follow node, one proxy and one public node.\<close>

definition demo_docker :: pyval where
  "demo_docker = PDict
     [(''validators'', PList [PDict [(''port'', PInt 10), (''moniker'', PStr ''node0'')]]),
      (''docker'', PDict
         [(''validator_network'', PDict [(''name'', PStr ''v''), (''subnet'', PStr ''0.0.0.0/28'')]),
          (''public_network'', PDict [(''name'', PStr ''w''), (''subnet'', PStr ''0.0.0.16/28'')]),
          (''follow_nodes'', PList [PDict [(''moniker'', PStr ''f''), (''port'', PInt 30)]]),
          (''p2p_proxies'', PList [PDict [(''moniker'', PStr ''p''), (''port'', PInt 50)]]),
          (''public_nodes'', PList [PDict [(''moniker'', PStr ''q''), (''port'', PInt 70)]])])]"

definition demo_docker_fs :: fs where
  "demo_docker_fs =
     [(demo_root, Folder), (sib demo_root ''node0'', Folder), (sib demo_root ''genesis.json'', TextFile ''{}'')]"

lemma demo_docker_runs:
  "case config_init demo_docker of
     Inl e \<Rightarrow> False
   | Inr c \<Rightarrow> two_networks c (PStr ''v'') (PStr ''w'') 0 16 \<and> distinct (service_names c) \<and>
       service_names c = [PStr ''node0'', PStr ''f'', PStr ''p'', PStr ''q''] \<and>
       \<not> isl (fst (compose_document demo_host c demo_root demo_docker_fs))"
  by code_simp

lemma demo_docker_document:
  obtains c doc G where "config_init demo_docker = Inr c" "two_networks c (PStr ''v'') (PStr ''w'') 0 16"
    "distinct (service_names c)" "service_names c = [PStr ''node0'', PStr ''f'', PStr ''p'', PStr ''q'']"
    "compose_document demo_host c demo_root demo_docker_fs = (Inr doc, G)"
proof -
  from demo_docker_runs obtain c where c: "config_init demo_docker = Inr c"
      "two_networks c (PStr ''v'') (PStr ''w'') 0 16" "distinct (service_names c)"
      "service_names c = [PStr ''node0'', PStr ''f'', PStr ''p'', PStr ''q'']"
      "\<not> isl (fst (compose_document demo_host c demo_root demo_docker_fs))"
    by (auto split: sum.splits)
  then obtain doc G where "compose_document demo_host c demo_root demo_docker_fs = (Inr doc, G)"
    by (cases "compose_document demo_host c demo_root demo_docker_fs"; cases "fst (compose_document demo_host c demo_root demo_docker_fs)")
      auto
  with c show ?thesis by (blast intro: that)
qed

theorem two_network_isolation_witness:
  "\<exists>c doc G. config_init demo_docker = Inr c \<and>
     compose_document demo_host c demo_root demo_docker_fs = (Inr doc, G) \<and>
     map fst (networks_of doc) = [PStr ''node0'', PStr ''f'', PStr ''p'', PStr ''q''] \<and>
     distinct (addresses_on (PStr ''v'') doc)"
proof -
  obtain c doc G where d: "config_init demo_docker = Inr c" "two_networks c (PStr ''v'') (PStr ''w'') 0 16"
    "distinct (service_names c)" "service_names c = [PStr ''node0'', PStr ''f'', PStr ''p'', PStr ''q'']"
    "compose_document demo_host c demo_root demo_docker_fs = (Inr doc, G)" by (rule demo_docker_document)
  with two_network_isolation [OF d(2,3,5)] show ?thesis by (auto simp: comp_def map_nth)
qed

theorem compose_dependencies_witness:
  "\<exists>c doc G. config_init demo_docker = Inr c \<and>
     compose_document demo_host c demo_root demo_docker_fs = (Inr doc, G) \<and> dependencies_closed doc"
proof -
  obtain c doc G where d: "config_init demo_docker = Inr c" "two_networks c (PStr ''v'') (PStr ''w'') 0 16"
    "distinct (service_names c)" "service_names c = [PStr ''node0'', PStr ''f'', PStr ''p'', PStr ''q'']"
    "compose_document demo_host c demo_root demo_docker_fs = (Inr doc, G)" by (rule demo_docker_document)
  with compose_dependencies [OF d(2,3,5)] show ?thesis by auto
qed

end
