(* ===== verification/Cli.thy ===== *)
theory Cli
  imports Cluster Compose
begin

text \<open>
  \<open>tempo/devnet/cli.py\<close>: \<open>init\<close>, \<open>start\<close>, \<open>serve\<close> and \<open>supervisorctl\<close>. Paths are given resolved. The
  commands that replace the process are represented by the argument list they run. The search path,
  which files can be executed, and assignments that change the type of an attribute of the
  configuration are the fields of a record \<open>shell_env\<close>.
\<close>

record shell_env =
  env_path :: string
  env_runnable :: "string \<Rightarrow> bool"
  env_python :: string
  env_setattr :: "devnet_config \<Rightarrow> string \<Rightarrow> pyval \<Rightarrow> devnet_config result"
    \<comment> \<open>the override of a method or a list of objects, or by a value of another type\<close>

section \<open>Programs on the search path\<close>

text \<open>\<open>os.path.join\<close> of two texts.\<close>

definition os_path_join :: "string \<Rightarrow> string \<Rightarrow> string" where
  "os_path_join a b =
     (if starts_with ''/'' b then b
      else if a = [] \<or> last a = CHR ''/'' then a @ b
      else a @ ''/'' @ b)"

definition cmd_exists :: "shell_env \<Rightarrow> pyval \<Rightarrow> bool result" where
  "cmd_exists E name =
     (case name of
        PStr s \<Rightarrow> Inr (list_ex (\<lambda>dir. env_runnable E (os_path_join dir s)) (py_split CHR '':'' (env_path E)))
      | _ \<Rightarrow> Inl (TypeError ''join() argument must be str''))"

definition ensure_tempo_bins :: "shell_env \<Rightarrow> devnet_config \<Rightarrow> bool \<Rightarrow> unit result" where
  "ensure_tempo_bins E c require_node_bin =
     bindE (cmd_exists E (dc_tempo_bin c)) (\<lambda>node_bin_present.
     bindE (cmd_exists E (dc_tempo_xtask_bin c)) (\<lambda>xtask_present.
       if \<not> xtask_present \<or> require_node_bin \<and> \<not> node_bin_present then Inl (SystemExit 1) else Inr ()))"

section \<open>Overrides\<close>

text \<open>The attributes that hold plain values.\<close>

definition plain_attributes :: "(string \<times> (pyval \<Rightarrow> devnet_config \<Rightarrow> devnet_config)) list" where
  "plain_attributes =
     [(''chain_id'', \<lambda>v c. c\<lparr>dc_chain_id := v\<rparr>), (''accounts'', \<lambda>v c. c\<lparr>dc_accounts := v\<rparr>),
      (''epoch_length'', \<lambda>v c. c\<lparr>dc_epoch_length := v\<rparr>), (''gas_limit'', \<lambda>v c. c\<lparr>dc_gas_limit := v\<rparr>),
      (''seed'', \<lambda>v c. c\<lparr>dc_seed := v\<rparr>), (''mnemonic'', \<lambda>v c. c\<lparr>dc_mnemonic := v\<rparr>),
      (''backend'', \<lambda>v c. c\<lparr>dc_backend := v\<rparr>), (''tempo_bin'', \<lambda>v c. c\<lparr>dc_tempo_bin := v\<rparr>),
      (''tempo_xtask_bin'', \<lambda>v c. c\<lparr>dc_tempo_xtask_bin := v\<rparr>),
      (''no_dkg_in_genesis'', \<lambda>v c. c\<lparr>dc_no_dkg_in_genesis := v\<rparr>),
      (''no_extra_tokens'', \<lambda>v c. c\<lparr>dc_no_extra_tokens := v\<rparr>),
      (''no_pairwise_liquidity'', \<lambda>v c. c\<lparr>dc_no_pairwise_liquidity := v\<rparr>),
      (''docker_image'', \<lambda>v c. c\<lparr>dc_docker_image := v\<rparr>),
      (''docker_network'', \<lambda>v c. c\<lparr>dc_docker := (dc_docker c)\<lparr>dt_network := v\<rparr>\<rparr>),
      (''docker_subnet'', \<lambda>v c. c\<lparr>dc_docker := (dc_docker c)\<lparr>dt_subnet := v\<rparr>\<rparr>),
      (''docker_validator_network'', \<lambda>v c. c\<lparr>dc_docker := (dc_docker c)\<lparr>dt_validator_network := v\<rparr>\<rparr>),
      (''docker_public_network'', \<lambda>v c. c\<lparr>dc_docker := (dc_docker c)\<lparr>dt_public_network := v\<rparr>\<rparr>)]
     @ map (\<lambda>i. (HARDFORK_ATTRS ! i, \<lambda>v c. c\<lparr>dc_hardforks := (dc_hardforks c)[i := v]\<rparr>)) [0..<9]"

text \<open>The attributes that hold texts, mappings and lists of texts, for values of these types.\<close>

definition texts_value :: "pyval \<Rightarrow> string list option" where
  "texts_value v =
     (case v of
        PList vs \<Rightarrow> (case mapE text_of vs of Inr ts \<Rightarrow> Some ts | Inl e \<Rightarrow> None)
      | _ \<Rightarrow> None)"

definition typed_attributes :: "(string \<times> (pyval \<Rightarrow> devnet_config \<Rightarrow> devnet_config option)) list" where
  "typed_attributes =
     [(''patch_genesis'', \<lambda>v c. case v of PDict d \<Rightarrow> Some (c\<lparr>dc_patch_genesis := d\<rparr>) | _ \<Rightarrow> None),
      (''patch_reth'', \<lambda>v c. case v of PDict d \<Rightarrow> Some (c\<lparr>dc_patch_reth := d\<rparr>) | _ \<Rightarrow> None),
      (''patch_node_flags'', \<lambda>v c. map_option (\<lambda>ts. c\<lparr>dc_patch_node_flags := ts\<rparr>) (texts_value v)),
      (''patch_genesis_flags'', \<lambda>v c. map_option (\<lambda>ts. c\<lparr>dc_patch_genesis_flags := ts\<rparr>) (texts_value v)),
      (''docker_topology'',
         \<lambda>v c. case v of PStr s \<Rightarrow> Some (c\<lparr>dc_docker := (dc_docker c)\<lparr>dt_topology := s\<rparr>\<rparr>) | _ \<Rightarrow> None),
      (''_source'', \<lambda>v c. Some c)]"

text \<open>
  The properties, with what reading them gives: \<open>hasattr\<close> reads the attribute, takes an
  \<open>AttributeError\<close> for its absence and lets other exceptions through. They cannot be assigned.
\<close>

definition property_values :: "host \<Rightarrow> devnet_config \<Rightarrow> (string \<times> unit result) list" where
  "property_values H c =
     (let t = dc_docker c; reads = (\<lambda>r. bindE r (\<lambda>_. Inr ())) in
      [(''validators_arg'', Inr ()), (''docker_is_two_network'', Inr ()),
       (''docker_validators_arg'', bindE (docker_validators_arg (other_ip H) c) (\<lambda>_. Inr ())),
       (''docker_public_network_name'', reads (docker_public_network_name t)),
       (''docker_public_subnet_cidr'', reads (docker_public_subnet_cidr t)),
       (''docker_validator_network_name'', reads (docker_validator_network_name t))])"

definition set_property :: "devnet_config \<Rightarrow> unit result \<Rightarrow> pyval \<Rightarrow> devnet_config result" where
  "set_property c r v =
     (case r of
        Inr _ \<Rightarrow> if v = PNone then Inr c else Inl (AttributeError ''property has no setter'')
      | Inl (AttributeError s) \<Rightarrow> Inr c
      | Inl e \<Rightarrow> Inl e)"

definition other_attributes :: "string list" where
  "other_attributes =
     [''docker_follow_nodes'', ''docker_p2p_proxies'', ''docker_public_nodes'', ''validators'', ''docker_ip'',
      ''docker_validator_addr'', ''docker_public_ip'', ''ephemeral'', ''load'', ''to_genesis_args'', ''to_dict'',
      ''_init_docker_topology''] @ map fst typed_attributes"

text \<open>
  One override: nothing for a name that is not an attribute or for \<open>None\<close>. Every object also has the
  attributes whose names start with two underscores.
\<close>

definition apply_override ::
    "shell_env \<Rightarrow> host \<Rightarrow> devnet_config \<Rightarrow> string \<times> pyval \<Rightarrow> devnet_config result" where
  "apply_override E H c = (\<lambda>(k, v).
     case map_of (property_values H c) k of
       Some r \<Rightarrow> set_property c r v
     | None \<Rightarrow>
         if v = PNone then Inr c
         else case map_of plain_attributes k of
           Some f \<Rightarrow> Inr (f v c)
         | None \<Rightarrow>
             if k \<notin> set other_attributes \<and> \<not> starts_with ''__'' k then Inr c
             else case map_of typed_attributes k of
               Some f \<Rightarrow> (case f v c of Some c' \<Rightarrow> Inr c' | None \<Rightarrow> env_setattr E c k v)
             | None \<Rightarrow> env_setattr E c k v)"

fun apply_overrides :: "shell_env \<Rightarrow> host \<Rightarrow> (string \<times> pyval) list \<Rightarrow> devnet_config \<Rightarrow> devnet_config result" where
  "apply_overrides E H [] c = Inr c"
| "apply_overrides E H (kv # kvs) c = bindE (apply_override E H c kv) (apply_overrides E H kvs)"

text \<open>The default names of the binaries are not chosen again when the backend is overridden.\<close>

lemma override_backend_keeps_binaries:
  assumes "apply_override E H c (''backend'', v) = Inr c'" "v \<noteq> PNone"
  shows "dc_backend c' = v \<and> dc_tempo_bin c' = dc_tempo_bin c \<and> dc_tempo_xtask_bin c' = dc_tempo_xtask_bin c"
  using assms by (auto simp: apply_override_def property_values_def plain_attributes_def Let_def)

section \<open>\<open>init\<close>\<close>

definition load_config :: "host \<Rightarrow> path \<Rightarrow> fs \<Rightarrow> devnet_config result" where
  "load_config H config F = bindE (read_text F config) (\<lambda>s. bindE (yaml_load H s) config_load)"

text \<open>What is checked before anything is written.\<close>

definition check_init ::
    "shell_env \<Rightarrow> host \<Rightarrow> path \<Rightarrow> bool \<Rightarrow> (string \<times> pyval) list \<Rightarrow> fs \<Rightarrow> devnet_config result" where
  "check_init E H config gen_compose_file overrides F =
     bindE (load_config H config F) (\<lambda>c.
     bindE (apply_overrides E H overrides c) (\<lambda>c.
     bindE (get_backend c) (\<lambda>b.
     bindE (if gen_compose_file \<and> backend_name b \<noteq> ''tempo'' then Inl (SystemExit 1) else Inr ()) (\<lambda>_.
     bindE (ensure_tempo_bins E c (\<not> gen_compose_file)) (\<lambda>_.
       Inr c)))))"

definition prepare_data_dir :: "path \<Rightarrow> bool \<Rightarrow> unit act" where
  "prepare_data_dir data_dir force F =
     (if path_exists F data_dir
      then if force then bindA (rmtree data_dir) (\<lambda>_. make_dirs data_dir) F
           else (Inl (SystemExit 1), F)
      else make_dirs data_dir F)"

text \<open>\<open>except RuntimeError: sys.exit(1)\<close>; \<open>NotImplementedError\<close> is a subclass.\<close>

definition exit_on_runtime_error :: "'a act \<Rightarrow> 'a act" where
  "exit_on_runtime_error m F =
     (case m F of
        (Inl (RuntimeError s), G) \<Rightarrow> (Inl (SystemExit 1), G)
      | (Inl (NotImplementedError s), G) \<Rightarrow> (Inl (SystemExit 1), G)
      | other \<Rightarrow> other)"

definition save_config :: "host \<Rightarrow> devnet_config \<Rightarrow> path \<Rightarrow> unit act" where
  "save_config H c p =
     dump_file p (case config_to_dict c of Inl e \<Rightarrow> ([], Some e) | Inr d \<Rightarrow> yaml_dump H True d)"

definition init_devnet ::
    "shell_env \<Rightarrow> host \<Rightarrow> (compose \<Rightarrow> dumped) \<Rightarrow> path \<Rightarrow> path \<Rightarrow> bool \<Rightarrow> bool \<Rightarrow> (string \<times> pyval) list
       \<Rightarrow> unit act" where
  "init_devnet E H dump data_dir config force gen_compose_file overrides =
     bindA (readA (check_init E H config gen_compose_file overrides)) (\<lambda>c.
     bindA (prepare_data_dir data_dir force) (\<lambda>_.
     bindA (pureA (if gen_compose_file then bindE (docker_validators_arg (other_ip H) c) (\<lambda>a. Inr (Some a))
                   else Inr None)) (\<lambda>genesis_validators.
     bindA (exit_on_runtime_error (generate_localnet H c data_dir genesis_validators gen_compose_file)) (\<lambda>_.
     bindA (save_config H c (path_add data_dir ''devnet.yaml'')) (\<lambda>_.
     bindA (generate_supervisor_config H c data_dir True) (\<lambda>_.
       if gen_compose_file
       then bindA (generate_docker_compose H dump c data_dir True) (\<lambda>_. pureA (Inr ()))
       else pureA (Inr ())))))))"

section \<open>The other commands\<close>

definition start_devnet :: "shell_env \<Rightarrow> path \<Rightarrow> fs \<Rightarrow> string list result" where
  "start_devnet E data_dir F =
     (let tasks_ini = path_add data_dir SUPERVISOR_CONFIG_FILE in
      if \<not> path_exists F tasks_ini then Inl (SystemExit 1)
      else Inr [env_python E, ''-m'', ''supervisor.supervisord'', ''-c'', path_text tasks_ini])"

definition serve_devnet ::
    "shell_env \<Rightarrow> host \<Rightarrow> (compose \<Rightarrow> dumped) \<Rightarrow> path \<Rightarrow> path \<Rightarrow> bool \<Rightarrow> bool \<Rightarrow> (string \<times> pyval) list
       \<Rightarrow> string list act" where
  "serve_devnet E H dump data_dir config force gen_compose_file overrides =
     bindA (init_devnet E H dump data_dir config force gen_compose_file overrides) (\<lambda>_.
       readA (start_devnet E data_dir))"

text \<open>The arguments handed to \<open>supervisorctl\<close>.\<close>

definition supervisorctl_args :: "path \<Rightarrow> string list \<Rightarrow> fs \<Rightarrow> string list result" where
  "supervisorctl_args data_dir args F =
     (let tasks_ini = path_add data_dir SUPERVISOR_CONFIG_FILE in
      if \<not> path_exists F tasks_ini then Inl (SystemExit 1)
      else Inr ([''-c'', path_text tasks_ini] @ args))"

text \<open>\<open>status\<close> prints the summary of a new session.\<close>

definition status_devnet :: "host \<Rightarrow> 'w rpc \<Rightarrow> fs \<Rightarrow> path \<Rightarrow> 'w \<Rightarrow> string result \<times> 'w session" where
  "status_devnet H R F data_dir w = summary H R F data_dir (session_init None w)"


section \<open>Refusals\<close>


section \<open>What the supervisor configuration keeps\<close>

definition supervisor_outputs :: "string set" where
  "supervisor_outputs = {''genesis.json'', ''run.sh'', ''reth.toml'', ''.secret'', ''supervisord.ini''}"

lemma keeps_supervisor_write:
  "path_name p \<in> supervisor_outputs \<Longrightarrow> guarantees (keeps supervisor_outputs) (write_text p s)"
  by (rule keeps_write)

lemma keeps_node_args: "guarantees (keeps supervisor_outputs) (node_args b c v i d g dd peers fl)"
  by (cases b) (auto simp: write_secret_file_def file_paths supervisor_outputs_def
      intro!: kept.sequence kept.pure keeps_write)

lemma keeps_write_programs: "guarantees (keeps supervisor_outputs) (write_programs H b c D peers vs i)"
proof (induction vs arbitrary: i)
  case (Cons v vs)
  have "guarantees (keeps supervisor_outputs) (write_run_script d args)"
    "guarantees (keeps supervisor_outputs) (write_reth_config H d patch)" for d args patch
    by (auto simp: write_run_script_def write_reth_config_def file_paths supervisor_outputs_def
        intro!: kept.sequence kept.pure keeps_write keeps_dump)
  then show ?case
    by (cases v) (auto simp: Let_def intro!: kept.sequence kept.pure keeps_node_args Cons.IH)
qed (simp add: kept.pure)

lemma keeps_supervisor: "guarantees (keeps supervisor_outputs) (generate_supervisor_config H c D force)"
proof -
  have "guarantees (keeps supervisor_outputs) (apply_genesis_patch H D patch)" for patch
    unfolding apply_genesis_patch_def Let_def
    by (intro kept.look kept.sequence kept.pure kept.reads kept.nothing keeps_dump)
      (simp add: file_paths supervisor_outputs_def)
  moreover have "guarantees (keeps supervisor_outputs) (copy_genesis c D)"
    unfolding copy_genesis_def Let_def
    by (intro kept.look kept.each kept.sequence kept.pure kept.reads kept.nothing keeps_supervisor_write)
      (simp add: file_paths supervisor_outputs_def)
  moreover have "guarantees (keeps supervisor_outputs) (\<lambda>F.
       let dst = path_add D SUPERVISOR_CONFIG_FILE in
       if path_exists F dst \<and> \<not> force then (Inr dst, F)
       else
         bindA (readA (trusted_peers c D)) (\<lambda>peers.
         bindA (pureA (get_backend c)) (\<lambda>b.
         bindA (write_programs H b c D peers
                  (zip [0..<length (dc_validators c)] (dc_validators c)) (daemon_sections D)) (\<lambda>i.
         bindA (write_text dst (ini_text i)) (\<lambda>_.
           pureA (Inr dst))))) F)"
    unfolding Let_def
    by (intro kept.look kept.sequence kept.pure kept.reads kept.nothing keeps_write_programs keeps_supervisor_write)
      (simp add: file_paths supervisor_outputs_def SUPERVISOR_CONFIG_FILE_def)
  ultimately show ?thesis
    unfolding generate_supervisor_config_def by (intro kept.sequence)
qed


section \<open>After a successful \<open>init\<close>\<close>

lemma supervisor_ini_there:
  assumes "generate_supervisor_config H c D True F = (Inr p, G)"
  shows "path_exists G (sib D ''supervisord.ini'')"
  using assms by (auto simp: generate_supervisor_config_def SUPERVISOR_CONFIG_FILE_def file_paths Let_def
      bindA_Inr_conv pureA_conv readA_conv path_exists_def dest: write_text_Inr_iff)

lemma saved_config:
  assumes "save_config H c p F = (Inr u, G)"
  shows "\<exists>d. config_to_dict c = Inr d \<and> node_at G p = Some (TextFile (fst (yaml_dump H True d)))"
  using assms by (cases "config_to_dict c")
    (auto simp: save_config_def dump_file_def bindA_Inr_conv pureA_conv split: option.splits dest: write_text_Inr_iff)

lemma keeps_at: "keeps W F G \<Longrightarrow> node_at F (sib D x) = Some n \<Longrightarrow> x \<notin> W \<Longrightarrow> node_at G (sib D x) = Some n"
  using keepsD [of W F G "sib D x" n] by simp

lemma keeps_exists: "keeps W F G \<Longrightarrow> path_exists F (sib D x) \<Longrightarrow> x \<notin> W \<Longrightarrow> path_exists G (sib D x)"
  using keeps_at [of W F G D x] by (auto simp: path_exists_def)

lemma init_done:
  assumes "init_devnet E H dump D config force gen overrides F = (Inr (), G)"
  shows "\<exists>c d. check_init E H config gen overrides F = Inr c \<and> config_to_dict c = Inr d \<and>
    node_at G (sib D ''devnet.yaml'') = Some (TextFile (fst (yaml_dump H True d))) \<and>
    path_exists G (sib D ''supervisord.ini'')"
proof -
  from assms obtain c F1 F2 p where c: "check_init E H config gen overrides F = Inr c"
    and save: "save_config H c (sib D ''devnet.yaml'') F1 = (Inr (), F2)"
    and rest: "bindA (generate_supervisor_config H c D True) (\<lambda>_. if gen
       then bindA (generate_docker_compose H dump c D True) (\<lambda>_. pureA (Inr ())) else pureA (Inr ())) F2 = (Inr (), G)"
    unfolding init_devnet_def bindA_Inr_conv readA_conv file_paths by auto
  from rest obtain p F3 where sup: "generate_supervisor_config H c D True F2 = (Inr p, F3)"
    and tail: "(if gen then bindA (generate_docker_compose H dump c D True) (\<lambda>_. pureA (Inr ())) else pureA (Inr ())) F3 = (Inr (), G)"
    unfolding bindA_Inr_conv by blast
  from saved_config [OF save] obtain d where d: "config_to_dict c = Inr d"
    "node_at F2 (sib D ''devnet.yaml'') = Some (TextFile (fst (yaml_dump H True d)))" by blast
  have "keeps supervisor_outputs F2 F3" using keeps_supervisor sup by (rule guaranteesD)
  then have y3: "node_at F3 (sib D ''devnet.yaml'') = Some (TextFile (fst (yaml_dump H True d)))"
    using d(2) by (rule keeps_at) (simp add: supervisor_outputs_def)
  have k: "keeps compose_outputs F3 G"
    using tail generate_compose_keeps [of F3 H dump c D True] kept.unchanged_ok
    by (cases gen) (auto simp: bindA_Inr_conv pureA_conv)
  have "node_at G (sib D ''devnet.yaml'') = Some (TextFile (fst (yaml_dump H True d)))"
    using k y3 by (rule keeps_at) (simp add: compose_outputs_def)
  moreover have "path_exists G (sib D ''supervisord.ini'')"
    using k supervisor_ini_there [OF sup] by (rule keeps_exists) (simp add: compose_outputs_def)
  ultimately show ?thesis using c d(1) by blast
qed


section \<open>A run\<close>

definition demo_env :: shell_env where
  "demo_env = \<lparr>env_path = ''/bin:/usr/bin'', env_runnable = (\<lambda>p. p = ''/bin/tempo'' \<or> p = ''/usr/bin/tempo-xtask''),
     env_python = ''python3'', env_setattr = (\<lambda>c k v. Inr c)\<rparr>"

text \<open>A generator that makes the directory of the one validator and the genesis file.\<close>

definition demo_tools :: host where
  "demo_tools = demo_host\<lparr>
     xtask := (\<lambda>args F. (Inr 0, fs_put (sib demo_root ''genesis.json'') (TextFile ''{}'')
                 (fs_put (sib demo_root ''127.0.0.1:10'') Folder F))),
     yaml_load := (\<lambda>s. Inr (PDict [(''validators'', PList [PDict [(''port'', PInt 10), (''moniker'', PStr ''n'')]])]))\<rparr>"

definition demo_start_fs :: fs where
  "demo_start_fs = [((''/'', [''c.yaml'']), TextFile ''x'')]"


lemma demo_init_runs:
  "fst (init_devnet demo_env demo_tools (\<lambda>doc. ([], None)) demo_root (''/'', [''c.yaml'']) False False
     [(''chain_id'', PInt 7), (''unknown'', PInt 1), (''seed'', PNone)] demo_start_fs) = Inr ()"
  by code_simp


end
