(* ===== verification/Commands.thy ===== *)
theory Commands
  imports Cli
begin

text \<open>
  The command line as a language: the methods of the class \<open>CLI\<close> of \<open>tempo/devnet/cli.py\<close> with their default
  arguments, what one command does to the files, and sequences of commands. Turning the words of the
  command line into a command is the work of the library \<open>fire\<close>, a parameter.
\<close>

section \<open>Commands\<close>

text \<open>Paths that are given are resolved; an argument left out is \<open>None\<close>.\<close>

datatype cli_command =
    InitCommand "path option" "path option" bool bool "(string \<times> pyval) list"
  | StartCommand "path option"
  | ServeCommand "path option" "path option" bool bool "(string \<times> pyval) list"
  | StatusCommand "path option"
  | SupervisorctlCommand "string list" "path option"

text \<open>What a command ends in: it returns, becomes another program, prints, or runs \<open>supervisorctl\<close>.\<close>

datatype cli_outcome =
    Returned
  | Becomes "string list"
  | Prints string
  | Controls "string list"

text \<open>The defaults \<open>./data\<close> and \<open>./devnet.yaml\<close>, seen from the working directory.\<close>

definition data_arg :: "path \<Rightarrow> path option \<Rightarrow> path" where
  "data_arg cwd d = (case d of None \<Rightarrow> path_add cwd ''data'' | Some p \<Rightarrow> p)"

definition config_arg :: "path \<Rightarrow> path option \<Rightarrow> path" where
  "config_arg cwd d = (case d of None \<Rightarrow> path_add cwd ''devnet.yaml'' | Some p \<Rightarrow> p)"

definition run_command ::
    "shell_env \<Rightarrow> host \<Rightarrow> (compose \<Rightarrow> dumped) \<Rightarrow> 'w rpc \<Rightarrow> path \<Rightarrow> cli_command \<Rightarrow> 'w \<Rightarrow> fs
       \<Rightarrow> (cli_outcome result \<times> fs) \<times> 'w" where
  "run_command E H dump R cwd cmd w F =
     (case cmd of
        InitCommand d c force gen kwargs \<Rightarrow>
          (bindA (init_devnet E H dump (data_arg cwd d) (config_arg cwd c) force gen kwargs)
             (\<lambda>_. pureA (Inr Returned)) F, w)
      | StartCommand d \<Rightarrow>
          (bindA (readA (start_devnet E (data_arg cwd d))) (\<lambda>argv. pureA (Inr (Becomes argv))) F, w)
      | ServeCommand d c force gen kwargs \<Rightarrow>
          (bindA (serve_devnet E H dump (data_arg cwd d) (config_arg cwd c) force gen kwargs)
             (\<lambda>argv. pureA (Inr (Becomes argv))) F, w)
      | StatusCommand d \<Rightarrow>
          (case status_devnet H R F (data_arg cwd d) w of
             (r, s) \<Rightarrow> ((bindE r (\<lambda>text. Inr (Prints text)), F), se_world s))
      | SupervisorctlCommand args d \<Rightarrow>
          (bindA (readA (supervisorctl_args (data_arg cwd d) args)) (\<lambda>argv. pureA (Inr (Controls argv))) F, w))"

text \<open>\<open>main\<close>: \<open>fire\<close> reads the words, or refuses them.\<close>

definition main_devnet ::
    "(string list \<Rightarrow> cli_command result) \<Rightarrow> shell_env \<Rightarrow> host \<Rightarrow> (compose \<Rightarrow> dumped) \<Rightarrow> 'w rpc \<Rightarrow> path
       \<Rightarrow> string list \<Rightarrow> 'w \<Rightarrow> fs \<Rightarrow> (cli_outcome result \<times> fs) \<times> 'w" where
  "main_devnet fire E H dump R cwd argv w F =
     (case fire argv of
        Inl e \<Rightarrow> ((Inl e, F), w)
      | Inr cmd \<Rightarrow> run_command E H dump R cwd cmd w F)"

section \<open>What commands do to the files\<close>

text \<open>Only \<open>init\<close> and \<open>serve\<close> write.\<close>

fun writes_files :: "cli_command \<Rightarrow> bool" where
  "writes_files (InitCommand d c force gen kwargs) = True"
| "writes_files (ServeCommand d c force gen kwargs) = True"
| "writes_files _ = False"

lemma reading_commands_keep_files:
  "\<not> writes_files cmd \<Longrightarrow> snd (fst (run_command E H dump R cwd cmd w F)) = F"
  by (cases cmd) (auto simp: run_command_def bindA_def readA_def pureA_def split: sum.splits prod.splits)

text \<open>\<open>serve\<close> leaves the files as \<open>init\<close> does, and becomes what \<open>start\<close> would become then.\<close>

lemma serve_command:
  assumes "run_command E H dump R cwd (InitCommand d c force gen kwargs) w F = ((Inr Returned, G), w)"
  shows "run_command E H dump R cwd (ServeCommand d c force gen kwargs) w F =
    run_command E H dump R cwd (StartCommand d) w G"
  using assms
  by (auto simp: run_command_def serve_devnet_def bindA_def readA_def pureA_def split: sum.splits prod.splits)

lemma failed_init_not_served:
  assumes "run_command E H dump R cwd (InitCommand d c force gen kwargs) w F = ((Inl e, G), w)"
  shows "run_command E H dump R cwd (ServeCommand d c force gen kwargs) w F = ((Inl e, G), w)"
  using assms
  by (auto simp: run_command_def serve_devnet_def bindA_def readA_def pureA_def split: sum.splits prod.splits)

section \<open>Sequences of commands\<close>

text \<open>The commands of a shell session, each run whether or not the one before succeeded.\<close>

inductive command_run ::
    "shell_env \<Rightarrow> host \<Rightarrow> (compose \<Rightarrow> dumped) \<Rightarrow> 'w rpc \<Rightarrow> path \<Rightarrow> cli_command list \<Rightarrow> 'w \<times> fs \<Rightarrow> 'w \<times> fs \<Rightarrow> bool"
  for E H dump R cwd where
  no_command: "command_run E H dump R cwd [] s s"
| next_command: "run_command E H dump R cwd cmd w F = ((r, G), v) \<Longrightarrow>
    command_run E H dump R cwd cmds (v, G) s \<Longrightarrow> command_run E H dump R cwd (cmd # cmds) (w, F) s"

inductive_cases command_run_ConsE: "command_run E H dump R cwd (cmd # cmds) s t"

lemma reading_session_keeps_files:
  "command_run E H dump R cwd cmds s t \<Longrightarrow> \<forall>cmd\<in>set cmds. \<not> writes_files cmd \<Longrightarrow> snd t = snd s"
proof (induction rule: command_run.induct)
  case (next_command cmd w F r G v cmds s)
  from next_command.hyps(1) next_command.prems have "G = F"
    using reading_commands_keep_files [of cmd E H dump R cwd w F] by simp
  with next_command show ?case by simp
qed simp

text \<open>After a successful \<open>init\<close>, \<open>start\<close> works through any session without another \<open>init\<close> or \<open>serve\<close>.\<close>

lemma start_after_session:
  assumes "init_devnet E H dump (data_arg cwd d) config force gen kwargs F = (Inr (), G)"
    and "command_run E H dump R cwd cmds (w, G) (v, K)" "\<forall>cmd\<in>set cmds. \<not> writes_files cmd"
  shows "run_command E H dump R cwd (StartCommand d) v K =
    ((Inr (Becomes [env_python E, ''-m'', ''supervisor.supervisord'', ''-c'',
        path_text (sib (data_arg cwd d) ''supervisord.ini'')]), K), v)"
proof -
  have "path_exists K (sib (data_arg cwd d) ''supervisord.ini'')"
    using init_done [OF assms(1)] reading_session_keeps_files [OF assms(2,3)] by auto
  then show ?thesis
    by (simp add: run_command_def start_devnet_def SUPERVISOR_CONFIG_FILE_def file_paths bindA_def readA_def pureA_def)
qed

text \<open>
  A devnet is not lost without \<open>--force\<close>: the commands on an existing data directory that do not force
  change no file, in any number and order.
\<close>

fun unforced_on :: "path \<Rightarrow> path \<Rightarrow> cli_command \<Rightarrow> bool" where
  "unforced_on cwd D (InitCommand d c force gen kwargs) \<longleftrightarrow> data_arg cwd d = D \<and> \<not> force"
| "unforced_on cwd D (ServeCommand d c force gen kwargs) \<longleftrightarrow> data_arg cwd d = D \<and> \<not> force"
| "unforced_on cwd D _ \<longleftrightarrow> True"

lemma init_existing_directory:
  assumes "path_exists F D"
  shows "isl (fst (init_devnet E H dump D config False gen overrides F))"
    "snd (init_devnet E H dump D config False gen overrides F) = F"
  using assms by (cases "check_init E H config gen overrides F";
    auto simp: init_devnet_def bindA_def readA_def prepare_data_dir_def)+

lemma failed_first_action:
  "isl (fst (m F)) \<Longrightarrow> snd (bindA m k F) = snd (m F)"
  by (cases "m F") (auto simp: bindA_def split: sum.splits)

lemma unforced_command_keeps_files:
  assumes "unforced_on cwd D cmd" "path_exists F D"
  shows "snd (fst (run_command E H dump R cwd cmd w F)) = F"
proof (cases cmd)
  case (InitCommand d c force gen kwargs)
  with assms show ?thesis by (simp add: run_command_def failed_first_action init_existing_directory)
next
  case (ServeCommand d c force gen kwargs)
  have "isl (fst (serve_devnet E H dump D c False gen kwargs F))"
    "snd (serve_devnet E H dump D c False gen kwargs F) = F" for c
    using init_existing_directory [OF assms(2), of E H dump c gen kwargs]
    by (auto simp: serve_devnet_def bindA_def split: sum.splits prod.splits)
  with ServeCommand assms show ?thesis by (simp add: run_command_def failed_first_action)
qed (simp_all add: reading_commands_keep_files)

lemma unforced_session_keeps_files:
  assumes "command_run E H dump R cwd cmds s t" "\<forall>cmd\<in>set cmds. unforced_on cwd D cmd" "path_exists (snd s) D"
  shows "snd t = snd s"
  using assms
proof (induction rule: command_run.induct)
  case (next_command cmd w F r G v cmds s)
  then have "G = F"
    using unforced_command_keeps_files [of cwd D cmd F E H dump R w] by simp
  with next_command show ?case by simp
qed simp

end
