(* ===== verification/Progress.thy ===== *)
theory Progress
  imports Frames
begin

text \<open>
  Total correctness of actions: \<open>delivers P m Q\<close> says that from a file system satisfying \<open>P\<close> the action
  \<open>m\<close> does not raise, and leaves a value and a file system satisfying \<open>Q\<close>.
\<close>

definition delivers :: "(fs \<Rightarrow> bool) \<Rightarrow> 'a act \<Rightarrow> ('a \<Rightarrow> fs \<Rightarrow> bool) \<Rightarrow> bool" where
  "delivers P m Q \<longleftrightarrow> (\<forall>F. P F \<longrightarrow> (\<exists>a G. m F = (Inr a, G) \<and> Q a G))"

lemma deliversI: "(\<And>F. P F \<Longrightarrow> \<exists>a G. m F = (Inr a, G) \<and> Q a G) \<Longrightarrow> delivers P m Q"
  by (simp add: delivers_def)

lemma deliversE:
  assumes "delivers P m Q" "P F"
  obtains a G where "m F = (Inr a, G)" "Q a G"
  using assms unfolding delivers_def by blast

lemma delivers_pure: "(\<And>F. P F \<Longrightarrow> Q a F) \<Longrightarrow> delivers P (pureA (Inr a)) Q"
  by (simp add: delivers_def pureA_def)

lemma delivers_value: "r = Inr a \<Longrightarrow> (\<And>F. P F \<Longrightarrow> Q a F) \<Longrightarrow> delivers P (pureA r) Q"
  by (simp add: delivers_def pureA_def)

lemma delivers_read: "(\<And>F. P F \<Longrightarrow> \<exists>a. g F = Inr a \<and> Q a F) \<Longrightarrow> delivers P (readA g) Q"
  by (simp add: delivers_def readA_def)

lemma delivers_bind:
  "delivers P m R \<Longrightarrow> (\<And>a. delivers (R a) (f a) Q) \<Longrightarrow> delivers P (bindA m f) Q"
  unfolding delivers_def bindA_def by (metis (no_types, lifting) prod.case sum.case(2))

lemma delivers_weaken:
  "delivers P m Q \<Longrightarrow> (\<And>F. P' F \<Longrightarrow> P F) \<Longrightarrow> (\<And>a G. Q a G \<Longrightarrow> Q' a G) \<Longrightarrow> delivers P' m Q'"
  unfolding delivers_def by blast

lemma delivers_assume: "(A \<Longrightarrow> delivers P m Q) \<Longrightarrow> delivers (\<lambda>F. P F \<and> A) m Q"
  unfolding delivers_def by blast

text \<open>A branch that looks at the file system, and may use what it saw.\<close>

lemma delivers_look:
  "delivers (\<lambda>F. P F \<and> b F) m Q \<Longrightarrow> delivers (\<lambda>F. P F \<and> \<not> b F) n Q \<Longrightarrow>
     delivers P (\<lambda>F. if b F then m F else n F) Q"
  unfolding delivers_def by simp

lemma delivers_nothing: "(\<And>F. P F \<Longrightarrow> Q a F) \<Longrightarrow> delivers P (\<lambda>F. (Inr a, F)) Q"
  by (simp add: delivers_def)

text \<open>Loops with an invariant.\<close>

lemma delivers_forA:
  "(\<And>x. x \<in> set xs \<Longrightarrow> delivers I (f x) (\<lambda>_. I)) \<Longrightarrow> delivers I (forA xs f) (\<lambda>_. I)"
proof (induction xs)
  case (Cons x xs)
  then have "delivers I (bindA (f x) (\<lambda>_. forA xs f)) (\<lambda>_. I)" by (intro delivers_bind) auto
  then show ?case by simp
qed (simp add: delivers_pure)

lemma delivers_mapA:
  "(\<And>x. x \<in> set xs \<Longrightarrow> delivers I (f x) (\<lambda>_. I)) \<Longrightarrow> delivers I (mapA f xs) (\<lambda>_. I)"
proof (induction xs)
  case (Cons x xs)
  then show ?case unfolding mapA.simps by (intro delivers_bind delivers_pure) auto
qed (simp add: delivers_pure)

lemma delivers_foldA:
  "(\<And>x s. x \<in> set xs \<Longrightarrow> delivers I (f x s) (\<lambda>_. I)) \<Longrightarrow> delivers I (foldA f xs s) (\<lambda>_. I)"
proof (induction xs arbitrary: s)
  case (Cons x xs)
  then show ?case unfolding foldA.simps by (intro delivers_bind) auto
qed (simp add: delivers_pure)

section \<open>Directories that can be written\<close>

text \<open>
  No directory has one of the given names, \<open>D\<close> and its parents are directories, so are the entries \<open>ms\<close>
  of \<open>D\<close>, and the entries \<open>ns\<close> are directories or missing.
\<close>

definition writable :: "string list \<Rightarrow> path \<Rightarrow> string list \<Rightarrow> string list \<Rightarrow> fs \<Rightarrow> bool" where
  "writable W D ms ns F \<longleftrightarrow>
     list_all (\<lambda>(p, _). node_at F p = Some Folder \<longrightarrow> path_name p \<notin> set W) F \<and>
     list_all (\<lambda>k. is_dir F (fst D, take k (snd D))) [0..<Suc (length (snd D))] \<and>
     list_all (\<lambda>m. is_dir F (sib D m)) ms \<and>
     list_all (\<lambda>m. m \<notin> set W \<and> (case node_at F (sib D m) of Some (TextFile _) \<Rightarrow> False | _ \<Rightarrow> True)) ns"

lemma writable_dir: "writable W D ms ns F \<Longrightarrow> is_dir F D"
  by (simp add: writable_def list_all_iff)

lemma writable_prefix: "writable W D ms ns F \<Longrightarrow> k \<le> length (snd D) \<Longrightarrow> is_dir F (fst D, take k (snd D))"
  by (auto simp: writable_def list_all_iff simp del: upt_Suc)

lemma writable_sub: "writable W D ms ns F \<Longrightarrow> m \<in> set ms \<Longrightarrow> is_dir F (sib D m)"
  by (simp add: writable_def list_all_iff)

text \<open>The first condition is one on the file system, not on its entries.\<close>

lemma no_folder_iff:
  "list_all (\<lambda>(p, _). node_at F p = Some Folder \<longrightarrow> path_name p \<notin> set W) F \<longleftrightarrow>
     (\<forall>p. node_at F p = Some Folder \<longrightarrow> path_name p \<notin> set W)"
  unfolding list_all_iff by (auto dest: map_of_SomeD simp del: split_paired_All)

lemma writable_iff:
  "writable W D ms ns F \<longleftrightarrow>
     (\<forall>p. node_at F p = Some Folder \<longrightarrow> path_name p \<notin> set W) \<and>
     (\<forall>k \<le> length (snd D). is_dir F (fst D, take k (snd D))) \<and>
     (\<forall>m \<in> set ms. is_dir F (sib D m)) \<and>
     (\<forall>m \<in> set ns. m \<notin> set W \<and> (case node_at F (sib D m) of Some (TextFile _) \<Rightarrow> False | _ \<Rightarrow> True))"
  unfolding writable_def no_folder_iff by (auto simp: list_all_iff less_Suc_eq_le simp del: upt_Suc split_paired_All)

lemma writable_no_folder: "writable W D ms ns F \<Longrightarrow> path_name p \<in> set W \<Longrightarrow> node_at F p \<noteq> Some Folder"
  unfolding writable_iff by blast

lemma is_dir_other: "is_dir F q \<Longrightarrow> node_at F p \<noteq> Some Folder \<or> n = Folder \<Longrightarrow> is_dir (fs_put p n F) q"
  by (auto simp: is_dir_def)

lemma writable_put_text:
  assumes "writable W D ms ns F" "path_name p \<in> set W"
  shows "writable W D ms ns (fs_put p (TextFile s) F)"
proof -
  have F: "node_at F p \<noteq> Some Folder" using assms by (rule writable_no_folder)
  have other: "sib D m \<noteq> p" if "m \<in> set ns" for m
    using assms that by (auto simp: writable_def list_all_iff path_name_def sib_def)
  show ?thesis
    using assms F other unfolding writable_iff by (simp add: is_dir_other del: split_paired_All)
qed

lemma writable_put_folder:
  assumes "writable W D ms ns F" "m \<in> set ns"
  shows "writable W D (m # ms) ns (fs_put (sib D m) Folder F)"
proof -
  have "path_name (sib D m) \<notin> set W" using assms by (simp add: writable_iff path_name_def sib_def)
  moreover have "is_dir (fs_put (sib D m) Folder F) (sib D m)" by (simp add: is_dir_def)
  ultimately show ?thesis
    using assms(1) unfolding writable_iff by (simp add: is_dir_other del: split_paired_All)
qed

lemma writable_forget: "writable W D ms ns F \<Longrightarrow> set ms' \<subseteq> set ms \<Longrightarrow> set ns' \<subseteq> set ns \<Longrightarrow> writable W D ms' ns' F"
  unfolding writable_iff by blast

text \<open>Files can be written in the directories at hand, and the directories wanted can be made.\<close>

lemma delivers_write:
  assumes "path_name p \<in> set W" "snd p \<noteq> []" "path_parent p = D \<or> path_parent p \<in> sib D ` set ms"
  shows "delivers (writable W D ms ns) (write_text p s) (\<lambda>_. writable W D ms ns)"
proof (rule deliversI)
  fix F assume F: "writable W D ms ns F"
  then have "is_dir F (path_parent p)" using assms(3) writable_dir writable_sub by fastforce
  moreover have "node_at F p \<noteq> Some Folder" using F assms(1) by (rule writable_no_folder)
  ultimately show "\<exists>a G. write_text p s F = (Inr a, G) \<and> writable W D ms ns G"
    using assms(2) writable_put_text [OF F assms(1)] by (simp add: write_text_def)
qed

lemma make_dirs_from_there:
  "(\<And>k. 0 < k \<Longrightarrow> k \<le> length xs \<Longrightarrow> is_dir F (fst p, snd p @ take k xs)) \<Longrightarrow> make_dirs_from p xs F = (Inr (), F)"
proof (induction xs arbitrary: p)
  case (Cons x xs)
  have "is_dir F (fst p, snd p @ [x])" using Cons.prems [of 1] by simp
  moreover have "make_dirs_from (fst p, snd p @ [x]) xs F = (Inr (), F)"
    using Cons.prems [of "Suc k" for k] by (intro Cons.IH) auto
  ultimately show ?case by (simp add: bindA_def make_dir_def)
qed (simp add: pureA_def)

lemma make_dirs_from_append:
  "make_dirs_from p (xs @ ys) = bindA (make_dirs_from p xs) (\<lambda>_. make_dirs_from (fst p, snd p @ xs) ys)"
  by (induction xs arbitrary: p) (simp_all add: bindA_assoc)

lemma make_dirs_sib:
  assumes "writable W D ms ns F"
  shows "make_dirs (sib D m) F = make_dir (sib D m) F"
proof -
  have "make_dirs_from (fst D, []) (snd D) F = (Inr (), F)"
    using writable_prefix [OF assms] by (intro make_dirs_from_there) simp
  then show ?thesis
    by (auto simp: make_dirs_def sib_def make_dirs_from_append bindA_def pureA_def split: prod.splits sum.splits)
qed

lemma delivers_make_dirs:
  assumes "m \<in> set ns"
  shows "delivers (writable W D ms ns) (make_dirs (sib D m)) (\<lambda>_. writable W D (m # ms) ns)"
proof (rule deliversI)
  fix F assume F: "writable W D ms ns F"
  have parent: "path_parent (sib D m) = D" by (simp add: sib_def path_parent_def)
  show "\<exists>a G. make_dirs (sib D m) F = (Inr a, G) \<and> writable W D (m # ms) ns G"
  proof (cases "is_dir F (sib D m)")
    case True
    then have "make_dirs (sib D m) F = (Inr (), F)" using make_dirs_sib [OF F] by (simp add: make_dir_def)
    moreover have "writable W D (m # ms) ns F" using F True by (simp add: writable_def)
    ultimately show ?thesis by blast
  next
    case False
    then have "node_at F (sib D m) = None"
      using F assms by (cases "node_at F (sib D m)")
        (auto simp: writable_def list_all_iff is_dir_def split: fnode.splits)
    then have "make_dirs (sib D m) F = (Inr (), fs_put (sib D m) Folder F)"
      using make_dirs_sib [OF F] False writable_dir [OF F] parent by (simp add: make_dir_def)
    then show ?thesis using writable_put_folder [OF F assms] by blast
  qed
qed

end
