(* ===== verification/ComposeScripts.thy ===== *)
theory ComposeScripts
  imports Compose
begin

text \<open>
  What a successful run of the compose generator leaves in the directories of the services: for every
  service of a two-network devnet the wrapper script of its command, which no later step overwrites.
\<close>

section \<open>A file that stays\<close>

definition stays :: "path \<Rightarrow> fs \<Rightarrow> fs \<Rightarrow> bool" where
  "stays p F G \<longleftrightarrow> (\<forall>n. node_at F p = Some n \<longrightarrow> node_at G p = Some n)"

lemma staysD: "stays p F G \<Longrightarrow> node_at F p = Some n \<Longrightarrow> node_at G p = Some n"
  by (simp add: stays_def)

interpretation staying: guarantee "stays p"
  by unfold_locales (simp_all add: stays_def)

lemma stays_keeps: "guarantees (keeps W) m \<Longrightarrow> path_name p \<notin> W \<Longrightarrow> guarantees (stays p) m"
  by (auto simp: guarantees_def stays_def intro: keepsD)

lemma stays_write: "q \<noteq> p \<Longrightarrow> guarantees (stays p) (write_text q s)"
  by (rule guaranteesI) (auto simp: stays_def write_text_frame)

abbreviation script_path :: "path \<Rightarrow> string \<Rightarrow> path" where
  "script_path D m \<equiv> sib (sib D m) ''docker-run.sh''"

lemma stays_run_script: "m \<noteq> k \<Longrightarrow> guarantees (stays (script_path D m)) (write_docker_run_script (sib D k) args)"
  unfolding write_docker_run_script_def
  by (intro staying.sequence staying.pure stays_write) (auto simp: file_paths sib_def)

lemma stays_genesis: "guarantees (stays (script_path D m)) (\<lambda>F. if path_exists F q
      then bindA (readA (\<lambda>F. read_text F q)) (\<lambda>s. write_text (path_add d ''genesis.json'') s) F
      else (Inr (), F))"
  by (intro staying.look staying.sequence staying.reads staying.nothing stays_write)
    (simp add: file_paths sib_def)

lemma stays_others:
  "guarantees (stays (script_path D m)) (make_dirs d)"
  "guarantees (stays (script_path D m)) (ensure_enode_keypair H d)"
  "guarantees (stays (script_path D m)) (service_trusted_peers H xs E)"
  by (auto intro!: stays_keeps [of "{}"] keeps_make_dirs keeps_keypair keeps_service_peers)

lemma stays_with_keys:
  assumes "m \<noteq> k" "plain_name k" "guarantees (stays (script_path D m)) command"
  shows "guarantees (stays (script_path D m)) (prepare_with_keys H D (PStr k) command)"
  unfolding prepare_with_keys_def prepare_periphery_dir_def path_join_def path_add_plain [OF assms(2)]
    pyval.case bindA_pure
  using assms(1) by (intro staying.sequence staying.pure stays_run_script stays_genesis stays_others assms(3))

lemma stays_services:
  assumes "m \<noteq> k" "plain_name k"
  shows "vc_moniker v = PStr k \<Longrightarrow> guarantees (stays (script_path D m)) (add_validator H c D (i, v) S)"
    and "an_moniker x = PStr k \<Longrightarrow> guarantees (stays (script_path D m)) (add_follow_node H c D (i, x) S)"
    and "an_moniker x = PStr k \<Longrightarrow> guarantees (stays (script_path D m)) (add_proxy H c D (i, x) S)"
    and "an_moniker x = PStr k \<Longrightarrow> guarantees (stays (script_path D m)) (add_public_node H c D (i, x) S)"
  using assms
  unfolding add_validator_def add_follow_node_def add_proxy_def add_public_node_def
    prepare_follow_node_dir_def prepare_proxy_dir_def prepare_public_node_dir_def
    docker_follow_node_command_def docker_public_node_command_def Let_def
  by (auto simp: path_join_def dir_name_def path_add_plain
      intro!: staying.sequence staying.pure staying.reads stays_with_keys stays_others stays_run_script)


section \<open>The script of one service\<close>

definition script_at :: "fs \<Rightarrow> path \<Rightarrow> string \<Rightarrow> pyval list \<Rightarrow> bool" where
  "script_at G D m args \<longleftrightarrow>
     (case run_script_content args ''docker'' True of
        Inl e \<Rightarrow> False | Inr s \<Rightarrow> node_at G (script_path D m) = Some (TextFile s))"

lemma script_at_stays:
  "script_at F D m args \<Longrightarrow> guarantees (stays (script_path D m)) act \<Longrightarrow> act F = (r, G) \<Longrightarrow> script_at G D m args"
  by (auto simp: script_at_def split: sum.splits dest: staysD guaranteesD)

lemma run_script_there:
  "write_docker_run_script (sib D k) args F = (Inr p, G) \<Longrightarrow> script_at G D k args"
  by (auto simp: write_docker_run_script_def script_at_def file_paths bindA_Inr_conv pureA_conv
      dest!: write_text_Inr_iff)

lemma prepare_with_keys_script:
  assumes "prepare_with_keys H D (PStr k) command F = (Inr u, G)" "plain_name k"
  shows "\<exists>args F1. command F = (Inr args, F1) \<and> script_at G D k args"
proof -
  from assms obtain args F1 p F2 where c: "command F = (Inr args, F1)"
    and prep: "prepare_periphery_dir D (PStr k) args F1 = (Inr p, F2)"
    and keys: "ensure_enode_keypair H (sib D k) F2 = (Inr u, G)"
    by (auto simp: prepare_with_keys_def bindA_Inr_conv pureA_conv path_join_def path_add_plain)
  from prep assms(2) obtain F3 q where "write_docker_run_script (sib D k) args F3 = (Inr q, F2)"
    by (auto simp: prepare_periphery_dir_def bindA_Inr_conv pureA_conv path_join_def path_add_plain)
  then have "script_at F2 D k args" by (rule run_script_there)
  then have "script_at G D k args" using stays_others(2) keys by (rule script_at_stays)
  with c show ?thesis by blast
qed

text \<open>The trusted peers of validators depend on their identity files only.\<close>

definition same_identities :: "devnet_config \<Rightarrow> path \<Rightarrow> fs \<Rightarrow> fs \<Rightarrow> bool" where
  "same_identities c D F G \<longleftrightarrow>
     list_all (\<lambda>v. node_at G (sib (sib D (py_str (vc_moniker v))) ''enode.identity'') =
                  node_at F (sib (sib D (py_str (vc_moniker v))) ''enode.identity'')) (dc_validators c)"

lemma docker_trusted_peers_cong:
  assumes "same_identities c D F G" "list_all named_node (nodes_of_config c)"
  shows "docker_trusted_peers c D m G = docker_trusted_peers c D m F"
proof -
  have "docker_trusted_peer G D m v = docker_trusted_peer F D m v" if v: "v \<in> set (dc_validators c)" for v
  proof -
    from named_validators [OF assms(2) v] obtain k where k: "vc_moniker v = PStr k" "plain_name k" by blast
    have "node_at G (sib (sib D k) ''enode.identity'') = node_at F (sib (sib D k) ''enode.identity'')"
      using assms(1) v k(1) by (auto simp: same_identities_def list_all_iff)
    then show ?thesis
      using k by (simp add: docker_trusted_peer_def dir_name_def path_join_def path_add_plain file_paths
          path_exists_def read_text_def Let_def cong: if_cong)
  qed
  then show ?thesis unfolding docker_trusted_peers_def by (simp cong: mapE_cong)
qed

lemma add_validator_unchanged:
  assumes "vc_moniker v = PStr k" "plain_name k" "add_validator H c D (i, v) S F = (r, G)"
  shows "same_identities c D F G"
proof -
  have "guarantees (unchanged {script_path D k}) (write_docker_run_script (sib D k) args)" for args
    unfolding write_docker_run_script_def file_paths
    by (intro untouched.sequence untouched.pure) (rule guaranteesI, rule unchanged_write)
  then have "guarantees (unchanged {script_path D k}) (add_validator H c D (i, v) S)"
    using assms(1,2) by (auto simp: add_validator_def dir_name_def path_join_def path_add_plain
        intro!: untouched.sequence untouched.reads untouched.pure)
  note un = guaranteesD [OF this assms(3)]
  have "node_at G (sib (sib D m) ''enode.identity'') = node_at F (sib (sib D m) ''enode.identity'')" for m
    using un by (rule unchangedD) (simp add: sib_def)
  then show ?thesis by (simp add: same_identities_def list_all_iff)
qed

lemma same_identities_trans:
  "same_identities c D F G \<Longrightarrow> same_identities c D G K \<Longrightarrow> same_identities c D F K"
  by (simp add: same_identities_def list_all_iff)

section \<open>The commands\<close>

definition first_validator_url :: "host \<Rightarrow> devnet_config \<Rightarrow> string \<Rightarrow> (int \<Rightarrow> int) \<Rightarrow> string result" where
  "first_validator_url H c scheme port =
     bindE (docker_ip (other_ip H) c 0) (\<lambda>ip. Inr (scheme @ ip @ '':'' @ container_port port))"

text \<open>The arguments service \<open>i\<close> has to be started with; the peers of a follower are made on the way.\<close>

definition service_command ::
    "host \<Rightarrow> devnet_config \<Rightarrow> path \<Rightarrow> fs \<Rightarrow> nat \<Rightarrow> string list \<Rightarrow> pyval list result" where
  "service_command H c D F i peers =
     (let f = length (dc_validators c) + length (dt_follow_nodes (dc_docker c)) in
      if is_validator c i then docker_node_two_network_command H c (dc_validators c ! i) D i F
      else if i < f then bindE (first_validator_url H c ''ws://'' ws_rpc_port) (\<lambda>url. Inr (follow_args c url peers))
      else if \<not> is_public_node c i then docker_p2p_proxy_command H c
      else Inr (follow_args c
             (''ws://'' @ py_str (an_moniker (hd (dt_follow_nodes (dc_docker c)))) @ '':'' @ container_port ws_rpc_port)
             peers))"

definition served :: "host \<Rightarrow> devnet_config \<Rightarrow> path \<Rightarrow> fs \<Rightarrow> fs \<Rightarrow> nat \<Rightarrow> bool" where
  "served H c D F G i \<longleftrightarrow>
     (\<exists>peers. case service_command H c D F i peers of
        Inl e \<Rightarrow> False | Inr args \<Rightarrow> script_at G D (py_str (service_names c ! i)) args)"

lemma served_stays:
  "served H c D F K i \<Longrightarrow> guarantees (stays (script_path D (py_str (service_names c ! i)))) act \<Longrightarrow>
     act K = (r, G) \<Longrightarrow> served H c D F G i"
  by (auto simp: served_def split: sum.splits dest: script_at_stays)

lemma servedI:
  "service_command H c D F i peers = Inr args \<Longrightarrow> script_at G D (py_str (service_names c ! i)) args \<Longrightarrow>
     served H c D F G i"
  unfolding served_def by (intro exI [of _ peers]) simp

lemma validator_served:
  assumes "add_validator H c D (i, v) S K = (Inr T, G)" "vc_moniker v = PStr k" "plain_name k"
    and "is_validator c i" "dc_validators c ! i = v" "service_names c ! i = PStr k"
    and "same_identities c D F K" "list_all named_node (nodes_of_config c)"
  shows "served H c D F G i"
proof -
  from assms(1-3) obtain args p K2 where args: "docker_node_two_network_command H c v D i K = Inr args"
    and w: "write_docker_run_script (sib D k) args K = (Inr p, G)"
    by (auto simp: add_validator_def bindA_Inr_conv pureA_conv readA_conv dir_name_def path_join_def path_add_plain)
  have "docker_node_two_network_command H c v D i F = Inr args"
    using args docker_trusted_peers_cong [OF assms(7,8)] by (simp add: docker_node_two_network_command_def)
  with run_script_there [OF w] show ?thesis
    using assms by (intro servedI) (simp_all add: service_command_def Let_def)
qed

lemma follow_served:
  assumes "add_follow_node H c D (i, x) S K = (Inr T, G)" "an_moniker x = PStr k" "plain_name k"
    and "\<not> is_validator c i" "i < length (dc_validators c) + length (dt_follow_nodes (dc_docker c))"
    and "service_names c ! i = PStr k"
  shows "served H c D F G i"
proof -
  from assms(1,2) obtain u where "prepare_with_keys H D (PStr k) (docker_follow_node_command H c D) K = (Inr u, G)"
    by (auto simp: add_follow_node_def prepare_follow_node_dir_def bindA_Inr_conv pureA_conv)
  from prepare_with_keys_script [OF this assms(3)] obtain args K2 where
    "docker_follow_node_command H c D K = (Inr args, K2)" "script_at G D k args" by blast
  then obtain peers where "service_command H c D F i peers = Inr args" "script_at G D k args"
    using assms(4,5) by (auto simp: docker_follow_node_command_def service_command_def first_validator_url_def
        bindA_Inr_conv pureA_conv readA_conv bindE_Inr_conv Let_def)
  then show ?thesis using assms(6) by (intro servedI) simp_all
qed

lemma proxy_served:
  assumes "add_proxy H c D (i, x) S K = (Inr T, G)" "an_moniker x = PStr k" "plain_name k"
    and "\<not> i < length (dc_validators c) + length (dt_follow_nodes (dc_docker c))" "\<not> is_public_node c i"
    and "service_names c ! i = PStr k"
  shows "served H c D F G i"
proof -
  from assms(1,2) obtain u where "prepare_with_keys H D (PStr k) (pureA (docker_p2p_proxy_command H c)) K = (Inr u, G)"
    by (auto simp: add_proxy_def prepare_proxy_dir_def bindA_Inr_conv pureA_conv)
  from prepare_with_keys_script [OF this assms(3)] obtain args where
    "docker_p2p_proxy_command H c = Inr args" "script_at G D k args" by (auto simp: pureA_conv)
  then show ?thesis
    using assms(4-6) by (intro servedI) (simp_all add: service_command_def is_validator_def Let_def)
qed

lemma public_served:
  assumes "add_public_node H c D (i, x) S K = (Inr T, G)" "an_moniker x = PStr k" "plain_name k"
    and "is_public_node c i" "service_names c ! i = PStr k"
  shows "served H c D F G i"
proof -
  from assms(1,2) obtain u where "prepare_with_keys H D (PStr k) (docker_public_node_command H c D) K = (Inr u, G)"
    and "dt_follow_nodes (dc_docker c) \<noteq> []"
    by (auto simp: add_public_node_def prepare_public_node_dir_def bindA_Inr_conv pureA_conv bindE_Inr_conv
        split: list.splits)
  from prepare_with_keys_script [OF this(1) assms(3)] this(2) obtain args K2 where
    run: "docker_public_node_command H c D K = (Inr args, K2)" "script_at G D k args"
    and f: "dt_follow_nodes (dc_docker c) \<noteq> []" by blast
  then obtain peers where "service_command H c D F i peers = Inr args"
    using assms(4) by (cases "dt_follow_nodes (dc_docker c)") (auto simp: docker_public_node_command_def
        service_command_def is_validator_def is_public_node_def bindA_Inr_conv pureA_conv Let_def)
  then show ?thesis using assms(5) run(2) by (intro servedI) simp_all
qed


section \<open>All services\<close>

lemma loop_serves:
  assumes "foldA f ixs S K = (Inr T, G)" "I K"
    and "\<And>e S K T G. e \<in> set ixs \<Longrightarrow> f e S K = (Inr T, G) \<Longrightarrow> I K \<Longrightarrow> I G \<and> W (fst e) G"
    and "\<And>e S K T G j. e \<in> set ixs \<Longrightarrow> f e S K = (Inr T, G) \<Longrightarrow> j \<noteq> fst e \<Longrightarrow> W j K \<Longrightarrow> W j G"
  shows "I G \<and> (\<forall>j. W j K \<or> j \<in> fst ` set ixs \<longrightarrow> W j G)"
  using assms
proof (induction ixs arbitrary: S K)
  case Nil
  then show ?case by (simp add: pureA_conv)
next
  case (Cons e ixs)
  from Cons.prems(1) obtain S' K' where e: "f e S K = (Inr S', K')" and rest: "foldA f ixs S' K' = (Inr T, G)"
    by (auto simp: bindA_Inr_conv)
  have ok: "I K'" "W (fst e) K'" using Cons.prems(3) [OF _ e Cons.prems(2)] by simp_all
  have "I G \<and> (\<forall>j. W j K' \<or> j \<in> fst ` set ixs \<longrightarrow> W j G)"
    using rest ok(1)
    by (rule Cons.IH) (erule (1) Cons.prems(3,4) [OF list.set_intros(2)]; assumption)+
  moreover have "W j K'" if "W j K" for j
    using Cons.prems(4) [OF _ e, of j] ok(2) that by (cases "j = fst e") simp_all
  ultimately show ?case using ok(2) by auto
qed

definition named_services :: "devnet_config \<Rightarrow> bool" where
  "named_services c \<longleftrightarrow> list_all (\<lambda>n. case n of PStr m \<Rightarrow> plain_name m | _ \<Rightarrow> False) (service_names c)"

lemma service_name:
  assumes "named_services c" "i < length (service_names c)"
  obtains k where "service_names c ! i = PStr k" "plain_name k"
proof -
  have "case service_names c ! i of PStr m \<Rightarrow> plain_name m | _ \<Rightarrow> False"
    using assms by (simp add: named_services_def list_all_length)
  then show ?thesis by (cases "service_names c ! i") (auto intro: that)
qed

lemma named_services_validators: "named_services c \<Longrightarrow> list_all named_node (nodes_of_config c)"
  by (auto simp: named_services_def service_names_def list_all_iff nodes_of_config_def named_node_def
      dest: set_zip_rightD)

lemma set_numbered: "(i, x) \<in> set (numbered n xs) \<longleftrightarrow> n \<le> i \<and> i < n + length xs \<and> x = xs ! (i - n)"
proof -
  have "(i, x) \<in> set (numbered n xs) \<longleftrightarrow> (\<exists>k < length xs. i = n + k \<and> x = xs ! k)"
    unfolding numbered_def set_zip by (force simp: nth_upt)
  also have "\<dots> \<longleftrightarrow> n \<le> i \<and> i < n + length xs \<and> x = xs ! (i - n)"
    by (auto intro: exI [of _ "i - n"])
  finally show ?thesis .
qed

lemma numbered_indices: "fst ` set (numbered n xs) = {n..<n + length xs}"
proof -
  have "fst ` set (numbered n xs) = set (map fst (numbered n xs))" by simp
  then show ?thesis by (simp add: map_numbered)
qed

lemma service_at:
  "(i, v) \<in> set (numbered 0 (dc_validators c)) \<Longrightarrow>
     is_validator c i \<and> dc_validators c ! i = v \<and> service_names c ! i = vc_moniker v \<and> i < length (service_names c)"
  "(i, x) \<in> set (numbered (length (dc_validators c)) (dt_follow_nodes (dc_docker c))) \<Longrightarrow>
     \<not> is_validator c i \<and> i < length (dc_validators c) + length (dt_follow_nodes (dc_docker c)) \<and>
     service_names c ! i = an_moniker x \<and> i < length (service_names c)"
  "(i, x) \<in> set (numbered (length (dc_validators c) + length (dt_follow_nodes (dc_docker c)))
                  (dt_p2p_proxies (dc_docker c))) \<Longrightarrow>
     \<not> i < length (dc_validators c) + length (dt_follow_nodes (dc_docker c)) \<and> \<not> is_public_node c i \<and>
     service_names c ! i = an_moniker x \<and> i < length (service_names c)"
  "(i, x) \<in> set (numbered (length (dc_validators c) + length (dt_follow_nodes (dc_docker c))
                  + length (dt_p2p_proxies (dc_docker c))) (dt_public_nodes (dc_docker c))) \<Longrightarrow>
     is_public_node c i \<and> service_names c ! i = an_moniker x \<and> i < length (service_names c)"
  by (auto simp: set_numbered service_names_def nth_append is_validator_def is_public_node_def)

text \<open>Writing one service keeps what is written for another.\<close>

lemma served_other:
  assumes "named_services c" "distinct (service_names c)" "i < length (service_names c)" "j \<noteq> i"
    and "j < length (service_names c)" "served H c D F K j" "act K = (r, G)"
    and "\<And>m k. m \<noteq> k \<Longrightarrow> plain_name k \<Longrightarrow> service_names c ! i = PStr k \<Longrightarrow> guarantees (stays (script_path D m)) act"
  shows "served H c D F G j"
proof -
  obtain k where k: "service_names c ! i = PStr k" "plain_name k" using assms(1,3) by (rule service_name)
  obtain m where m: "service_names c ! j = PStr m" "plain_name m" using assms(1,5) by (rule service_name)
  have "m \<noteq> k" using assms(2-5) k m nth_eq_iff_index_eq by fastforce
  then have "guarantees (stays (script_path D m)) act" using k by (intro assms(8))
  then show ?thesis using assms(6,7) m(1) served_stays [of H c D F K j act r G] by simp
qed

lemma loop_validators:
  assumes names: "named_services c" and new: "distinct (service_names c)"
    and run: "foldA (add_validator H c D) (numbered 0 (dc_validators c)) [] F = (Inr S, G)"
  shows "j < length (service_names c) \<Longrightarrow> is_validator c j \<Longrightarrow> served H c D F G j"
proof -
  let ?W = "\<lambda>j K. j < length (service_names c) \<and> served H c D F K j"
  have "same_identities c D F G \<and> (\<forall>j. ?W j F \<or> j \<in> fst ` set (numbered 0 (dc_validators c)) \<longrightarrow> ?W j G)"
  proof (rule loop_serves [OF run])
    show "same_identities c D F F" by (simp add: same_identities_def list_all_iff)
  next
    fix e S K T K' assume e: "e \<in> set (numbered 0 (dc_validators c))"
      and r: "add_validator H c D e S K = (Inr T, K')" and same: "same_identities c D F K"
    obtain i v where iv: "e = (i, v)" by (cases e)
    note at = service_at(1) [OF e [unfolded iv]]
    obtain k where k: "vc_moniker v = PStr k" "plain_name k" using at names by (metis service_name)
    have "same_identities c D F K'"
      using same add_validator_unchanged [OF k r [unfolded iv]] by (rule same_identities_trans)
    then show "same_identities c D F K' \<and> ?W (fst e) K'"
      using validator_served [OF r [unfolded iv] k _ _ _ same named_services_validators [OF names]] at k
      by (simp add: iv)
  next
    fix e S K T K' j assume e: "e \<in> set (numbered 0 (dc_validators c))"
      and r: "add_validator H c D e S K = (Inr T, K')" and j: "j \<noteq> fst e" "?W j K"
    obtain i v where iv: "e = (i, v)" by (cases e)
    show "?W j K'"
      using served_other [OF names new, of i j H D F K "add_validator H c D (i, v) S" "Inr T" K']
        service_at(1) [OF e [unfolded iv]] j r stays_services(1) by (simp add: iv)
  qed
  then show "j < length (service_names c) \<Longrightarrow> is_validator c j \<Longrightarrow> served H c D F G j"
    by (auto simp: numbered_indices is_validator_def)
qed

lemma loop_aux:
  assumes names: "named_services c" and new: "distinct (service_names c)"
    and run: "foldA f ixs S K = (Inr T, G)"
    and at: "\<And>i x. (i, x) \<in> set ixs \<Longrightarrow> service_names c ! i = an_moniker x \<and> i < length (service_names c)"
    and serve: "\<And>i x S K T G k. (i, x) \<in> set ixs \<Longrightarrow> f (i, x) S K = (Inr T, G) \<Longrightarrow> an_moniker x = PStr k \<Longrightarrow>
      plain_name k \<Longrightarrow> served H c D F G i"
    and stay: "\<And>i x S m k. m \<noteq> k \<Longrightarrow> plain_name k \<Longrightarrow> an_moniker x = PStr k \<Longrightarrow>
      guarantees (stays (script_path D m)) (f (i, x) S)"
  shows "j < length (service_names c) \<Longrightarrow> served H c D F K j \<or> j \<in> fst ` set ixs \<Longrightarrow> served H c D F G j"
proof -
  let ?W = "\<lambda>j K. j < length (service_names c) \<and> served H c D F K j"
  have "True \<and> (\<forall>j. ?W j K \<or> j \<in> fst ` set ixs \<longrightarrow> ?W j G)"
  proof (rule loop_serves [OF run, of "\<lambda>_. True"])
    fix e S K T K' assume e: "e \<in> set ixs" and r: "f e S K = (Inr T, K')"
    obtain i x where ix: "e = (i, x)" by (cases e)
    note at = at [OF e [unfolded ix]]
    obtain k where "an_moniker x = PStr k" "plain_name k" using at names by (metis service_name)
    then show "True \<and> ?W (fst e) K'" using serve [OF e [unfolded ix] r [unfolded ix]] at by (simp add: ix)
  next
    fix e S K T K' j assume e: "e \<in> set ixs" and r: "f e S K = (Inr T, K')" and j: "j \<noteq> fst e" "?W j K"
    obtain i x where ix: "e = (i, x)" by (cases e)
    show "?W j K'"
      using served_other [OF names new, of i j H D F K "f (i, x) S" "Inr T" K'] at [OF e [unfolded ix]] j r stay
      by (simp add: ix)
  qed simp
  then show "j < length (service_names c) \<Longrightarrow> served H c D F K j \<or> j \<in> fst ` set ixs \<Longrightarrow> served H c D F G j"
    by blast
qed

lemma two_network_scripts:
  assumes names: "named_services c" and new: "distinct (service_names c)"
    and run: "generate_two_network_compose H c D F = (Inr S, G)" and i: "i < length (service_names c)"
  shows "served H c D F G i"
proof -
  let ?t = "dc_docker c"
  let ?V = "length (dc_validators c)"
  let ?f = "?V + length (dt_follow_nodes ?t)"
  let ?p = "?f + length (dt_p2p_proxies ?t)"
  from run obtain S1 S2 S3 F1 F2 F3 where
    l1: "foldA (add_validator H c D) (numbered 0 (dc_validators c)) [] F = (Inr S1, F1)" and
    l2: "foldA (add_follow_node H c D) (numbered ?V (dt_follow_nodes ?t)) S1 F1 = (Inr S2, F2)" and
    l3: "foldA (add_proxy H c D) (numbered ?f (dt_p2p_proxies ?t)) S2 F2 = (Inr S3, F3)" and
    l4: "foldA (add_public_node H c D) (numbered ?p (dt_public_nodes ?t)) S3 F3 = (Inr S, G)"
    by (auto simp: generate_two_network_compose_def Let_def bindA_Inr_conv nodes_of_config_numbered)
  have s1: "served H c D F F1 i" if "i < ?V"
    using loop_validators [OF names new l1 i] that by (simp add: is_validator_def)
  have "served H c D F F2 i" if "served H c D F F1 i \<or> ?V \<le> i \<and> i < ?f"
  proof (rule loop_aux [OF names new l2 _ _ _ i])
    fix k S m j and x :: aux_node assume "m \<noteq> k" "plain_name k" "an_moniker x = PStr k"
    then show "guarantees (stays (script_path D m)) (add_follow_node H c D (j, x) S)"
      by (rule stays_services(2))
  qed (use that in \<open>auto simp: numbered_indices dest!: service_at(2) intro: follow_served\<close>)
  with s1 have s2: "served H c D F F2 i" if "i < ?f" using that by linarith
  have "served H c D F F3 i" if "served H c D F F2 i \<or> ?f \<le> i \<and> i < ?p"
  proof (rule loop_aux [OF names new l3 _ _ _ i])
    fix k S m j and x :: aux_node assume "m \<noteq> k" "plain_name k" "an_moniker x = PStr k"
    then show "guarantees (stays (script_path D m)) (add_proxy H c D (j, x) S)"
      by (rule stays_services(3))
  qed (use that in \<open>auto simp: numbered_indices dest!: service_at(3) intro: proxy_served\<close>)
  with s2 have s3: "served H c D F F3 i" if "i < ?p" using that by linarith
  have "served H c D F G i" if "served H c D F F3 i \<or> ?p \<le> i"
  proof (rule loop_aux [OF names new l4 _ _ _ i])
    fix k S m j and x :: aux_node assume "m \<noteq> k" "plain_name k" "an_moniker x = PStr k"
    then show "guarantees (stays (script_path D m)) (add_public_node H c D (j, x) S)"
      by (rule stays_services(4))
  qed (use that i in \<open>auto simp: numbered_indices service_names_def dest!: service_at(4) intro: public_served\<close>)
  with s3 show ?thesis by linarith
qed


lemma compose_scripts_done:
  assumes "generate_docker_compose H dump c D True F = (Inr p, G)" "docker_is_two_network (dc_docker c)"
    and "named_services c" "distinct (service_names c)"
  shows "p = sib D ''docker-compose.yaml'' \<and>
    (\<exists>doc K. compose_document H c D F = (Inr doc, K) \<and> node_at G p = Some (TextFile (fst (dump doc)))) \<and>
    (\<forall>i < length (service_names c). served H c D F G i)"
proof -
  from assms(1) obtain doc K where doc: "compose_document H c D F = (Inr doc, K)"
    and out: "dump_file (sib D ''docker-compose.yaml'') (dump doc) K = (Inr (), G)"
    and p: "p = sib D ''docker-compose.yaml''"
    by (auto simp: generate_docker_compose_def DOCKER_CONFIG_FILE_def file_paths Let_def bindA_Inr_conv pureA_conv
        split: if_splits)
  from doc assms(2) obtain S K1 where S: "generate_two_network_compose H c D F = (Inr S, K)"
    by (auto simp: compose_document_def bindA_Inr_conv pureA_conv)
  have "guarantees (stays (script_path D m)) (dump_file (sib D ''docker-compose.yaml'') (dump doc))" for m
    unfolding dump_file_def by (intro staying.sequence staying.pure stays_write) (simp add: sib_def)
  then have "served H c D F G i" if "i < length (service_names c)" for i
    using two_network_scripts [OF assms(3,4) S that] served_stays out by blast
  moreover have "node_at G p = Some (TextFile (fst (dump doc)))"
    using out p by (auto simp: dump_file_def bindA_Inr_conv pureA_conv split: option.splits dest: write_text_Inr_iff)
  ultimately show ?thesis using p doc by blast
qed

end
