(* ===== verification/Provision.thy ===== *)
theory Provision
  imports Progress ComposeScripts
begin

text \<open>
  When the devnet files can be generated: the two halves of \<open>tempo/devnet/supervisor.py\<close> return for every
  configuration that satisfies a condition on its values, and then leave the complete devnet.
\<close>

definition devnet_files :: "string list" where
  "devnet_files = [''genesis.json'', ''run.sh'', ''reth.toml'', ''.secret'', ''supervisord.ini'', ''docker-run.sh'',
     ''docker-compose.yaml'', ''enode.key'', ''enode.identity'']"

lemma path_of_entry [simp]:
  "path_name (sib D x) = x" "path_parent (sib D x) = D" "snd (sib D x) \<noteq> []"
  by (simp_all add: path_name_def path_parent_def sib_def)

lemma delivers_entry:
  "x \<in> set W \<Longrightarrow> delivers (writable W D ms ns) (write_text (sib D x) s) (\<lambda>_. writable W D ms ns)"
  "x \<in> set W \<Longrightarrow> m \<in> set ms \<Longrightarrow>
     delivers (writable W D ms ns) (write_text (sib (sib D m) x) s) (\<lambda>_. writable W D ms ns)"
  by (rule delivers_write; simp)+

lemma delivers_dump:
  assumes "delivers P (write_text p (fst d)) (\<lambda>_. Q)" "snd d = None"
  shows "delivers P (dump_file p d) (\<lambda>_. Q)"
  unfolding dump_file_def using assms by (intro delivers_bind delivers_value) simp_all

text \<open>A file of the devnet that is there can be read.\<close>

lemma writable_read:
  assumes "writable W D ms ns F" "path_name p \<in> set W" "snd p \<noteq> []" "path_exists F p"
  shows "\<exists>s. read_text F p = Inr s"
  using assms writable_no_folder [OF assms(1,2)]
  by (auto simp: path_exists_def read_text_def split: fnode.splits option.splits)

section \<open>The supervisor configuration\<close>

definition node_launchable :: "host \<Rightarrow> devnet_config \<Rightarrow> validator_config \<Rightarrow> bool" where
  "node_launchable H c v \<longleftrightarrow>
     is_text (dc_tempo_bin c) \<and> is_text (vc_rpc_host v) \<and> py_int (vc_base_port v) \<noteq> None \<and>
     (dc_patch_reth c = [] \<or> snd (toml_dump H (dc_patch_reth c)) = None)"

definition genesis_patchable :: "host \<Rightarrow> devnet_config \<Rightarrow> path \<Rightarrow> fs \<Rightarrow> bool" where
  "genesis_patchable H c D F \<longleftrightarrow>
     dc_patch_genesis c = [] \<or>
     (case node_at F (sib D ''genesis.json'') of
        Some (TextFile s) \<Rightarrow>
          (case json_merge H s (dc_patch_genesis c) of
             Inr v \<Rightarrow> snd (json_dump H v) = None | Inl _ \<Rightarrow> False)
      | _ \<Rightarrow> True)"

definition launchable :: "host \<Rightarrow> devnet_config \<Rightarrow> path \<Rightarrow> fs \<Rightarrow> bool" where
  "launchable H c D F \<longleftrightarrow>
     genesis_patchable H c D F \<and> \<not> isl (get_backend c) \<and> distinct (map node_name (nodes_of_config c)) \<and>
     list_all (node_launchable H c) (dc_validators c)"

text \<open>The directories of the nodes are there.\<close>

abbreviation node_dirs :: "devnet_config \<Rightarrow> path \<Rightarrow> fs \<Rightarrow> bool" where
  "node_dirs c D \<equiv> writable devnet_files D (map node_name (nodes_of_config c)) []"

lemma delivers_genesis_patch:
  "delivers (\<lambda>F. writable devnet_files D ms ns F \<and> genesis_patchable H c D F)
     (apply_genesis_patch H D (dc_patch_genesis c)) (\<lambda>_. writable devnet_files D ms ns)"
proof (rule deliversI)
  fix F assume F: "writable devnet_files D ms ns F \<and> genesis_patchable H c D F"
  let ?g = "sib D ''genesis.json''"
  show "\<exists>a G. apply_genesis_patch H D (dc_patch_genesis c) F = (Inr a, G) \<and> writable devnet_files D ms ns G"
  proof (cases "dc_patch_genesis c = [] \<or> \<not> path_exists F ?g")
    case True
    then show ?thesis using F by (simp add: apply_genesis_patch_def file_paths Let_def)
  next
    case False
    with F obtain s where s: "read_text F ?g = Inr s"
      using writable_read [of devnet_files D ms ns F ?g] by (auto simp: devnet_files_def)
    then have "node_at F ?g = Some (TextFile s)" by (auto simp: read_text_def split: option.splits fnode.splits)
    then obtain v where v: "json_merge H s (dc_patch_genesis c) = Inr v" "snd (json_dump H v) = None"
      using F False by (auto simp: genesis_patchable_def split: sum.splits)
    have "delivers (writable devnet_files D ms ns) (dump_file ?g (json_dump H v)) (\<lambda>_. writable devnet_files D ms ns)"
      by (intro delivers_dump delivers_entry v(2)) (simp add: devnet_files_def)
    then obtain u G where "dump_file ?g (json_dump H v) F = (Inr u, G)" "writable devnet_files D ms ns G"
      using F by (auto elim: deliversE)
    then show ?thesis using False s v
      by (auto simp: apply_genesis_patch_def file_paths Let_def bindA_def readA_def)
  qed
qed

definition node_names :: "devnet_config \<Rightarrow> string list" where
  "node_names c = map (\<lambda>v. py_str (vc_moniker v)) (dc_validators c)"

lemma node_names_eq: "map node_name (nodes_of_config c) = node_names c"
proof -
  have "map node_name (nodes_of_config c) = map (\<lambda>v. py_str (vc_moniker v)) (map snd (nodes_of_config c))" by simp
  also have "map snd (nodes_of_config c) = dc_validators c" by (simp add: nodes_of_config_def)
  finally show ?thesis by (simp only: node_names_def)
qed

lemma named_dir:
  assumes "list_all named_node (nodes_of_config c)" "v \<in> set (dc_validators c)"
  obtains m where "vc_moniker v = PStr m" "plain_name m" "m \<in> set (node_names c)"
    "path_join D (dir_name v) = Inr (sib D m)"
proof -
  from named_validators [OF assms] obtain m where m: "vc_moniker v = PStr m" "plain_name m" by blast
  moreover have "m \<in> set (node_names c)" using assms(2) m(1) by (force simp: node_names_def)
  ultimately show ?thesis using that by (simp add: dir_name_def path_join_def path_add_plain)
qed

lemma devnet_file:
  "''genesis.json'' \<in> set devnet_files" "''run.sh'' \<in> set devnet_files" "''reth.toml'' \<in> set devnet_files"
  "''.secret'' \<in> set devnet_files" "''supervisord.ini'' \<in> set devnet_files" "''docker-run.sh'' \<in> set devnet_files"
  "''docker-compose.yaml'' \<in> set devnet_files" "''enode.key'' \<in> set devnet_files"
  "''enode.identity'' \<in> set devnet_files"
  by (simp_all add: devnet_files_def)

lemma delivers_copy_genesis:
  assumes "list_all named_node (nodes_of_config c)"
  shows "delivers (writable devnet_files D (node_names c) ns) (copy_genesis c D)
    (\<lambda>_. writable devnet_files D (node_names c) ns)"
proof -
  let ?I = "writable devnet_files D (node_names c) ns"
  let ?g = "sib D ''genesis.json''"
  let ?f = "\<lambda>v. bindA (pureA (path_join D (dir_name v))) (\<lambda>val_dir.
      bindA (readA (\<lambda>F. read_text F ?g)) (\<lambda>s. write_text (path_add val_dir ''genesis.json'') s))"
  let ?J = "\<lambda>F. ?I F \<and> path_exists F ?g"
  have "delivers ?J (?f v) (\<lambda>_. ?J)" if v: "v \<in> set (dc_validators c)" for v
  proof -
    obtain m where m: "m \<in> set (node_names c)" "path_join D (dir_name v) = Inr (sib D m)"
      using named_dir [OF assms v] by metis
    have "delivers ?J (write_text (sib (sib D m) ''genesis.json'') s) (\<lambda>_. ?J)" for s
    proof (rule deliversI)
      fix F assume F: "?J F"
      from deliversE [OF delivers_entry(2) [OF devnet_file(1) m(1)]] F obtain u G where
        w: "write_text (sib (sib D m) ''genesis.json'') s F = (Inr u, G)" "?I G" by (metis (lifting))
      moreover have "path_exists G ?g"
        using F w(1) by (auto simp: path_exists_def write_text_Inr)
      ultimately show "\<exists>a G. write_text (sib (sib D m) ''genesis.json'') s F = (Inr a, G) \<and> ?J G" by blast
    qed
    moreover have "delivers ?J (readA (\<lambda>F. read_text F ?g)) (\<lambda>_. ?J)"
      by (rule delivers_read) (metis writable_read devnet_file(1) path_of_entry(1,3))
    ultimately show ?thesis
      by (simp add: m(2) file_paths delivers_bind)
  qed
  then have "delivers ?J (forA (dc_validators c) ?f) (\<lambda>_. ?J)" by (rule delivers_forA)
  then have "delivers ?I (\<lambda>F. if path_exists F ?g then forA (dc_validators c) ?f F else (Inr (), F)) (\<lambda>_. ?I)"
    by (intro delivers_look delivers_nothing) (auto elim: delivers_weaken)
  then show ?thesis by (simp only: copy_genesis_def [abs_def] file_paths Let_def)
qed

lemma mapE_Inr: "(\<And>x. x \<in> set xs \<Longrightarrow> \<exists>y. f x = Inr y) \<Longrightarrow> \<exists>ys. mapE f xs = Inr ys"
proof (induction xs)
  case (Cons x xs)
  then obtain y ys where "f x = Inr y" "mapE f xs = Inr ys" by (metis list.set_intros)
  then show ?case by simp
qed simp

lemma port_of_Inr: "py_int b \<noteq> None \<Longrightarrow> \<exists>n. port_of f b = Inr n"
  by (auto simp: port_of_def)

lemma trusted_peers_Inr:
  assumes "list_all named_node (nodes_of_config c)" "writable devnet_files D (node_names c) ns F"
    and "\<And>v. v \<in> set (dc_validators c) \<Longrightarrow> py_int (vc_base_port v) \<noteq> None"
  shows "\<exists>peers. trusted_peers c D F = Inr peers"
proof -
  have "\<exists>p. trusted_peer F D v = Inr p" if v: "v \<in> set (dc_validators c)" for v
  proof -
    obtain m where "path_join D (dir_name v) = Inr (sib D m)" using named_dir [OF assms(1) v] by metis
    moreover obtain n where "port_of execution_p2p_port (vc_base_port v) = Inr n"
      using port_of_Inr assms(3) v by blast
    moreover have "\<exists>s. read_text F (sib (sib D m) ''enode.identity'') = Inr s"
      if "path_exists F (sib (sib D m) ''enode.identity'')" for m
      using writable_read [OF assms(2) _ _ that] by (simp add: devnet_file)
    ultimately show ?thesis by (fastforce simp: trusted_peer_def file_paths Let_def)
  qed
  then show ?thesis unfolding trusted_peers_def using mapE_Inr [of "dc_validators c" "trusted_peer F D"] by auto
qed

text \<open>The arguments of a launchable node are there and are texts, so that its script can be written.\<close>

lemma validator_args_Inr:
  assumes "node_launchable H c v"
  shows "\<exists>args s. validator_args b c v index peers = Inr args \<and> run_script_content args [] False = Inr s"
proof -
  obtain n where n: "py_int (vc_base_port v) = Some n" using assms by (auto simp: node_launchable_def)
  have "\<exists>args. validator_args b c v index peers = Inr args \<and> args \<noteq> [] \<and> list_all is_text args"
    using assms by (cases b) (simp_all add: validator_args_def build_common_node_args_def allegro_node_args_def
        tempo_node_params_def node_launchable_def port_of_def n Let_def is_text_def int_arg_def list_all_iff)
  then obtain args where a: "validator_args b c v index peers = Inr args" "args \<noteq> [] \<and> list_all is_text args" by blast
  moreover obtain s where "run_script_content args [] False = Inr s"
    using a(2) run_script_isl [of args "[]" False] by (cases "run_script_content args [] False") auto
  ultimately show ?thesis by blast
qed

text \<open>A sequence that keeps the directories writable.\<close>

lemma delivers_then:
  "delivers P m (\<lambda>_. R) \<Longrightarrow> (\<And>a. delivers R (f a) Q) \<Longrightarrow> delivers P (bindA m f) Q"
  by (rule delivers_bind)

lemma delivers_write_programs:
  assumes "list_all named_node vs" "list_all (node_launchable H c \<circ> snd) vs" "set (map node_name vs) \<subseteq> set ms"
    and "distinct (map node_name vs)" "\<forall>e \<in> set vs. ''program:'' @ node_name e \<notin> set (map fst i)"
  shows "delivers (writable devnet_files D ms ns) (write_programs H b c D peers vs i)
    (\<lambda>_. writable devnet_files D ms ns)"
  using assms
proof (induction vs arbitrary: i)
  case Nil
  then show ?case by (simp add: delivers_pure)
next
  case (Cons e vs)
  let ?I = "writable devnet_files D ms ns"
  obtain index v where e: "e = (index, v)" by (cases e)
  with Cons.prems(1) obtain m where m: "vc_moniker v = PStr m" "plain_name m"
    by (auto simp: named_node_def split: pyval.splits)
  let ?i = "i @ [(''program:'' @ m, [])]"
  have ms: "m \<in> set ms" using Cons.prems(3) by (simp add: e m)
  have launch: "node_launchable H c v" using Cons.prems(2) by (simp add: e)
  obtain args s where args: "validator_args b c v index peers = Inr args" and s: "run_script_content args [] False = Inr s"
    using validator_args_Inr [OF launch] by blast
  have secret: "delivers ?I (node_args b c v index (sib D m) ''./genesis.json'' ''.'' peers (dc_patch_node_flags c))
      (\<lambda>a F. ?I F \<and> a = args)"
    using args delivers_entry(2) [OF devnet_file(4) ms, of D]
    by (cases b) (auto simp: validator_args_def write_secret_file_def file_paths
        intro!: delivers_pure delivers_bind)
  have script: "delivers ?I (write_run_script (sib D m) args) (\<lambda>_. ?I)"
    unfolding write_run_script_def file_paths s bindA_pure
    by (rule delivers_then [OF delivers_entry(2) [OF devnet_file(2) ms]]) (simp add: delivers_pure)
  have reth: "delivers ?I (write_reth_config H (sib D m) (dc_patch_reth c)) (\<lambda>_. ?I)"
    using launch delivers_entry(2) [OF devnet_file(3) ms, of D]
    by (auto simp: write_reth_config_def file_paths node_launchable_def intro!: delivers_pure delivers_dump)
  have rest: "delivers ?I (write_programs H b c D peers vs
      (set_section ?i (''program:'' @ m) (program_section (sib D m)))) (\<lambda>_. ?I)"
  proof (rule Cons.IH)
    show "\<forall>e \<in> set vs. ''program:'' @ node_name e \<notin>
        set (map fst (set_section ?i (''program:'' @ m) (program_section (sib D m))))"
      using Cons.prems(4,5) by (force simp: e m set_section_def)
  qed (use Cons.prems in simp_all)
  have new: "add_section i (''program:'' @ m) = Inr ?i" using Cons.prems(5) by (auto simp: e m add_section_def)
  have tail: "delivers (\<lambda>F. ?I F \<and> a = args) (bindA (write_run_script (sib D m) a) (\<lambda>_.
      bindA (write_reth_config H (sib D m) (dc_patch_reth c)) (\<lambda>_.
        write_programs H b c D peers vs (set_section ?i (''program:'' @ m) (program_section (sib D m)))))) (\<lambda>_. ?I)" for a
    by (rule delivers_assume) (use script reth rest in \<open>auto intro!: delivers_bind\<close>)
  show ?case
    using delivers_bind [OF secret tail] m new
    by (simp add: e path_join_def dir_name_def path_add_plain Let_def)
qed

lemma nodes_of_config_launchable:
  "list_all (node_launchable H c) (dc_validators c) \<Longrightarrow> list_all (node_launchable H c \<circ> snd) (nodes_of_config c)"
  by (auto simp: list_all_iff nodes_of_config_def dest: set_zip_rightD)

lemma daemon_section_names: "''program:'' @ s \<notin> set (map fst (daemon_sections D))"
  by (simp add: daemon_sections_def Let_def)

lemma delivers_supervisor:
  assumes "list_all named_node (nodes_of_config c)"
  shows "delivers (\<lambda>F. writable devnet_files D (node_names c) ns F \<and> launchable H c D F)
    (generate_supervisor_config H c D True) (\<lambda>_. writable devnet_files D (node_names c) ns)"
proof (rule deliversI)
  fix F assume F: "writable devnet_files D (node_names c) ns F \<and> launchable H c D F"
  let ?I = "writable devnet_files D (node_names c) ns"
  obtain b where b: "get_backend c = Inr b" using F by (cases "get_backend c") (auto simp: launchable_def)
  have nodes: "list_all (node_launchable H c) (dc_validators c)" and new: "distinct (map node_name (nodes_of_config c))"
    using F by (simp_all add: launchable_def)
  have peers: "delivers ?I (readA (trusted_peers c D)) (\<lambda>_. ?I)"
  proof (rule delivers_read)
    fix G assume "?I G"
    moreover from this have "\<exists>p. trusted_peers c D G = Inr p"
      using nodes by (intro trusted_peers_Inr [OF assms]) (auto simp: list_all_iff node_launchable_def)
    ultimately show "\<exists>p. trusted_peers c D G = Inr p \<and> ?I G" by blast
  qed
  have "delivers ?I (write_programs H b c D p (nodes_of_config c) (daemon_sections D)) (\<lambda>_. ?I)" for p
    by (rule delivers_write_programs [OF assms nodes_of_config_launchable [OF nodes] _ new])
      (use daemon_section_names node_names_eq [of c] in \<open>auto simp del: set_map\<close>)
  then have "delivers ?I (bindA (readA (trusted_peers c D)) (\<lambda>peers.
      bindA (write_programs H b c D peers (nodes_of_config c) (daemon_sections D)) (\<lambda>i.
      bindA (write_text (sib D ''supervisord.ini'') (ini_text i)) (\<lambda>_. pureA (Inr (sib D ''supervisord.ini'')))))) (\<lambda>_. ?I)"
    by (intro delivers_then [OF peers] delivers_then [OF _ delivers_then [OF delivers_entry(1) [OF devnet_file(5)]]])
      (auto intro: delivers_pure)
  then have "delivers ?I (bindA (copy_genesis c D) (\<lambda>_. bindA (readA (trusted_peers c D)) (\<lambda>peers.
      bindA (write_programs H b c D peers (nodes_of_config c) (daemon_sections D)) (\<lambda>i.
      bindA (write_text (sib D ''supervisord.ini'') (ini_text i)) (\<lambda>_. pureA (Inr (sib D ''supervisord.ini''))))))) (\<lambda>_. ?I)"
    by (intro delivers_bind [OF delivers_copy_genesis [OF assms]])
  from delivers_bind [OF delivers_genesis_patch this]
  have "delivers (\<lambda>F. ?I F \<and> genesis_patchable H c D F) (generate_supervisor_config H c D True) (\<lambda>_. ?I)"
    by (simp add: generate_supervisor_config_def file_paths SUPERVISOR_CONFIG_FILE_def nodes_of_config_def b Let_def)
  then show "\<exists>a G. generate_supervisor_config H c D True F = (Inr a, G) \<and> ?I G"
    using F by (auto simp: delivers_def launchable_def simp del: split_paired_All split_paired_Ex)
qed

text \<open>The conditions are needed: a run that returns meets them.\<close>

lemma validator_args_launchable:
  assumes "validator_args b c v index peers = Inr args" "run_script_content args [] False = Inr s"
  shows "is_text (dc_tempo_bin c) \<and> is_text (vc_rpc_host v) \<and> py_int (vc_base_port v) \<noteq> None"
proof -
  have "list_all is_text args" using assms(2) run_script_isl [of args "[]" False] by auto
  then show ?thesis
    using assms(1) by (cases b; cases "py_int (vc_base_port v)")
      (auto simp: validator_args_def build_common_node_args_def allegro_node_args_def tempo_node_params_def
        port_of_def Let_def)
qed

lemma dump_file_Inr: "dump_file p d F = (Inr u, G) \<Longrightarrow> snd d = None"
  by (auto simp: dump_file_def bindA_Inr_conv pureA_conv split: option.splits)

lemma write_programs_launchable:
  assumes "write_programs H b c D peers vs i F = (Inr j, G)" "list_all named_node vs"
  shows "list_all (node_launchable H c \<circ> snd) vs"
  using assms
proof (induction vs arbitrary: i F)
  case (Cons e vs)
  obtain index v where e: "e = (index, v)" by (cases e)
  with Cons.prems obtain m where m: "vc_moniker v = PStr m" "plain_name m"
    by (auto simp: named_node_def split: pyval.splits)
  from Cons.prems(1) obtain args F1 p F2 F3 k where
    step: "node_args b c v index (sib D m) ''./genesis.json'' ''.'' peers (dc_patch_node_flags c) F = (Inr args, F1)"
      "write_run_script (sib D m) args F1 = (Inr p, F2)"
      "write_reth_config H (sib D m) (dc_patch_reth c) F2 = (Inr (), F3)"
    and rest: "write_programs H b c D peers vs k F3 = (Inr j, G)"
    by (auto simp: e m path_join_def dir_name_def path_add_plain Let_def bindA_Inr_conv pureA_conv)
  from program_step(1,3) [OF step] obtain s where
    "validator_args b c v index peers = Inr args" "run_script_content args [] False = Inr s" by blast
  from validator_args_launchable [OF this] have "node_launchable H c v"
    using step(3) by (auto simp: node_launchable_def write_reth_config_def dest: dump_file_Inr split: if_splits)
  then show ?case using Cons.IH [OF rest] Cons.prems(2) by (simp add: e)
qed simp

lemma apply_genesis_patchable:
  "apply_genesis_patch H D (dc_patch_genesis c) F = (Inr u, G) \<Longrightarrow> genesis_patchable H c D F"
  by (auto simp: apply_genesis_patch_def genesis_patchable_def file_paths Let_def bindA_Inr_conv readA_conv
      pureA_conv path_exists_def read_text_def dest: dump_file_Inr split: if_splits option.splits fnode.splits)

lemma supervisor_config_launchable:
  assumes "generate_supervisor_config H c D True F = (Inr p, G)" "list_all named_node (nodes_of_config c)"
  shows "launchable H c D F"
proof -
  from assms(1) obtain F1 F2 F3 b peers i where
    patch: "apply_genesis_patch H D (dc_patch_genesis c) F = (Inr (), F1)"
    and b: "get_backend c = Inr b"
    and progs: "write_programs H b c D peers (nodes_of_config c) (daemon_sections D) F2 = (Inr i, F3)"
    by (auto simp: generate_supervisor_config_def SUPERVISOR_CONFIG_FILE_def file_paths Let_def
        nodes_of_config_def bindA_Inr_conv pureA_conv readA_conv)
  have "list_all (node_launchable H c) (map snd (nodes_of_config c))"
    using write_programs_launchable [OF progs assms(2)] by (simp add: list.pred_map)
  then have "list_all (node_launchable H c) (dc_validators c)" by (simp add: nodes_of_config_def)
  then show ?thesis
    using apply_genesis_patchable [OF patch] b supervisor_config_done [OF assms] by (simp add: launchable_def)
qed

text \<open>The complete devnet: the program list and, per node, the script of its backend's arguments.\<close>

definition devnet_complete :: "devnet_config \<Rightarrow> path \<Rightarrow> fs \<Rightarrow> fs \<Rightarrow> bool" where
  "devnet_complete c D F G \<longleftrightarrow>
     (\<exists>b peers. get_backend c = Inr b \<and> trusted_peers c D F = Inr peers \<and>
        node_at G (sib D ''supervisord.ini'') = Some (TextFile (ini_text (daemon_sections D @
          map (\<lambda>e. (''program:'' @ node_name e, program_section (sib D (node_name e)))) (nodes_of_config c)))) \<and>
        list_all (node_written b c D peers G) (nodes_of_config c))"

lemma supervisor_total:
  assumes "writable devnet_files D (node_names c) ns F" "list_all named_node (nodes_of_config c)" "launchable H c D F"
  shows "\<exists>G. generate_supervisor_config H c D True F = (Inr (sib D ''supervisord.ini''), G) \<and>
    devnet_complete c D F G \<and> writable devnet_files D (node_names c) ns G"
proof -
  from delivers_supervisor [OF assms(2)] assms(1,3) obtain p G where
    run: "generate_supervisor_config H c D True F = (Inr p, G)" and G: "writable devnet_files D (node_names c) ns G"
    by (metis (lifting) deliversE)
  from supervisor_config_done [OF run assms(2)] have "p = sib D ''supervisord.ini''" "devnet_complete c D F G"
    by (auto simp: devnet_complete_def)
  with run G show ?thesis by blast
qed

text \<open>
  C31. \<open>generate_supervisor_config\<close> returns exactly when it should. Where the node directories exist and
  nothing stands in the way of the files, it returns for the configurations with a known backend,
  validators of distinct names, texts for the binary and the RPC hosts, integer base ports, and patches
  that can be merged and written, and for every other it raises. When it returns the devnet is complete:
  \<open>supervisord.ini\<close> has one program per validator, in order, each running the \<open>run.sh\<close> of its node
  directory, and every \<open>run.sh\<close> is the wrapper script of exactly the arguments the backend gives for that
  validator, with the trusted peers read from the enode files that were there before.
\<close>

theorem supervisor_config_returns:
  assumes "writable devnet_files D (node_names c) [] F" "list_all named_node (nodes_of_config c)"
  shows "if launchable H c D F
    then \<exists>G. generate_supervisor_config H c D True F = (Inr (sib D ''supervisord.ini''), G) \<and> devnet_complete c D F G
    else isl (fst (generate_supervisor_config H c D True F))"
proof (cases "launchable H c D F")
  case True
  with supervisor_total [OF assms] show ?thesis by auto
next
  case False
  then show ?thesis
    using supervisor_config_launchable [OF _ assms(2)]
    by (cases "generate_supervisor_config H c D True F"; cases "fst (generate_supervisor_config H c D True F)") auto
qed

lemma demo_net_launchable:
  "case config_init demo_net of
     Inl e \<Rightarrow> False
   | Inr c \<Rightarrow> list_all named_node (nodes_of_config c) \<and> launchable demo_host c demo_root demo_net_fs \<and>
       writable devnet_files demo_root (node_names c) [] demo_net_fs"
  by code_simp

theorem supervisor_config_returns_witness:
  "\<exists>c G. config_init demo_net = Inr c \<and>
     generate_supervisor_config demo_host c demo_root True demo_net_fs = (Inr (sib demo_root ''supervisord.ini''), G) \<and>
     devnet_complete c demo_root demo_net_fs G"
proof -
  from demo_net_launchable obtain c where c: "config_init demo_net = Inr c"
      "list_all named_node (nodes_of_config c)" "launchable demo_host c demo_root demo_net_fs"
      "writable devnet_files demo_root (node_names c) [] demo_net_fs" by (auto split: sum.splits)
  with supervisor_config_returns [OF c(4,2), of demo_host] show ?thesis by auto
qed

end
