(* ===== verification/ComposeReturns.thy ===== *)
theory ComposeReturns
  imports Provision
begin

text \<open>
  When the compose file can be generated: \<open>generate_docker_compose\<close> returns exactly for the configurations
  that satisfy a condition on their addresses, ports and names, and the complete Docker devnet is then there.
\<close>

section \<open>One service directory\<close>

definition runnable :: "pyval list \<Rightarrow> bool" where
  "runnable args \<longleftrightarrow> args \<noteq> [] \<and> list_all is_text args"

lemma runnable_script: "runnable args \<longleftrightarrow> (\<exists>s. run_script_content args tag set_eu = Inr s)"
  using run_script_isl [of args tag set_eu]
  by (cases "run_script_content args tag set_eu") (auto simp: runnable_def)

lemma delivers_docker_script:
  assumes "m \<in> set ms"
  shows "delivers (\<lambda>F. writable devnet_files D ms ns F \<and> runnable args) (write_docker_run_script (sib D m) args)
    (\<lambda>_. writable devnet_files D ms ns)"
proof (rule delivers_assume)
  assume "runnable args"
  then obtain s where "run_script_content args ''docker'' True = Inr s" using runnable_script [of args "''docker''" True] by blast
  then show "delivers (writable devnet_files D ms ns) (write_docker_run_script (sib D m) args)
    (\<lambda>_. writable devnet_files D ms ns)"
    unfolding write_docker_run_script_def file_paths
    by (simp, intro delivers_then [OF delivers_entry(2) [OF devnet_file(6) assms]] delivers_pure)
qed

lemma delivers_identity:
  assumes "m \<in> set ms"
  shows "delivers (writable devnet_files D ms ns) (ensure_enode_identity H (sib D m)) (\<lambda>_. writable devnet_files D ms ns)"
proof (rule deliversI)
  fix F assume F: "writable devnet_files D ms ns F"
  have "writable devnet_files D ms ns (snd (write_text (sib (sib D m) ''enode.identity'') s F))" for s
    using deliversE [OF delivers_entry(2) [OF devnet_file(9) assms] F] by (metis snd_conv)
  then show "\<exists>a G. ensure_enode_identity H (sib D m) F = (Inr a, G) \<and> writable devnet_files D ms ns G"
    using F by (auto simp: ensure_enode_identity_def file_paths split: sum.splits prod.splits option.splits)
qed

lemma delivers_keypair:
  assumes "m \<in> set ms"
  shows "delivers (writable devnet_files D ms ns) (ensure_enode_keypair H (sib D m)) (\<lambda>_. writable devnet_files D ms ns)"
proof -
  let ?I = "writable devnet_files D ms ns"
  have "delivers ?I (\<lambda>F. if \<not> path_exists F (sib (sib D m) ''enode.key'')
      then write_text (sib (sib D m) ''enode.key'') (bytes_hex (fresh_key H (sib (sib D m) ''enode.key''))) F
      else (Inr (), F)) (\<lambda>_. ?I)"
    by (rule delivers_look; rule delivers_weaken [OF delivers_entry(2) [OF devnet_file(8) assms]]
        delivers_nothing; blast)
  moreover have "delivers ?I (\<lambda>F. if \<not> path_exists F (sib (sib D m) ''enode.identity'')
      then ensure_enode_identity H (sib D m) F else (Inr (), F)) (\<lambda>_. ?I)"
    by (rule delivers_look; rule delivers_weaken [OF delivers_identity [OF assms]] delivers_nothing; blast)
  ultimately show ?thesis unfolding ensure_enode_keypair_def file_paths by (rule delivers_then)
qed

lemma delivers_genesis_copy:
  assumes "m \<in> set ms"
  shows "delivers (writable devnet_files D ms ns) (\<lambda>F. if path_exists F (sib D ''genesis.json'')
      then bindA (readA (\<lambda>F. read_text F (sib D ''genesis.json''))) (\<lambda>s.
             write_text (sib (sib D m) ''genesis.json'') s) F
      else (Inr (), F)) (\<lambda>_. writable devnet_files D ms ns)"
proof (rule delivers_look)
  let ?I = "writable devnet_files D ms ns"
  have "delivers (\<lambda>F. ?I F \<and> path_exists F (sib D ''genesis.json'')) (readA (\<lambda>F. read_text F (sib D ''genesis.json''))) (\<lambda>_. ?I)"
    by (rule delivers_read) (metis writable_read devnet_file(1) path_of_entry(1,3))
  then show "delivers (\<lambda>F. ?I F \<and> path_exists F (sib D ''genesis.json''))
      (bindA (readA (\<lambda>F. read_text F (sib D ''genesis.json''))) (\<lambda>s. write_text (sib (sib D m) ''genesis.json'') s))
      (\<lambda>_. ?I)"
    by (rule delivers_then) (rule delivers_entry(2) [OF devnet_file(1) assms])
qed (rule delivers_nothing, simp)

lemma delivers_periphery:
  assumes "k \<in> set ns" "plain_name k"
  shows "delivers (\<lambda>F. writable devnet_files D ms ns F \<and> runnable args) (prepare_periphery_dir D (PStr k) args)
    (\<lambda>_. writable devnet_files D (k # ms) ns)"
proof (rule delivers_assume)
  assume args: "runnable args"
  let ?J = "writable devnet_files D (k # ms) ns"
  have k: "k \<in> set (k # ms)" by simp
  have "delivers ?J (write_docker_run_script (sib D k) args) (\<lambda>_. ?J)"
    by (rule delivers_weaken [OF delivers_docker_script [OF k]]) (simp_all add: args)
  then have "delivers ?J (bindA (write_docker_run_script (sib D k) args) (\<lambda>_. pureA (Inr (sib D k)))) (\<lambda>_. ?J)"
    by (rule delivers_then) (simp add: delivers_pure)
  from delivers_then [OF delivers_make_dirs [OF assms(1)] delivers_then [OF delivers_genesis_copy [OF k] this]]
  show "delivers (writable devnet_files D ms ns) (prepare_periphery_dir D (PStr k) args) (\<lambda>_. ?J)"
    by (simp only: prepare_periphery_dir_def path_join_def path_add_plain [OF assms(2)] file_paths pyval.case
        bindA_pure cong: if_cong)
qed

text \<open>A service directory that was made on the way may be forgotten.\<close>

lemma delivers_forget:
  "delivers P m (\<lambda>_. writable W D (k # ms) ns) \<Longrightarrow> delivers P m (\<lambda>_. writable W D ms ns)"
  by (erule delivers_weaken) (auto intro: writable_forget)

lemma delivers_with_keys:
  assumes "k \<in> set ns" "plain_name k"
    and "delivers (writable devnet_files D ms ns) command (\<lambda>args F. writable devnet_files D ms ns F \<and> runnable args)"
  shows "delivers (writable devnet_files D ms ns) (prepare_with_keys H D (PStr k) command)
    (\<lambda>_. writable devnet_files D ms ns)"
proof -
  let ?I = "writable devnet_files D ms ns"
  have k: "k \<in> set (k # ms)" by simp
  have "delivers (\<lambda>F. ?I F \<and> runnable args) (bindA (prepare_periphery_dir D (PStr k) args) (\<lambda>_.
      ensure_enode_keypair H (sib D k))) (\<lambda>_. ?I)" for args
    by (rule delivers_forget [OF delivers_then [OF delivers_periphery [OF assms(1,2)] delivers_keypair [OF k]]])
  from delivers_bind [OF assms(3) this] show ?thesis
    using assms(2) by (simp add: prepare_with_keys_def path_join_def path_add_plain)
qed

section \<open>The commands\<close>

definition named_aux :: "aux_node \<Rightarrow> bool" where
  "named_aux x \<longleftrightarrow> (case an_moniker x of PStr m \<Rightarrow> plain_name m | _ \<Rightarrow> False)"

abbreviation aux_name :: "aux_node \<Rightarrow> string" where
  "aux_name x \<equiv> py_str (an_moniker x)"

lemma named_auxE:
  assumes "named_aux x"
  obtains k where "an_moniker x = PStr k" "plain_name k" "aux_name x = k"
proof -
  from assms obtain k where "an_moniker x = PStr k" "plain_name k"
    by (auto simp: named_aux_def split: pyval.splits)
  then show ?thesis using that [of k] by simp
qed

lemma docker_trusted_peers_Inr:
  assumes "list_all named_node (nodes_of_config c)" "writable devnet_files D (node_names c) ns F"
  shows "\<exists>peers. docker_trusted_peers c D m F = Inr peers"
proof -
  have "\<exists>p. docker_trusted_peer F D m v = Inr p" if v: "v \<in> set (dc_validators c)" for v
  proof -
    obtain k where "path_join D (dir_name v) = Inr (sib D k)" using named_dir [OF assms(1) v] by metis
    moreover have "\<exists>s. read_text F (sib (sib D k) ''enode.identity'') = Inr s"
      if "path_exists F (sib (sib D k) ''enode.identity'')" for k
      using writable_read [OF assms(2) _ _ that] by (simp add: devnet_file)
    ultimately show ?thesis by (fastforce simp: docker_trusted_peer_def file_paths Let_def)
  qed
  then show ?thesis
    unfolding docker_trusted_peers_def using mapE_Inr [of "dc_validators c" "docker_trusted_peer F D m"] by auto
qed

lemma delivers_service_peer:
  assumes "named_aux x" "aux_name x \<in> set ns"
  shows "delivers (writable devnet_files D ms ns) (service_trusted_peer H D x) (\<lambda>_. writable devnet_files D ms ns)"
proof -
  obtain k where k: "an_moniker x = PStr k" "plain_name k" "k \<in> set ns"
    using assms by (metis named_auxE)
  let ?J = "writable devnet_files D (k # ms) ns"
  have "delivers ?J (readA (\<lambda>F. let f = sib (sib D k) ''enode.identity'' in
      if \<not> path_exists F f then Inr []
      else bindE (read_text F f) (\<lambda>s. Inr [enode_url s k (execution_p2p_port DOCKER_CONSENSUS_P2P_PORT)]))) (\<lambda>_. ?J)"
  proof (rule delivers_read)
    fix F assume F: "?J F"
    then show "\<exists>a. (let f = sib (sib D k) ''enode.identity'' in
      if \<not> path_exists F f then Inr []
      else bindE (read_text F f) (\<lambda>s. Inr [enode_url s k (execution_p2p_port DOCKER_CONSENSUS_P2P_PORT)])) = Inr a \<and> ?J F"
      using writable_read [OF F, of "sib (sib D k) ''enode.identity''"]
      by (auto simp: Let_def devnet_file)
  qed
  moreover have "delivers ?J (ensure_enode_keypair H (sib D k)) (\<lambda>_. ?J)" by (rule delivers_keypair) simp
  ultimately have "delivers (writable devnet_files D ms ns) (bindA (make_dirs (sib D k)) (\<lambda>_.
      bindA (ensure_enode_keypair H (sib D k)) (\<lambda>_. readA (\<lambda>F. let f = sib (sib D k) ''enode.identity'' in
      if \<not> path_exists F f then Inr []
      else bindE (read_text F f) (\<lambda>s. Inr [enode_url s k (execution_p2p_port DOCKER_CONSENSUS_P2P_PORT)]))))) (\<lambda>_. ?J)"
    by (intro delivers_then [OF delivers_make_dirs [OF k(3)]] delivers_then)
  then
  have "delivers (writable devnet_files D ms ns) (service_trusted_peer H D x) (\<lambda>_. ?J)"
    by (simp add: service_trusted_peer_def path_join_def path_add_plain k(1,2) file_paths cong: if_cong)
  then show ?thesis by (rule delivers_forget)
qed

lemma delivers_service_peers:
  assumes "list_all named_aux xs" "aux_name ` set xs \<subseteq> set ns"
  shows "delivers (writable devnet_files D ms ns) (service_trusted_peers H xs D) (\<lambda>_. writable devnet_files D ms ns)"
proof -
  have "delivers (writable devnet_files D ms ns) (mapA (service_trusted_peer H D) xs) (\<lambda>_. writable devnet_files D ms ns)"
    using assms by (intro delivers_mapA delivers_service_peer) (auto simp: list_all_iff)
  then show ?thesis unfolding service_trusted_peers_def
    by (rule delivers_then) (rule delivers_pure)
qed

lemma follow_args_runnable: "is_text (dc_tempo_bin c) \<Longrightarrow> runnable (follow_args c url peers)"
  by (auto simp: runnable_def follow_args_def build_follow_node_args_def is_text_def list_all_iff split: option.splits)

lemma node_command_runnable:
  assumes "is_text (dc_tempo_bin c)" "list_all named_node (nodes_of_config c)"
    and "writable devnet_files D (node_names c) ns F"
  shows "\<exists>args. docker_node_command c v D F = Inr args \<and> runnable args"
    and "docker_ip (other_ip H) c (int i) = Inr ip \<Longrightarrow>
      \<exists>args. docker_node_two_network_command H c v D i F = Inr args \<and> runnable args"
proof -
  obtain peers where p: "docker_trusted_peers c D (vc_moniker v) F = Inr peers"
    using docker_trusted_peers_Inr [OF assms(2,3)] by blast
  have "\<exists>args. build_common_node_args (docker_node_params c a peers) = Inr args \<and> runnable args" for a
    using assms(1) by (simp add: build_common_node_args_def docker_node_params_def port_of_def py_int_def Let_def
        runnable_def is_text_def int_arg_def list_all_iff)
  then show "\<exists>args. docker_node_command c v D F = Inr args \<and> runnable args"
    and "docker_ip (other_ip H) c (int i) = Inr ip \<Longrightarrow>
      \<exists>args. docker_node_two_network_command H c v D i F = Inr args \<and> runnable args"
    by (simp_all add: docker_node_command_def docker_node_two_network_command_def p)
qed

section \<open>The services\<close>

lemma delivers_returns: "\<exists>a. r = Inr a \<Longrightarrow> delivers P (pureA r) (\<lambda>_. P)"
  by (auto simp: delivers_def pureA_def)

lemma put_key_Inr: "(\<exists>T. put_key S k v = Inr T) \<longleftrightarrow> hashable k"
  by (simp add: put_key_def)

lemma Inr_iff: "(\<exists>a. r = Inr a) \<longleftrightarrow> \<not> isl r"
  by (cases r) simp_all

lemma published_ports_Inr: "(\<exists>ps. published_ports b = Inr ps) \<longleftrightarrow> py_int b \<noteq> None"
  by (auto simp: published_ports_def port_of_def split: option.splits)

lemma dual_networks_Inr:
  "docker_validator_network_name (dc_docker c) = Inr vnet \<Longrightarrow> docker_public_network_name (dc_docker c) = Inr pnet \<Longrightarrow>
     hashable vnet \<Longrightarrow> hashable pnet \<Longrightarrow> \<exists>nets. dual_networks c a b = Inr nets"
  by (auto simp: dual_networks_def put_key_def)

text \<open>What each kind of service needs, at its position.\<close>

definition validator_ready :: "host \<Rightarrow> devnet_config \<Rightarrow> nat \<times> validator_config \<Rightarrow> bool" where
  "validator_ready H c = (\<lambda>(i, v). is_text (dc_tempo_bin c) \<and> py_int (vc_base_port v) \<noteq> None \<and>
     \<not> isl (docker_ip (other_ip H) c (int i)))"

definition both_addresses :: "host \<Rightarrow> devnet_config \<Rightarrow> nat \<Rightarrow> bool" where
  "both_addresses H c i \<longleftrightarrow> is_text (dc_tempo_bin c) \<and> \<not> isl (docker_ip (other_ip H) c 0) \<and>
     \<not> isl (docker_ip (other_ip H) c (int i)) \<and> \<not> isl (docker_public_ip (other_ip H) c (int i))"

definition follow_ready :: "host \<Rightarrow> devnet_config \<Rightarrow> nat \<times> aux_node \<Rightarrow> bool" where
  "follow_ready H c = (\<lambda>(i, x). both_addresses H c i \<and> py_int (an_port x) \<noteq> None)"

definition public_ready :: "host \<Rightarrow> devnet_config \<Rightarrow> nat \<times> aux_node \<Rightarrow> bool" where
  "public_ready H c = (\<lambda>(i, x). is_text (dc_tempo_bin c) \<and> py_int (an_port x) \<noteq> None \<and>
     \<not> isl (docker_public_ip (other_ip H) c (int i)) \<and> dt_follow_nodes (dc_docker c) \<noteq> [])"

text \<open>The names of the networks in use.\<close>

definition network_names_ok :: "devnet_config \<Rightarrow> bool" where
  "network_names_ok c \<longleftrightarrow>
     (case (docker_validator_network_name (dc_docker c), docker_public_network_name (dc_docker c)) of
        (Inr v, Inr p) \<Rightarrow> hashable v \<and> hashable p | _ \<Rightarrow> False)"

lemma network_namesE:
  assumes "network_names_ok c"
  obtains vnet pnet where "docker_validator_network_name (dc_docker c) = Inr vnet" "hashable vnet"
    "docker_public_network_name (dc_docker c) = Inr pnet" "hashable pnet"
  using assms that by (auto simp: network_names_ok_def split: sum.splits)

definition all_aux :: "devnet_config \<Rightarrow> aux_node list" where
  "all_aux c = dt_follow_nodes (dc_docker c) @ dt_p2p_proxies (dc_docker c) @ dt_public_nodes (dc_docker c)"

text \<open>The directories of the validators are there, the others may be made.\<close>

abbreviation service_dirs :: "devnet_config \<Rightarrow> path \<Rightarrow> fs \<Rightarrow> bool" where
  "service_dirs c D \<equiv> writable devnet_files D (node_names c) (map aux_name (all_aux c))"

definition well_named :: "devnet_config \<Rightarrow> bool" where
  "well_named c \<longleftrightarrow> list_all named_node (nodes_of_config c) \<and> list_all named_aux (all_aux c)"

lemma delivers_validator_script:
  assumes "m \<in> set (node_names c)"
    and "\<And>F. service_dirs c D F \<Longrightarrow> \<exists>args. command F = Inr args \<and> runnable args" "\<exists>T. r = Inr T"
  shows "delivers (service_dirs c D) (bindA (readA command) (\<lambda>args.
      bindA (write_docker_run_script (sib D m) args) (\<lambda>_. pureA r))) (\<lambda>_. service_dirs c D)"
proof (rule delivers_bind)
  show "delivers (service_dirs c D) (readA command) (\<lambda>args F. service_dirs c D F \<and> runnable args)"
    using assms(2) by (intro delivers_read) blast
next
  show "delivers (\<lambda>F. service_dirs c D F \<and> runnable args)
      (bindA (write_docker_run_script (sib D m) args) (\<lambda>_. pureA r)) (\<lambda>_. service_dirs c D)" for args
    by (rule delivers_then [OF delivers_docker_script [OF assms(1)] delivers_returns [OF assms(3)]])
qed

lemma delivers_add_validator:
  assumes "well_named c" "network_names_ok c" "validator_ready H c (i, v)" "v \<in> set (dc_validators c)"
  shows "delivers (service_dirs c D) (add_validator H c D (i, v) S) (\<lambda>_. service_dirs c D)"
proof -
  obtain m where m: "m \<in> set (node_names c)" "path_join D (dir_name v) = Inr (sib D m)" "vc_moniker v = PStr m"
    using named_dir [of c v D] assms(1,4) by (metis well_named_def)
  obtain vnet where net: "docker_validator_network_name (dc_docker c) = Inr vnet" "hashable vnet"
    using assms(2) by (rule network_namesE)
  obtain ports where ports: "published_ports (vc_base_port v) = Inr ports"
    using assms(3) published_ports_Inr [of "vc_base_port v"] by (auto simp: validator_ready_def)
  obtain ip where ip: "docker_ip (other_ip H) c (int i) = Inr ip"
    using assms(3) by (cases "docker_ip (other_ip H) c (int i)") (auto simp: validator_ready_def)
  show ?thesis
    unfolding add_validator_def prod.case m(2) bindA_pure
  proof (rule delivers_validator_script [OF m(1)])
    fix F assume "service_dirs c D F"
    then show "\<exists>args. docker_node_two_network_command H c v D i F = Inr args \<and> runnable args"
      using node_command_runnable(2) [OF _ _ _ ip] assms(1,3) by (simp add: validator_ready_def well_named_def)
  qed (simp add: ports ip net m(3) put_key_def)
qed

lemma delivers_add_single_validator:
  assumes "well_named c" "hashable (dt_network (dc_docker c))" "validator_ready H c (i, v)" "v \<in> set (dc_validators c)"
  shows "delivers (service_dirs c D) (add_single_validator H c D (i, v) S) (\<lambda>_. service_dirs c D)"
proof -
  obtain m where m: "m \<in> set (node_names c)" "path_join D (dir_name v) = Inr (sib D m)" "vc_moniker v = PStr m"
    using named_dir [of c v D] assms(1,4) by (metis well_named_def)
  obtain ports where ports: "published_ports (vc_base_port v) = Inr ports"
    using assms(3) published_ports_Inr [of "vc_base_port v"] by (auto simp: validator_ready_def)
  obtain ip where ip: "docker_ip (other_ip H) c (int i) = Inr ip"
    using assms(3) by (cases "docker_ip (other_ip H) c (int i)") (auto simp: validator_ready_def)
  show ?thesis
    unfolding add_single_validator_def prod.case m(2) bindA_pure
  proof (rule delivers_validator_script [OF m(1)])
    fix F assume "service_dirs c D F"
    then show "\<exists>args. docker_node_command c v D F = Inr args \<and> runnable args"
      using node_command_runnable(1) assms(1,3) by (simp add: validator_ready_def well_named_def)
  qed (simp add: ports ip assms(2) m(3) put_key_def)
qed

lemma delivers_aux_service:
  assumes "well_named c" "x \<in> set (all_aux c)" "\<exists>T. r = Inr T"
    and "delivers (service_dirs c D) command (\<lambda>args F. service_dirs c D F \<and> runnable args)"
  shows "delivers (service_dirs c D) (bindA (prepare_with_keys H D (an_moniker x) command) (\<lambda>_. pureA r))
    (\<lambda>_. service_dirs c D)"
proof -
  obtain k where k: "an_moniker x = PStr k" "plain_name k" "aux_name x = k"
    using assms(1,2) by (auto simp: well_named_def list_all_iff elim: named_auxE)
  then have "k \<in> set (map aux_name (all_aux c))" using assms(2) by force
  from delivers_then [OF delivers_with_keys [OF this k(2) assms(4)] delivers_returns [OF assms(3)]]
  show ?thesis by (simp only: k(1))
qed

lemma delivers_peers_of:
  assumes "well_named c" "set xs \<subseteq> set (all_aux c)"
  shows "delivers (service_dirs c D) (service_trusted_peers H xs D) (\<lambda>_. service_dirs c D)"
  using assms by (intro delivers_service_peers) (auto simp: well_named_def list_all_iff)

lemma delivers_follow_command:
  assumes "well_named c" "both_addresses H c i"
  shows "delivers (service_dirs c D) (docker_follow_node_command H c D) (\<lambda>args F. service_dirs c D F \<and> runnable args)"
proof -
  obtain ip where ip: "docker_ip (other_ip H) c 0 = Inr ip"
    using assms(2) by (cases "docker_ip (other_ip H) c 0") (auto simp: both_addresses_def)
  have peers: "delivers (service_dirs c D) (readA (docker_trusted_peers c D (PStr []))) (\<lambda>_. service_dirs c D)"
    using docker_trusted_peers_Inr assms(1) by (intro delivers_read) (auto simp: well_named_def)
  have "runnable (follow_args c url ps)" for url ps
    using assms(2) by (intro follow_args_runnable) (simp add: both_addresses_def)
  then show ?thesis
    unfolding docker_follow_node_command_def ip bindA_pure
    by (intro delivers_then [OF peers] delivers_then [OF delivers_peers_of [OF assms(1)]] delivers_pure)
      (auto simp: all_aux_def)
qed

lemma delivers_public_command:
  assumes "well_named c" "is_text (dc_tempo_bin c)"
  shows "delivers (service_dirs c D) (docker_public_node_command H c D) (\<lambda>args F. service_dirs c D F \<and> runnable args)"
  unfolding docker_public_node_command_def Let_def
  by (intro delivers_then [OF delivers_peers_of [OF assms(1)]] delivers_pure)
    (auto simp: all_aux_def follow_args_runnable assms(2))

lemma delivers_proxy_command:
  assumes "both_addresses H c i"
  shows "delivers (service_dirs c D) (pureA (docker_p2p_proxy_command H c)) (\<lambda>args F. service_dirs c D F \<and> runnable args)"
proof -
  obtain ip where ip: "docker_ip (other_ip H) c 0 = Inr ip"
    using assms by (cases "docker_ip (other_ip H) c 0") (auto simp: both_addresses_def)
  have "\<exists>args. docker_p2p_proxy_command H c = Inr args \<and> runnable args"
    using assms by (simp add: docker_p2p_proxy_command_def ip runnable_def is_text_def list_all_iff both_addresses_def)
  then show ?thesis by (auto intro: delivers_value)
qed

lemma both_addressesE:
  assumes "both_addresses H c i"
  obtains a b where "docker_ip (other_ip H) c (int i) = Inr a" "docker_public_ip (other_ip H) c (int i) = Inr b"
  using assms that by (cases "docker_ip (other_ip H) c (int i)"; cases "docker_public_ip (other_ip H) c (int i)")
    (auto simp: both_addresses_def)

lemma aux_join:
  assumes "well_named c" "x \<in> set (all_aux c)"
  obtains k where "an_moniker x = PStr k" "path_join D (PStr k) = Inr (sib D k)"
proof -
  have "named_aux x" using assms by (auto simp: well_named_def list_all_iff)
  then obtain k where "an_moniker x = PStr k" "plain_name k" by (rule named_auxE)
  then show ?thesis using that by (simp add: path_join_def path_add_plain)
qed

lemma delivers_add_follow_node:
  assumes "well_named c" "network_names_ok c" "follow_ready H c (i, x)" "x \<in> set (dt_follow_nodes (dc_docker c))"
  shows "delivers (service_dirs c D) (add_follow_node H c D (i, x) S) (\<lambda>_. service_dirs c D)"
proof -
  have x: "x \<in> set (all_aux c)" using assms(4) by (simp add: all_aux_def)
  have ok: "both_addresses H c i" "py_int (an_port x) \<noteq> None" using assms(3) by (simp_all add: follow_ready_def)
  obtain a b where ips: "docker_ip (other_ip H) c (int i) = Inr a" "docker_public_ip (other_ip H) c (int i) = Inr b"
    using ok(1) by (rule both_addressesE)
  obtain nets where nets: "dual_networks c a b = Inr nets"
    using assms(2) dual_networks_Inr by (metis network_namesE)
  obtain k where k: "an_moniker x = PStr k" "path_join D (PStr k) = Inr (sib D k)"
    using assms(1) x by (rule aux_join)
  obtain ports where ports: "published_ports (an_port x) = Inr ports" using ok(2) published_ports_Inr by blast
  show ?thesis
    unfolding add_follow_node_def prepare_follow_node_dir_def prod.case
    by (rule delivers_aux_service [OF assms(1) x _ delivers_follow_command [OF assms(1) ok(1)]])
      (simp add: ips k(2) ports nets k(1) put_key_def)
qed

lemma delivers_add_proxy:
  assumes "well_named c" "network_names_ok c" "both_addresses H c i" "x \<in> set (dt_p2p_proxies (dc_docker c))"
  shows "delivers (service_dirs c D) (add_proxy H c D (i, x) S) (\<lambda>_. service_dirs c D)"
proof -
  have x: "x \<in> set (all_aux c)" using assms(4) by (simp add: all_aux_def)
  obtain a b where ips: "docker_ip (other_ip H) c (int i) = Inr a" "docker_public_ip (other_ip H) c (int i) = Inr b"
    using assms(3) by (rule both_addressesE)
  obtain nets where nets: "dual_networks c a b = Inr nets"
    using assms(2) dual_networks_Inr by (metis network_namesE)
  obtain k where k: "an_moniker x = PStr k" "path_join D (PStr k) = Inr (sib D k)"
    using assms(1) x by (rule aux_join)
  show ?thesis
    unfolding add_proxy_def prepare_proxy_dir_def prod.case
    by (rule delivers_aux_service [OF assms(1) x _ delivers_proxy_command [OF assms(3)]])
      (simp add: ips k(2) nets k(1) put_key_def)
qed

lemma delivers_add_public_node:
  assumes "well_named c" "network_names_ok c" "public_ready H c (i, x)" "x \<in> set (dt_public_nodes (dc_docker c))"
  shows "delivers (service_dirs c D) (add_public_node H c D (i, x) S) (\<lambda>_. service_dirs c D)"
proof -
  have x: "x \<in> set (all_aux c)" using assms(4) by (simp add: all_aux_def)
  obtain b where ip: "docker_public_ip (other_ip H) c (int i) = Inr b"
    using assms(3) by (cases "docker_public_ip (other_ip H) c (int i)") (auto simp: public_ready_def)
  obtain pnet where net: "docker_public_network_name (dc_docker c) = Inr pnet" "hashable pnet"
    using assms(2) by (rule network_namesE)
  obtain k where k: "an_moniker x = PStr k" "path_join D (PStr k) = Inr (sib D k)"
    using assms(1) x by (rule aux_join)
  obtain ports where ports: "published_ports (an_port x) = Inr ports"
    using assms(3) published_ports_Inr [of "an_port x"] by (auto simp: public_ready_def)
  obtain f fs where fs: "dt_follow_nodes (dc_docker c) = f # fs"
    using assms(3) by (cases "dt_follow_nodes (dc_docker c)") (auto simp: public_ready_def)
  then have "f \<in> set (all_aux c)" by (simp add: all_aux_def)
  with assms(1) obtain kf where kf: "an_moniker f = PStr kf" by (rule aux_join)
  have bin: "is_text (dc_tempo_bin c)" using assms(3) by (simp add: public_ready_def)
  show ?thesis
    unfolding add_public_node_def prepare_public_node_dir_def prod.case
    by (rule delivers_aux_service [OF assms(1) x _ delivers_public_command [OF assms(1) bin]])
      (simp add: ip k(2) ports net fs kf k(1) put_key_def)
qed

section \<open>The document\<close>

definition dockable :: "host \<Rightarrow> devnet_config \<Rightarrow> bool" where
  "dockable H c \<longleftrightarrow>
     (let t = dc_docker c; f = length (dc_validators c); p = f + length (dt_follow_nodes t);
          n = p + length (dt_p2p_proxies t) in
      \<not> isl (compose_networks c) \<and> list_all (validator_ready H c) (nodes_of_config c) \<and>
      (docker_is_two_network t \<longrightarrow>
         list_all (follow_ready H c) (numbered f (dt_follow_nodes t)) \<and>
         list_all (\<lambda>(i, x). both_addresses H c i) (numbered p (dt_p2p_proxies t)) \<and>
         list_all (public_ready H c) (numbered n (dt_public_nodes t))))"

lemma compose_networks_names:
  "compose_networks c = Inr nets \<Longrightarrow>
     if docker_is_two_network (dc_docker c) then network_names_ok c else hashable (dt_network (dc_docker c))"
  by (auto simp: compose_networks_def network_names_ok_def Let_def bindE_Inr_conv put_key_def split: if_splits)

lemma in_numbered_elem: "(i, x) \<in> set (numbered n xs) \<Longrightarrow> x \<in> set xs"
  by (auto simp: numbered_def dest: set_zip_rightD)

lemma delivers_numbered:
  assumes "list_all P (numbered n xs)" "\<And>i x S. P (i, x) \<Longrightarrow> x \<in> set xs \<Longrightarrow> delivers I (f (i, x) S) (\<lambda>_. I)"
  shows "delivers I (foldA f (numbered n xs) S) (\<lambda>_. I)"
proof (rule delivers_foldA)
  fix e S assume e: "e \<in> set (numbered n xs)"
  obtain i x where ix: "e = (i, x)" by (cases e)
  have "P (i, x)" using assms(1) e by (auto simp: list_all_iff ix)
  then show "delivers I (f e S) (\<lambda>_. I)"
    using assms(2) in_numbered_elem e unfolding ix by metis
qed

lemma delivers_compose_services:
  assumes "well_named c" "dockable H c"
  shows "delivers (service_dirs c D)
    (if docker_is_two_network (dc_docker c) then generate_two_network_compose H c D
     else generate_single_network_compose H c D) (\<lambda>_. service_dirs c D)"
proof -
  obtain nets where "compose_networks c = Inr nets"
    using assms(2) by (cases "compose_networks c") (auto simp: dockable_def Let_def)
  note names = compose_networks_names [OF this]
  let ?t = "dc_docker c"
  have validators: "list_all (validator_ready H c) (numbered 0 (dc_validators c))"
    using assms(2) by (simp add: dockable_def Let_def nodes_of_config_numbered)
  show ?thesis
  proof (cases "docker_is_two_network ?t")
    case False
    then have "delivers (service_dirs c D) (generate_single_network_compose H c D) (\<lambda>_. service_dirs c D)"
      unfolding generate_single_network_compose_def nodes_of_config_numbered using names
      by (intro delivers_numbered [OF validators] delivers_add_single_validator [OF assms(1)]) simp_all
    with False show ?thesis by simp
  next
    case True
    then have ok: "network_names_ok c" using names by simp
    have "delivers (service_dirs c D) (generate_two_network_compose H c D) (\<lambda>_. service_dirs c D)"
      unfolding generate_two_network_compose_def Let_def nodes_of_config_numbered
    proof (intro delivers_then)
      show "delivers (service_dirs c D) (foldA (add_validator H c D) (numbered 0 (dc_validators c)) []) (\<lambda>_. service_dirs c D)"
        using validators delivers_add_validator [OF assms(1) ok] by (rule delivers_numbered)
      show "delivers (service_dirs c D) (foldA (add_follow_node H c D)
          (numbered (length (dc_validators c)) (dt_follow_nodes ?t)) S) (\<lambda>_. service_dirs c D)" for S
        using _ delivers_add_follow_node [OF assms(1) ok]
        by (rule delivers_numbered [where P = "follow_ready H c"])
          (use assms(2) True in \<open>simp_all add: dockable_def Let_def\<close>)
      show "delivers (service_dirs c D) (foldA (add_proxy H c D)
          (numbered (length (dc_validators c) + length (dt_follow_nodes ?t)) (dt_p2p_proxies ?t)) S) (\<lambda>_. service_dirs c D)" for S
        using _ delivers_add_proxy [OF assms(1) ok]
        by (rule delivers_numbered [where P = "\<lambda>(i, x). both_addresses H c i"])
          (use assms(2) True in \<open>simp_all add: dockable_def Let_def\<close>)
      show "delivers (service_dirs c D) (foldA (add_public_node H c D)
          (numbered (length (dc_validators c) + length (dt_follow_nodes ?t) + length (dt_p2p_proxies ?t))
             (dt_public_nodes ?t)) S) (\<lambda>_. service_dirs c D)" for S
        using _ delivers_add_public_node [OF assms(1) ok]
        by (rule delivers_numbered [where P = "public_ready H c"])
          (use assms(2) True in \<open>simp_all add: dockable_def Let_def\<close>)
    qed
    with True show ?thesis by simp
  qed
qed

lemma delivers_document:
  assumes "well_named c" "dockable H c"
  shows "delivers (service_dirs c D) (compose_document H c D) (\<lambda>_. service_dirs c D)"
proof -
  have "\<exists>nets. compose_networks c = Inr nets" using assms(2) by (simp add: dockable_def Let_def Inr_iff)
  then show ?thesis
    unfolding compose_document_def
    by (intro delivers_then [OF delivers_compose_services [OF assms]] delivers_then [OF delivers_returns] delivers_pure)
qed

section \<open>The conditions are needed\<close>

lemma foldA_each:
  "foldA f xs S F = (Inr T, G) \<Longrightarrow> x \<in> set xs \<Longrightarrow> \<exists>S F T G. f x S F = (Inr T, G)"
proof (induction xs arbitrary: S F)
  case (Cons y xs)
  from Cons.prems(1) obtain S' F' where "f y S F = (Inr S', F')" "foldA f xs S' F' = (Inr T, G)"
    by (auto simp: bindA_Inr_conv)
  then show ?case using Cons.IH Cons.prems(2) by (cases "x = y") (simp_all, blast)
qed simp

lemma script_runnable: "write_docker_run_script d args F = (Inr p, G) \<Longrightarrow> runnable args"
  unfolding write_docker_run_script_def bindA_Inr_conv pureA_conv
  using runnable_script [of args "''docker''" True] by blast

lemma script_at_runnable: "script_at G D k args \<Longrightarrow> runnable args"
  using runnable_script [of args "''docker''" True] by (auto simp: script_at_def split: sum.splits)

lemma common_args_text:
  "build_common_node_args q = Inr args \<Longrightarrow> runnable args \<Longrightarrow> is_text (np_tempo_bin q)"
  by (auto simp: build_common_node_args_def Let_def bindE_Inr_conv runnable_def)

lemma follow_args_text: "runnable (follow_args c url peers) \<Longrightarrow> is_text (dc_tempo_bin c)"
  by (simp add: runnable_def follow_args_def build_follow_node_args_def)

lemma Inr_not_isl: "r = Inr a \<Longrightarrow> \<not> isl r"
  by simp

lemma add_validator_ready:
  assumes "add_validator H c D (i, v) S F = (Inr T, G) \<or> add_single_validator H c D (i, v) S F = (Inr T, G)"
  shows "validator_ready H c (i, v)"
proof -
  from assms obtain d args F' p G' peers addr ports ip where
    w: "write_docker_run_script d args F' = (Inr p, G')"
    and args: "build_common_node_args (docker_node_params c addr peers) = Inr args"
    and ports: "published_ports (vc_base_port v) = Inr ports" and ip: "docker_ip (other_ip H) c (int i) = Inr ip"
    by (auto simp: add_validator_def add_single_validator_def bindA_Inr_conv pureA_conv readA_conv bindE_Inr_conv
        docker_node_command_def docker_node_two_network_command_def)
  have "is_text (dc_tempo_bin c)"
    using common_args_text [OF args script_runnable [OF w]] by (simp add: docker_node_params_def)
  moreover have "py_int (vc_base_port v) \<noteq> None" using ports published_ports_Inr by blast
  ultimately show ?thesis by (simp add: validator_ready_def ip)
qed

text \<open>The command of a prepared service can be run.\<close>

lemma prepared_runnable:
  assumes "prepare_with_keys H D m command F = (Inr u, G)" "case m of PStr k \<Rightarrow> plain_name k | _ \<Rightarrow> False"
  obtains args F1 where "command F = (Inr args, F1)" "runnable args"
proof -
  obtain k where "m = PStr k" "plain_name k" using assms(2) by (auto split: pyval.splits)
  with prepare_with_keys_script [of H D k command F u G] assms(1) script_at_runnable that show ?thesis by blast
qed

lemma add_follow_node_ready:
  assumes "add_follow_node H c D (i, x) S F = (Inr T, G)" "named_aux x"
  shows "follow_ready H c (i, x)"
proof -
  from assms(1) obtain F1 a b ports where
    prep: "prepare_with_keys H D (an_moniker x) (docker_follow_node_command H c D) F = (Inr (), F1)"
    and facts: "docker_ip (other_ip H) c (int i) = Inr a" "docker_public_ip (other_ip H) c (int i) = Inr b"
      "published_ports (an_port x) = Inr ports"
    by (auto simp: add_follow_node_def prepare_follow_node_dir_def bindA_Inr_conv pureA_conv bindE_Inr_conv)
  from prepared_runnable [OF prep assms(2) [unfolded named_aux_def]] obtain args F2 where
    "docker_follow_node_command H c D F = (Inr args, F2)" "runnable args" .
  then have "is_text (dc_tempo_bin c) \<and> \<not> isl (docker_ip (other_ip H) c 0)"
    by (auto simp: docker_follow_node_command_def bindA_Inr_conv pureA_conv dest: follow_args_text)
  moreover have "py_int (an_port x) \<noteq> None" using facts(3) published_ports_Inr by blast
  ultimately show ?thesis by (simp add: follow_ready_def both_addresses_def facts)
qed

lemma add_proxy_ready:
  assumes "add_proxy H c D (i, x) S F = (Inr T, G)" "named_aux x"
  shows "both_addresses H c i"
proof -
  from assms(1) obtain F1 a b where
    prep: "prepare_with_keys H D (an_moniker x) (pureA (docker_p2p_proxy_command H c)) F = (Inr (), F1)"
    and facts: "docker_ip (other_ip H) c (int i) = Inr a" "docker_public_ip (other_ip H) c (int i) = Inr b"
    by (auto simp: add_proxy_def prepare_proxy_dir_def bindA_Inr_conv pureA_conv bindE_Inr_conv)
  from prepared_runnable [OF prep assms(2) [unfolded named_aux_def]] obtain args F2 where
    "pureA (docker_p2p_proxy_command H c) F = (Inr args, F2)" "runnable args" .
  then have "is_text (dc_tempo_bin c) \<and> \<not> isl (docker_ip (other_ip H) c 0)"
    by (auto simp: docker_p2p_proxy_command_def pureA_conv bindE_Inr_conv runnable_def)
  then show ?thesis by (simp add: both_addresses_def facts)
qed

lemma add_public_node_ready:
  assumes "add_public_node H c D (i, x) S F = (Inr T, G)" "named_aux x"
  shows "public_ready H c (i, x)"
proof -
  from assms(1) obtain F1 b ports where
    prep: "prepare_with_keys H D (an_moniker x) (docker_public_node_command H c D) F = (Inr (), F1)"
    and facts: "docker_public_ip (other_ip H) c (int i) = Inr b" "published_ports (an_port x) = Inr ports"
      "dt_follow_nodes (dc_docker c) \<noteq> []"
    by (auto simp: add_public_node_def prepare_public_node_dir_def bindA_Inr_conv pureA_conv bindE_Inr_conv
        split: list.splits)
  from prepared_runnable [OF prep assms(2) [unfolded named_aux_def]] obtain args F2 where
    "docker_public_node_command H c D F = (Inr args, F2)" "runnable args" .
  then have "is_text (dc_tempo_bin c)"
    by (auto simp: docker_public_node_command_def bindA_Inr_conv pureA_conv Let_def dest: follow_args_text)
  moreover have "py_int (an_port x) \<noteq> None" using facts(2) published_ports_Inr by blast
  ultimately show ?thesis by (simp add: public_ready_def facts)
qed

lemma numbered_ready:
  assumes "foldA f (numbered n xs) S F = (Inr T, G)"
    and "\<And>i x S F T G. x \<in> set xs \<Longrightarrow> f (i, x) S F = (Inr T, G) \<Longrightarrow> P (i, x)"
  shows "list_all P (numbered n xs)"
  unfolding list_all_iff
proof
  fix e assume e: "e \<in> set (numbered n xs)"
  obtain i x where ix: "e = (i, x)" by (cases e)
  from foldA_each [OF assms(1) e] obtain S F T G where "f (i, x) S F = (Inr T, G)" unfolding ix by blast
  with in_numbered_elem e assms(2) show "P e" unfolding ix by metis
qed

lemma document_dockable:
  assumes "compose_document H c D F = (Inr doc, G)" "well_named c"
  shows "dockable H c"
proof -
  let ?t = "dc_docker c"
  let ?f = "length (dc_validators c)"
  let ?p = "?f + length (dt_follow_nodes ?t)"
  let ?n = "?p + length (dt_p2p_proxies ?t)"
  have named: "named_aux x" if "x \<in> set (all_aux c)" for x
    using assms(2) that by (simp add: well_named_def list_all_iff)
  from assms(1) obtain S K nets where
    S: "(if docker_is_two_network ?t then generate_two_network_compose H c D
         else generate_single_network_compose H c D) F = (Inr S, K)"
    and nets: "compose_networks c = Inr nets"
    by (auto simp: compose_document_def bindA_Inr_conv pureA_conv)
  show ?thesis
  proof (cases "docker_is_two_network ?t")
    case False
    with S have "foldA (add_single_validator H c D) (numbered 0 (dc_validators c)) [] F = (Inr S, K)"
      by (simp add: generate_single_network_compose_def nodes_of_config_numbered)
    then have "list_all (validator_ready H c) (numbered 0 (dc_validators c))"
      by (rule numbered_ready) (use add_validator_ready in blast)
    with False show ?thesis by (simp add: dockable_def Let_def nets nodes_of_config_numbered)
  next
    case True
    with S obtain S1 S2 S3 F1 F2 F3 where
      l1: "foldA (add_validator H c D) (numbered 0 (dc_validators c)) [] F = (Inr S1, F1)" and
      l2: "foldA (add_follow_node H c D) (numbered ?f (dt_follow_nodes ?t)) S1 F1 = (Inr S2, F2)" and
      l3: "foldA (add_proxy H c D) (numbered ?p (dt_p2p_proxies ?t)) S2 F2 = (Inr S3, F3)" and
      l4: "foldA (add_public_node H c D) (numbered ?n (dt_public_nodes ?t)) S3 F3 = (Inr S, K)"
      by (auto simp: generate_two_network_compose_def Let_def bindA_Inr_conv nodes_of_config_numbered)
    have "list_all (validator_ready H c) (numbered 0 (dc_validators c))"
      by (rule numbered_ready [OF l1]) (use add_validator_ready in blast)
    moreover have "list_all (follow_ready H c) (numbered ?f (dt_follow_nodes ?t))"
      by (rule numbered_ready [OF l2]) (use named add_follow_node_ready in \<open>auto simp: all_aux_def\<close>)
    moreover have "list_all (\<lambda>(i, x). both_addresses H c i) (numbered ?p (dt_p2p_proxies ?t))"
      by (rule numbered_ready [OF l3]) (use named add_proxy_ready in \<open>auto simp: all_aux_def\<close>)
    moreover have "list_all (public_ready H c) (numbered ?n (dt_public_nodes ?t))"
      by (rule numbered_ready [OF l4]) (use named add_public_node_ready in \<open>auto simp: all_aux_def\<close>)
    ultimately show ?thesis by (simp add: dockable_def Let_def nets nodes_of_config_numbered)
  qed
qed

lemma well_named_services: "well_named c \<Longrightarrow> named_services c"
proof -
  assume c: "well_named c"
  have "case vc_moniker v of PStr m \<Rightarrow> plain_name m | _ \<Rightarrow> False" if "v \<in> set (dc_validators c)" for v
    using named_validators [of c v] c that by (auto simp: well_named_def)
  moreover have "case an_moniker x of PStr m \<Rightarrow> plain_name m | _ \<Rightarrow> False" if "x \<in> set (all_aux c)" for x
    using c that by (simp add: well_named_def list_all_iff named_aux_def)
  ultimately show ?thesis by (auto simp: named_services_def service_names_def all_aux_def list_all_iff)
qed

text \<open>The compose file is there and every service of a two-network devnet has the script of its command.\<close>

definition compose_complete ::
    "host \<Rightarrow> (compose \<Rightarrow> dumped) \<Rightarrow> devnet_config \<Rightarrow> path \<Rightarrow> compose \<Rightarrow> fs \<Rightarrow> fs \<Rightarrow> bool" where
  "compose_complete H dump c D doc F G \<longleftrightarrow>
     node_at G (sib D ''docker-compose.yaml'') = Some (TextFile (fst (dump doc))) \<and>
     (docker_is_two_network (dc_docker c) \<and> distinct (service_names c) \<longrightarrow>
        (\<forall>i < length (service_names c). served H c D F G i))"

lemma compose_total:
  assumes "service_dirs c D F" "well_named c" "dockable H c" "py_eq (dc_backend c) (PStr ''tempo'')"
  shows "\<exists>doc K. compose_document H c D F = (Inr doc, K) \<and>
    (if snd (dump doc) = None
     then \<exists>G. generate_docker_compose H dump c D True F = (Inr (sib D ''docker-compose.yaml''), G) \<and>
       compose_complete H dump c D doc F G
     else isl (fst (generate_docker_compose H dump c D True F)))"
proof -
  let ?dst = "sib D ''docker-compose.yaml''"
  from deliversE [OF delivers_document [OF assms(2,3)] assms(1)] obtain doc K where
    doc: "compose_document H c D F = (Inr doc, K)" and K: "service_dirs c D K" .
  have run: "generate_docker_compose H dump c D True F =
      bindA (dump_file ?dst (dump doc)) (\<lambda>_. pureA (Inr ?dst)) K"
    using assms(4) doc by (simp add: generate_docker_compose_def DOCKER_CONFIG_FILE_def file_paths Let_def bindA_def)
  obtain G where w: "write_text ?dst (fst (dump doc)) K = (Inr (), G)"
    using delivers_entry(1) [OF devnet_file(7)] K by (fastforce elim: deliversE)
  show ?thesis
  proof (cases "snd (dump doc)")
    case None
    then have ret: "generate_docker_compose H dump c D True F = (Inr ?dst, G)"
      by (simp add: run w dump_file_def bindA_def pureA_def)
    have "served H c D F G i" if "docker_is_two_network (dc_docker c)" "distinct (service_names c)"
      "i < length (service_names c)" for i
      using compose_scripts_done [OF ret that(1) well_named_services [OF assms(2)] that(2)] that(3) by blast
    then have "compose_complete H dump c D doc F G"
      using w by (simp add: compose_complete_def write_text_Inr)
    then show ?thesis using ret doc None by auto
  qed (use doc w in \<open>simp add: run dump_file_def bindA_def pureA_def\<close>)
qed


lemma demo_docker_dockable:
  "case config_init demo_docker of
     Inl e \<Rightarrow> False
   | Inr c \<Rightarrow> dockable demo_host c \<and> py_eq (dc_backend c) (PStr ''tempo'') \<and> well_named c \<and>
       docker_is_two_network (dc_docker c) \<and> named_services c \<and> distinct (service_names c) \<and>
       service_names c = [PStr ''node0'', PStr ''f'', PStr ''p'', PStr ''q''] \<and>
       writable devnet_files demo_root (node_names c) (map aux_name (all_aux c)) demo_docker_fs"
  by code_simp

lemma demo_docker_config:
  obtains c where "config_init demo_docker = Inr c" "dockable demo_host c \<and> py_eq (dc_backend c) (PStr ''tempo'')"
    "well_named c" "docker_is_two_network (dc_docker c)" "named_services c" "distinct (service_names c)"
    "service_names c = [PStr ''node0'', PStr ''f'', PStr ''p'', PStr ''q'']"
    "writable devnet_files demo_root (node_names c) (map aux_name (all_aux c)) demo_docker_fs"
  using demo_docker_dockable by (auto split: sum.splits intro: that)


end
