(* ===== verification/Constants.thy ===== *)
theory Constants
  imports Contracts
begin

text \<open>
  \<open>tempo/constants.py\<close>: chain ids, endpoints and the addresses of tokens and precompiles. Each address is the
  check-summed text of the given hexadecimal text.
\<close>

section \<open>Networks\<close>

definition CHAIN_ID_MODERATO :: int where "CHAIN_ID_MODERATO = 42431"
definition CHAIN_ID_DEVNET :: int where "CHAIN_ID_DEVNET = 31318"
definition CHAIN_ID_TESTNET :: int where "CHAIN_ID_TESTNET = 42429"

definition RPC_URL_MAINNET :: string where "RPC_URL_MAINNET = ''https://rpc.tempo.xyz''"
definition RPC_URL_MODERATO :: string where "RPC_URL_MODERATO = ''https://rpc.moderato.tempo.xyz''"
definition RPC_URL_DEVNET :: string where "RPC_URL_DEVNET = ''https://rpc.devnet.tempo.xyz''"

section \<open>Addresses\<close>

definition token_texts :: "(string \<times> string) list" where
  "token_texts =
     [(''PATH_USD'', ''0x20C0000000000000000000000000000000000000''),
      (''ALPHA_USD'', ''0x20C0000000000000000000000000000000000001''),
      (''BETA_USD'', ''0x20C0000000000000000000000000000000000002''),
      (''THETA_USD'', ''0x20C0000000000000000000000000000000000003'')]"

definition precompile_texts :: "(string \<times> string) list" where
  "precompile_texts =
     [(''FEE_MANAGER_ADDRESS'', ''0xfeEC000000000000000000000000000000000000''),
      (''TIP403_REGISTRY_ADDRESS'', ''0x403c000000000000000000000000000000000000''),
      (''TIP20_FACTORY_ADDRESS'', ''0x20Fc000000000000000000000000000000000000''),
      (''STABLECOIN_DEX_ADDRESS'', ''0xDEc0000000000000000000000000000000000000''),
      (''NONCE_ADDRESS'', ''0x4e4F4E4345000000000000000000000000000000''),
      (''VALIDATOR_CONFIG_ADDRESS'', ''0xCccCcCCC00000000000000000000000000000000''),
      (''ACCOUNT_KEYCHAIN_ADDRESS'', ''0xaAAAaaAA00000000000000000000000000000000''),
      (''VALIDATOR_CONFIG_V2_ADDRESS'', ''0xCccCcCCC00000000000000000000000000000001''),
      (''ADDRESS_REGISTRY_ADDRESS'', ''0xFDC0000000000000000000000000000000000000''),
      (''SIGNATURE_VERIFIER_ADDRESS'', ''0x5165300000000000000000000000000000000000''),
      (''TIP20_CHANNEL_RESERVE_ADDRESS'', ''0x4D50500000000000000000000000000000000000''),
      (''RECEIVE_POLICY_GUARD_ADDRESS'', ''0xB10C000000000000000000000000000000000000''),
      (''STORAGE_CREDITS_ADDRESS'', ''0x1060000000000000000000000000000000000000'')]"

text \<open>The address of a name, and its bytes.\<close>

definition address_bytes :: "string \<Rightarrow> bytes result" where
  "address_bytes s = bytes_fromhex (drop 2 s)"

definition address_constant :: "ext \<Rightarrow> string \<Rightarrow> string result" where
  "address_constant E name =
     (case map_of (token_texts @ precompile_texts) name of
        None \<Rightarrow> Inl (AttributeError ''module has no attribute'')
      | Some s \<Rightarrow> bindE (address_bytes s) (to_checksum_address E))"

text \<open>Every address has twenty bytes, and no two names have the same one.\<close>

lemma addresses_distinct:
  "list_all (\<lambda>(n, s). case address_bytes s of Inl e \<Rightarrow> False | Inr b \<Rightarrow> length b = 20) (token_texts @ precompile_texts)"
  "distinct (map (\<lambda>(n, s). address_bytes s) (token_texts @ precompile_texts))"
  by code_simp+

lemma keychain_address: "address_constant E ''ACCOUNT_KEYCHAIN_ADDRESS'' = ACCOUNT_KEYCHAIN_ADDRESS E"
proof -
  have "map_of (token_texts @ precompile_texts) ''ACCOUNT_KEYCHAIN_ADDRESS'' =
      Some ''0xaAAAaaAA00000000000000000000000000000000''" by code_simp
  moreover have "address_bytes ''0xaAAAaaAA00000000000000000000000000000000'' = Inr ACCOUNT_KEYCHAIN_BYTES"
    by code_simp
  ultimately show ?thesis by (simp add: address_constant_def ACCOUNT_KEYCHAIN_ADDRESS_def)
qed

text \<open>The test network is not the network it is said to be an alias of.\<close>

lemma testnet_not_moderato: "CHAIN_ID_TESTNET \<noteq> CHAIN_ID_MODERATO"
  by (simp add: CHAIN_ID_TESTNET_def CHAIN_ID_MODERATO_def)

end
