(* ===== verification/Exports.thy ===== *)
theory Exports
  imports Constants "HOL-Library.AList"
begin

text \<open>
  The packages \<open>tempo\<close>, \<open>tempo.contracts\<close> and \<open>tempo.devnet\<close> (\<open>__init__.py\<close>): the names their import
  statements bind, and the names they export. A namespace gives for a name the module it was taken from
  and its name there.
\<close>

type_synonym import_from = "string \<times> (string \<times> string) list"
type_synonym namespace = "(string \<times> (string \<times> string)) list"

text \<open>\<open>from module import name\<close>, for names that are not given another name.\<close>

definition same_names :: "string list \<Rightarrow> (string \<times> string) list" where
  "same_names ns = map (\<lambda>n. (n, n)) ns"

text \<open>The statements are run in order; a later one binds a name again.\<close>

fun bind_imports :: "import_from list \<Rightarrow> namespace \<Rightarrow> namespace" where
  "bind_imports [] N = N"
| "bind_imports ((m, ns) # rest) N =
     bind_imports rest (foldl (\<lambda>N (name, alias). AList.update alias (m, name) N) N ns)"

text \<open>\<open>from package import *\<close> reads each name of \<open>__all__\<close>.\<close>

definition star_import :: "namespace \<Rightarrow> string list \<Rightarrow> namespace result" where
  "star_import N exports =
     mapE (\<lambda>n. case map_of N n of
       Some r \<Rightarrow> Inr (n, r)
     | None \<Rightarrow> Inl (AttributeError ''module has no attribute'')) exports"

section \<open>The packages\<close>

definition tempo_imports :: "import_from list" where
  "tempo_imports =
     [(''.constants'', same_names
        [''CHAIN_ID_DEVNET'', ''CHAIN_ID_MAINNET'', ''CHAIN_ID_MODERATO'', ''CHAIN_ID_TESTNET'',
        ''DEFAULT_CHAIN_ID'', ''RPC_URL_DEVNET'', ''RPC_URL_MAINNET'', ''RPC_URL_MODERATO'']),
      (''.models'', same_names
        [''AccessListItem'', ''Call'', ''Signature'', ''TempoTransaction'']),
      (''.p256'', same_names
        [''P256Signature'', ''P256Signer'', ''WebAuthnSignature'', ''derive_address'']),
      (''.signer'', same_names
        [''Signer'', ''recover_address'', ''verify_signature'']),
      (''.transaction'', same_names
        [''Builder'', ''add_fee_payer_signature'', ''get_fee_payer_sign_payload'', ''get_sign_payload'',
        ''serialize'', ''serialize_for_fee_payer_signing'', ''serialize_for_signing'',
        ''sign_transaction'', ''verify_fee_payer_signature'']),
      (''.transaction'', [(''verify_signature'', ''verify_tx_signature'')]),
      (''.types'', same_names
        [''Address'', ''BytesLike'', ''Hash32'', ''Selector'', ''as_address'', ''as_bytes'',
        ''as_hash32'', ''as_optional_address'', ''as_selector'', ''validate_nonempty_address''])]"

definition tempo_all :: "string list" where
  "tempo_all =
     [''Address'', ''Hash32'', ''Selector'', ''BytesLike'', ''as_address'', ''as_bytes'',
      ''as_hash32'', ''as_optional_address'', ''as_selector'', ''validate_nonempty_address'', ''Call'',
      ''AccessListItem'', ''Signature'', ''TempoTransaction'', ''Signer'', ''recover_address'',
      ''verify_signature'', ''P256Signer'', ''P256Signature'', ''WebAuthnSignature'',
      ''derive_address'', ''Builder'', ''serialize'', ''serialize_for_signing'',
      ''serialize_for_fee_payer_signing'', ''sign_transaction'', ''add_fee_payer_signature'',
      ''get_sign_payload'', ''get_fee_payer_sign_payload'', ''verify_tx_signature'',
      ''verify_fee_payer_signature'', ''CHAIN_ID_MAINNET'', ''CHAIN_ID_MODERATO'', ''CHAIN_ID_DEVNET'',
      ''CHAIN_ID_TESTNET'', ''DEFAULT_CHAIN_ID'', ''RPC_URL_MAINNET'', ''RPC_URL_MODERATO'',
      ''RPC_URL_DEVNET'']"

definition contracts_imports :: "import_from list" where
  "contracts_imports =
     [(''..constants'', same_names
        [''ACCOUNT_KEYCHAIN_ADDRESS'', ''ADDRESS_REGISTRY_ADDRESS'', ''ALPHA_USD'', ''BETA_USD'',
        ''FEE_MANAGER_ADDRESS'', ''NONCE_ADDRESS'', ''PATH_USD'', ''RECEIVE_POLICY_GUARD_ADDRESS'',
        ''SIGNATURE_VERIFIER_ADDRESS'', ''STABLECOIN_DEX_ADDRESS'', ''STORAGE_CREDITS_ADDRESS'',
        ''THETA_USD'', ''TIP20_CHANNEL_RESERVE_ADDRESS'', ''TIP20_FACTORY_ADDRESS'',
        ''TIP403_REGISTRY_ADDRESS'', ''VALIDATOR_CONFIG_ADDRESS'', ''VALIDATOR_CONFIG_V2_ADDRESS'']),
      (''.keychain'', same_names
        [''ACCOUNT_KEYCHAIN'', ''AccountKeychain'']),
      (''.tip20'', same_names
        [''TIP20'', ''TIP20_ROLES''])]"

definition contracts_all :: "string list" where
  "contracts_all =
     [''TIP20'', ''TIP20_ROLES'', ''ACCOUNT_KEYCHAIN'', ''AccountKeychain'', ''ALPHA_USD'',
      ''BETA_USD'', ''THETA_USD'', ''PATH_USD'', ''ACCOUNT_KEYCHAIN_ADDRESS'',
      ''ADDRESS_REGISTRY_ADDRESS'', ''FEE_MANAGER_ADDRESS'', ''STABLECOIN_DEX_ADDRESS'',
      ''STORAGE_CREDITS_ADDRESS'', ''NONCE_ADDRESS'', ''TIP20_CHANNEL_RESERVE_ADDRESS'',
      ''TIP20_FACTORY_ADDRESS'', ''TIP403_REGISTRY_ADDRESS'', ''RECEIVE_POLICY_GUARD_ADDRESS'',
      ''SIGNATURE_VERIFIER_ADDRESS'', ''VALIDATOR_CONFIG_ADDRESS'', ''VALIDATOR_CONFIG_V2_ADDRESS'']"

definition devnet_imports :: "import_from list" where
  "devnet_imports =
     [(''.cli'', same_names
        [''CLI'']),
      (''.cluster'', same_names
        [''ClusterCLI''])]"

definition devnet_all :: "string list" where
  "devnet_all =
     [''CLI'', ''ClusterCLI'']"

section \<open>What is exported\<close>

text \<open>Every exported name is bound, once, and every imported name is exported.\<close>

definition exports_agree :: "import_from list \<Rightarrow> string list \<Rightarrow> bool" where
  "exports_agree imports exports \<longleftrightarrow>
     distinct exports \<and> set exports = fst ` set (bind_imports imports []) \<and>
     length (bind_imports imports []) = sum_list (map (length \<circ> snd) imports)"

lemma star_import_bound:
  assumes "set exports \<subseteq> fst ` set N"
  shows "star_import N exports = Inr (map (\<lambda>n. (n, the (map_of N n))) exports)"
  using assms
proof (induction exports)
  case Nil
  then show ?case by (simp add: star_import_def)
next
  case (Cons n exports)
  then obtain r where "map_of N n = Some r"
    by (metis insert_subset list.simps(15) map_of_eq_None_iff not_None_eq)
  with Cons show ?case by (simp add: star_import_def)
qed

lemma exports_bound:
  "exports_agree imports exports \<Longrightarrow>
   star_import (bind_imports imports []) exports =
     Inr (map (\<lambda>n. (n, the (map_of (bind_imports imports []) n))) exports)"
  by (rule star_import_bound) (simp add: exports_agree_def)

lemma packages_agree:
  "exports_agree tempo_imports tempo_all"
  "exports_agree contracts_imports contracts_all"
  "exports_agree devnet_imports devnet_all"
  by code_simp+

text \<open>
  Both \<open>tempo.signer\<close> and \<open>tempo.transaction\<close> have a \<open>verify_signature\<close>: the package keeps the first under
  this name and the second as \<open>verify_tx_signature\<close>.
\<close>

lemma verify_signature_origins:
  "map_of (bind_imports tempo_imports []) ''verify_signature'' = Some (''.signer'', ''verify_signature'')"
  "map_of (bind_imports tempo_imports []) ''verify_tx_signature'' = Some (''.transaction'', ''verify_signature'')"
  by code_simp+

text \<open>\<open>tempo.contracts\<close> takes all token and precompile addresses, and nothing else, from the constants.\<close>

lemma contracts_addresses:
  "set (map fst (the (map_of contracts_imports ''..constants''))) =
     fst ` set (token_texts @ precompile_texts)"
  by code_simp

end
