(* ===== verification/FromDict.thy ===== *)
theory FromDict
  imports PyValue TxModel Samples
begin

text \<open>
  \<open>TempoTransaction.from_dict\<close> of \<open>tempo/models.py\<close>. The numbers, flags and lists of a dictionary
  reach the fields unchecked, so its result \<open>parsed_tx\<close> keeps them as Python values; the calls, the
  access list and the fee token go through the constructors. \<open>typed_tx\<close> reads a parsed
  transaction whose fields have the declared types as a \<open>tempo_tx\<close>.
\<close>

record parsed_tx =
  p_chain_id :: pyval
  p_gas_limit :: pyval
  p_max_fee_per_gas :: pyval
  p_max_priority_fee_per_gas :: pyval
  p_nonce :: pyval
  p_nonce_key :: pyval
  p_valid_before :: pyval
  p_valid_after :: pyval
  p_fee_token :: "bytes option"
  p_awaiting_fee_payer :: pyval
  p_calls :: "call list"
  p_access_list :: "access_list_item list"
  p_tempo_authorization_list :: pyval
  p_key_authorization :: pyval

text \<open>\<open>_get(*keys, default=...)\<close>: the value of the first key the dictionary has.\<close>

fun get_first :: "pydict \<Rightarrow> string list \<Rightarrow> pyval \<Rightarrow> pyval" where
  "get_first d [] dflt = dflt"
| "get_first d (k # ks) dflt =
     (case map_of d k of Some v \<Rightarrow> v | None \<Rightarrow> get_first d ks dflt)"

text \<open>\<open>Call.create\<close> on values: the comparison with zero is a \<open>TypeError\<close> on anything but a number.\<close>

definition call_of_values :: "ext \<Rightarrow> pyval \<Rightarrow> pyval \<Rightarrow> pyval \<Rightarrow> call result" where
  "call_of_values E to val dat =
     (case py_int val of
        Some n \<Rightarrow> call_create E (bytes_like_of to) n (bytes_like_of dat)
      | None \<Rightarrow>
          bindE (as_address E (bytes_like_of to)) (\<lambda>_.
          bindE (as_bytes E (bytes_like_of dat)) (\<lambda>_.
            Inl (TypeError ''< not supported between instances''))))"

definition call_from_dict :: "ext \<Rightarrow> pyval \<Rightarrow> call result" where
  "call_from_dict E c =
     bindE (py_get c ''to'' (PStr '''')) (\<lambda>to.
     bindE (py_get c ''value'' (PInt 0)) (\<lambda>val.
     bindE (py_get c ''input'' (PStr ''0x'')) (\<lambda>inp.
     bindE (py_get c ''data'' inp) (\<lambda>dat.
       call_of_values E to val dat))))"

definition access_item_from_dict :: "ext \<Rightarrow> pyval \<Rightarrow> access_list_item result" where
  "access_item_from_dict E i =
     bindE (py_get i ''address'' (PStr '''')) (\<lambda>a.
     bindE (py_get i ''storage_keys'' (PTuple [])) (\<lambda>snake.
     bindE (py_get i ''storageKeys'' snake) (\<lambda>keys.
     bindE (py_list keys) (\<lambda>ks.
       access_list_item_create E (bytes_like_of a) (map bytes_like_of ks)))))"

text \<open>\<open>f(x) for x in list(v) if isinstance(v, (list, tuple))\<close>.\<close>

definition map_sequence :: "(pyval \<Rightarrow> 'a result) \<Rightarrow> pyval \<Rightarrow> 'a list result" where
  "map_sequence f v = bindE (py_list v) (\<lambda>xs. if is_sequence v then mapE f xs else Inr [])"

definition calls_data_of :: "pydict \<Rightarrow> pyval" where
  "calls_data_of d =
     (let calls_data = get_first d [''calls''] (PList []) in
      if truthy calls_data then calls_data
      else
        let to_addr = get_first d [''to''] (PStr '''');
            val = get_first d [''value''] (PInt 0);
            dat = get_first d [''data''] (PStr ''0x'')
        in if truthy to_addr \<or> truthy val
           then PList [PDict [(''to'', to_addr), (''value'', val), (''data'', dat)]]
           else calls_data)"

definition from_dict :: "ext \<Rightarrow> pydict \<Rightarrow> parsed_tx result" where
  "from_dict E d =
     bindE (map_sequence (call_from_dict E) (calls_data_of d)) (\<lambda>cs.
     bindE (map_sequence (access_item_from_dict E)
              (get_first d [''accessList'', ''access_list''] (PList []))) (\<lambda>items.
       let nk = get_first d [''nonceKey'', ''nonce_key''] (PInt 0);
           token = get_first d [''feeToken'', ''fee_token''] PNone
       in bindE (as_optional_address E (if token = PNone then None else Some (bytes_like_of token))) (\<lambda>ft.
          Inr \<lparr>
            p_chain_id = get_first d [''chainId'', ''chain_id''] (PInt DEFAULT_CHAIN_ID),
            p_gas_limit = get_first d [''gas'', ''gasLimit'', ''gas_limit''] (PInt 21000),
            p_max_fee_per_gas = get_first d [''maxFeePerGas'', ''max_fee_per_gas''] (PInt 0),
            p_max_priority_fee_per_gas =
              get_first d [''maxPriorityFeePerGas'', ''max_priority_fee_per_gas''] (PInt 0),
            p_nonce = py_or (get_first d [''nonce''] (PInt 0)) (PInt 0),
            p_nonce_key = (if nk = PNone then PInt 0 else nk),
            p_valid_before = get_first d [''validBefore'', ''valid_before''] PNone,
            p_valid_after = get_first d [''validAfter'', ''valid_after''] PNone,
            p_fee_token = ft,
            p_awaiting_fee_payer = get_first d [''awaitingFeePayer'', ''awaiting_fee_payer''] (PBool False),
            p_calls = cs,
            p_access_list = items,
            p_tempo_authorization_list =
              get_first d [''tempoAuthorizationList'', ''tempo_authorization_list''] (PTuple []),
            p_key_authorization = get_first d [''keyAuthorization'', ''key_authorization''] PNone\<rparr>)))"

section \<open>Transactions as dictionaries\<close>

text \<open>
  The dictionary of an unsigned transaction, each key in camelCase or snake_case as \<open>sp\<close> says; the
  gas limit has three spellings.
\<close>

fun int_or_none :: "int option \<Rightarrow> pyval" where
  "int_or_none None = PNone"
| "int_or_none (Some n) = PInt n"

definition call_to_dict :: "call \<Rightarrow> pyval" where
  "call_to_dict c =
     PDict [(''to'', PBytes (call_to c)), (''value'', PInt (call_value c)), (''data'', PBytes (call_data c))]"

definition item_to_dict :: "(string \<Rightarrow> bool) \<Rightarrow> access_list_item \<Rightarrow> pyval" where
  "item_to_dict sp i =
     PDict [(''address'', PBytes (al_address i)),
            (if sp ''storageKeys'' then ''storageKeys'' else ''storage_keys'',
             PList (map PBytes (al_storage_keys i)))]"

text \<open>A key in the first of its spellings that \<open>sp\<close> selects, the last one otherwise.\<close>

fun spell :: "(string \<Rightarrow> bool) \<Rightarrow> string list \<Rightarrow> string" where
  "spell sp [] = []"
| "spell sp (k # ks) = (if ks = [] \<or> sp k then k else spell sp ks)"

definition spell_entries :: "(string \<Rightarrow> bool) \<Rightarrow> (string list \<times> pyval) list \<Rightarrow> pydict" where
  "spell_entries sp es = map (\<lambda>(ks, v). (spell sp ks, v)) es"

definition tx_entries ::
    "(string \<Rightarrow> bool) \<Rightarrow> tempo_tx \<Rightarrow> access_list_item list \<Rightarrow> (string list \<times> pyval) list" where
  "tx_entries sp t items =
     [([''chainId'', ''chain_id''], PInt (chain_id t)),
      ([''gas'', ''gasLimit'', ''gas_limit''], PInt (gas_limit t)),
      ([''maxFeePerGas'', ''max_fee_per_gas''], PInt (max_fee_per_gas t)),
      ([''maxPriorityFeePerGas'', ''max_priority_fee_per_gas''], PInt (max_priority_fee_per_gas t)),
      ([''nonce''], PInt (nonce t)),
      ([''nonceKey'', ''nonce_key''], PInt (nonce_key t)),
      ([''validBefore'', ''valid_before''], int_or_none (valid_before t)),
      ([''validAfter'', ''valid_after''], int_or_none (valid_after t)),
      ([''feeToken'', ''fee_token''], case fee_token t of None \<Rightarrow> PNone | Some a \<Rightarrow> PBytes a),
      ([''awaitingFeePayer'', ''awaiting_fee_payer''], PBool (awaiting_fee_payer t)),
      ([''calls''], PList (map call_to_dict (calls t))),
      ([''accessList'', ''access_list''], PList (map (item_to_dict sp) items)),
      ([''tempoAuthorizationList'', ''tempo_authorization_list''],
       PTuple (map PBytes (tempo_authorization_list t)))]"

definition tx_to_dict :: "(string \<Rightarrow> bool) \<Rightarrow> tempo_tx \<Rightarrow> access_list_item list \<Rightarrow> pydict" where
  "tx_to_dict sp t items = spell_entries sp (tx_entries sp t items)"

text \<open>A parsed transaction with typed fields and no key authorization, as a transaction.\<close>

definition typed_tx :: "parsed_tx \<Rightarrow> tempo_tx \<Rightarrow> bool" where
  "typed_tx p t \<longleftrightarrow>
     p_chain_id p = PInt (chain_id t) \<and> p_gas_limit p = PInt (gas_limit t) \<and>
     p_max_fee_per_gas p = PInt (max_fee_per_gas t) \<and>
     p_max_priority_fee_per_gas p = PInt (max_priority_fee_per_gas t) \<and>
     p_nonce p = PInt (nonce t) \<and> p_nonce_key p = PInt (nonce_key t) \<and>
     p_valid_before p = int_or_none (valid_before t) \<and> p_valid_after p = int_or_none (valid_after t) \<and>
     p_fee_token p = fee_token t \<and> p_awaiting_fee_payer p = PBool (awaiting_fee_payer t) \<and>
     p_calls p = calls t \<and> map AccessItem (p_access_list p) = access_list t \<and>
     p_tempo_authorization_list p = PTuple (map PBytes (tempo_authorization_list t)) \<and>
     p_key_authorization p = PNone \<and> key_authorization t = None"

lemma call_from_to_dict: "call_ok c \<Longrightarrow> call_from_dict E (call_to_dict c) = Inr c"
  by (auto simp: call_from_dict_def call_to_dict_def call_of_values_def call_create_def call_init_def
      call_ok_def as_address_BBytes address_of_bytes_def)

lemma mapE_hash32_bytes:
  "list_all (\<lambda>k. length k = 32) ks \<Longrightarrow> mapE (as_hash32 E) (map BBytes ks) = Inr ks"
  by (induction ks) (simp_all add: as_hash32_def hash32_of_bytes_def)

lemma item_from_to_dict:
  assumes "access_list_item_ok i"
  shows "access_item_from_dict E (item_to_dict sp i) = Inr i"
proof -
  have "validate_storage_keys (al_storage_keys i) = Inr ()"
    using assms validate_storage_keys_conv unfolding access_list_item_ok_def by blast
  with assms show ?thesis
    by (auto simp: access_item_from_dict_def item_to_dict_def access_list_item_ok_def comp_def
        access_list_item_create_def access_list_item_init_def mapE_hash32_bytes
        simp del: validate_storage_keys_conv)
qed

lemma mapE_map_Inr: "list_all P xs \<Longrightarrow> (\<And>x. P x \<Longrightarrow> f (g x) = Inr x) \<Longrightarrow> mapE f (map g xs) = Inr xs"
  by (induction xs) simp_all

lemma get_first_miss: "k \<notin> set ks \<Longrightarrow> get_first ((k, v) # d) ks x = get_first d ks x"
  by (induction ks) (auto split: option.split)

lemma get_first_none: "\<forall>e \<in> set d. fst e \<notin> set ks \<Longrightarrow> get_first d ks x = x"
proof (induction ks)
  case (Cons k ks)
  then have "map_of d k = None" by (auto simp: map_of_eq_None_iff)
  with Cons show ?case by simp
qed simp

lemma get_first_hit:
  "k \<in> set ks \<Longrightarrow> \<forall>e \<in> set d. fst e \<notin> set ks \<Longrightarrow> get_first ((k, v) # d) ks x = v"
proof (induction ks)
  case (Cons j js)
  then have "map_of d j = None" by (auto simp: map_of_eq_None_iff)
  with Cons show ?case by auto
qed simp

lemma spell_mem: "ks \<noteq> [] \<Longrightarrow> spell sp ks \<in> set ks"
  by (induction ks) auto

text \<open>Entries whose groups of spellings are disjoint, and lookups in them.\<close>

fun disjoint_keys :: "string list list \<Rightarrow> bool" where
  "disjoint_keys [] = True"
| "disjoint_keys (ks # kss) =
     (ks \<noteq> [] \<and> list_all (\<lambda>js. js \<noteq> [] \<and> list_all (\<lambda>k. k \<notin> set js) ks) kss \<and> disjoint_keys kss)"

lemma spelled_fst: "\<forall>js \<in> set (map fst es). js \<noteq> [] \<and> set js \<inter> set ks = {} \<Longrightarrow>
    \<forall>e \<in> set (spell_entries sp es). fst e \<notin> set ks"
  using spell_mem by (fastforce simp: spell_entries_def)

lemma get_first_absent:
  "\<forall>js \<in> set (map fst es). js \<noteq> [] \<and> set js \<inter> set ks = {} \<Longrightarrow>
     get_first (spell_entries sp es) ks x = x"
  by (rule get_first_none) (rule spelled_fst)

lemma get_first_present:
  "disjoint_keys (map fst es) \<Longrightarrow> (ks, v) \<in> set es \<Longrightarrow> get_first (spell_entries sp es) ks x = v"
proof (induction es)
  case (Cons e es)
  obtain js w where e: "e = (js, w)" by force
  from Cons.prems(1) e have js: "js \<noteq> []"
    and disj: "\<forall>is \<in> set (map fst es). is \<noteq> [] \<and> set is \<inter> set js = {}"
    by (auto simp: list_all_iff)
  have split: "spell_entries sp (e # es) = (spell sp js, w) # spell_entries sp es"
    by (simp add: spell_entries_def e)
  show ?case
  proof (cases "(ks, v) = e")
    case True
    with js show ?thesis
      unfolding split by (intro trans [OF get_first_hit]) (auto simp: e spell_mem spelled_fst [OF disj])
  next
    case False
    with Cons.prems(2) have mem: "(ks, v) \<in> set es" by simp
    with disj have "set ks \<inter> set js = {}" by force
    with spell_mem [OF js] have "spell sp js \<notin> set ks" by blast
    then show ?thesis
      unfolding split using Cons.IH mem Cons.prems(1) by (simp add: get_first_miss e del: get_first.simps)
  qed
qed simp

definition tx_key_groups :: "string list list" where
  "tx_key_groups =
     [[''chainId'', ''chain_id''], [''gas'', ''gasLimit'', ''gas_limit''],
      [''maxFeePerGas'', ''max_fee_per_gas''], [''maxPriorityFeePerGas'', ''max_priority_fee_per_gas''],
      [''nonce''], [''nonceKey'', ''nonce_key''], [''validBefore'', ''valid_before''],
      [''validAfter'', ''valid_after''], [''feeToken'', ''fee_token''],
      [''awaitingFeePayer'', ''awaiting_fee_payer''], [''calls''], [''accessList'', ''access_list''],
      [''tempoAuthorizationList'', ''tempo_authorization_list'']]"

lemma tx_key_groups_disjoint:
  "disjoint_keys ([''to''] # [''value''] # [''keyAuthorization'', ''key_authorization''] # tx_key_groups)"
  by code_simp

lemma map_fst_tx_entries: "map fst (tx_entries sp t items) = tx_key_groups"
  by (simp add: tx_entries_def tx_key_groups_def)

lemma tx_to_dict_present: "(ks, v) \<in> set (tx_entries sp t items) \<Longrightarrow> get_first (tx_to_dict sp t items) ks x = v"
  unfolding tx_to_dict_def
  by (rule get_first_present) (use tx_key_groups_disjoint in \<open>simp_all add: map_fst_tx_entries\<close>)

lemma tx_to_dict_absent:
  "ks \<in> {[''to''], [''value''], [''keyAuthorization'', ''key_authorization'']} \<Longrightarrow>
     get_first (tx_to_dict sp t items) ks x = x"
  unfolding tx_to_dict_def
  by (rule get_first_absent)
     (use tx_key_groups_disjoint in \<open>auto simp: map_fst_tx_entries list_all_iff\<close>)

text \<open>What each lookup of \<open>from_dict\<close> finds in the dictionary of a transaction.\<close>

lemma tx_to_dict_lookups:
  "get_first (tx_to_dict sp t items) [''calls''] x = PList (map call_to_dict (calls t))"
  "get_first (tx_to_dict sp t items) [''to''] x = x"
  "get_first (tx_to_dict sp t items) [''value''] x = x"
  "get_first (tx_to_dict sp t items) [''accessList'', ''access_list''] x = PList (map (item_to_dict sp) items)"
  "get_first (tx_to_dict sp t items) [''nonceKey'', ''nonce_key''] x = PInt (nonce_key t)"
  "get_first (tx_to_dict sp t items) [''feeToken'', ''fee_token''] x =
     (case fee_token t of None \<Rightarrow> PNone | Some a \<Rightarrow> PBytes a)"
  "get_first (tx_to_dict sp t items) [''chainId'', ''chain_id''] x = PInt (chain_id t)"
  "get_first (tx_to_dict sp t items) [''gas'', ''gasLimit'', ''gas_limit''] x = PInt (gas_limit t)"
  "get_first (tx_to_dict sp t items) [''maxFeePerGas'', ''max_fee_per_gas''] x = PInt (max_fee_per_gas t)"
  "get_first (tx_to_dict sp t items) [''maxPriorityFeePerGas'', ''max_priority_fee_per_gas''] x =
     PInt (max_priority_fee_per_gas t)"
  "get_first (tx_to_dict sp t items) [''nonce''] x = PInt (nonce t)"
  "get_first (tx_to_dict sp t items) [''validBefore'', ''valid_before''] x = int_or_none (valid_before t)"
  "get_first (tx_to_dict sp t items) [''validAfter'', ''valid_after''] x = int_or_none (valid_after t)"
  "get_first (tx_to_dict sp t items) [''awaitingFeePayer'', ''awaiting_fee_payer''] x =
     PBool (awaiting_fee_payer t)"
  "get_first (tx_to_dict sp t items) [''tempoAuthorizationList'', ''tempo_authorization_list''] x =
     PTuple (map PBytes (tempo_authorization_list t))"
  "get_first (tx_to_dict sp t items) [''keyAuthorization'', ''key_authorization''] x = x"
  by (rule tx_to_dict_present tx_to_dict_absent, simp add: tx_entries_def)+

text \<open>
  C25. A transaction survives the trip through a dictionary: reading back the dictionary of an
  unsigned transaction without a key authorization, with any mixture of camelCase and snake_case
  keys and any of the three spellings of the gas limit, gives its fields, each with its own value.
\<close>

theorem from_dict_roundtrip:
  assumes "tx_ok t" "sender_address t = None" "key_authorization t = None"
    and "access_list t = map AccessItem items"
  shows "\<exists>p. from_dict E (tx_to_dict sp t items) = Inr p \<and> typed_tx p t"
proof -
  have ft: "address_opt_ok (fee_token t)" using assms(1) by (simp add: tx_ok_def tx_addresses_ok_def)
  have calls: "mapE (call_from_dict E) (map call_to_dict (calls t)) = Inr (calls t)"
    using assms(1) by (intro mapE_map_Inr [of call_ok]) (simp_all add: tx_ok_def call_from_to_dict)
  have "list_all access_list_item_ok items"
    using assms(1,4) by (simp add: tx_ok_def list_all_iff entry_ok_def)
  then have items: "mapE (access_item_from_dict E) (map (item_to_dict sp) items) = Inr items"
    by (intro mapE_map_Inr [of access_list_item_ok]) (simp_all add: item_from_to_dict)
  have cd: "calls_data_of (tx_to_dict sp t items) = PList (map call_to_dict (calls t))"
    by (simp add: calls_data_of_def tx_to_dict_lookups Let_def del: get_first.simps)
  have seq: "map_sequence f (PList xs) = mapE f xs" for f :: "pyval \<Rightarrow> 'b result" and xs
    by (simp add: map_sequence_def)
  have tok: "as_optional_address E (if (case fee_token t of None \<Rightarrow> PNone | Some a \<Rightarrow> PBytes a) = PNone then None
      else Some (bytes_like_of (case fee_token t of None \<Rightarrow> PNone | Some a \<Rightarrow> PBytes a))) = Inr (fee_token t)"
    using as_optional_address_idem [OF ft] by (cases "fee_token t") simp_all
  show ?thesis
    using calls items tok assms(3,4)
    by (simp add: from_dict_def cd seq tx_to_dict_lookups Let_def typed_tx_def py_or_def
        del: get_first.simps)
qed

definition demo_items :: "access_list_item list" where
  "demo_items = [\<lparr>al_address = replicate 20 4, al_storage_keys = [replicate 32 5]\<rparr>]"

theorem from_dict_roundtrip_witness:
  "\<exists>p. from_dict ref_ext (tx_to_dict (\<lambda>k. k = ''chainId'' \<or> k = ''gas'')
       (demo_tx\<lparr>access_list := map AccessItem demo_items\<rparr>) demo_items) = Inr p \<and>
     p_gas_limit p = PInt 100000"
proof -
  let ?t = "demo_tx\<lparr>access_list := map AccessItem demo_items\<rparr>"
  have "tx_ok ?t"
    by (simp add: demo_defs demo_items_def tx_ok_def tx_addresses_ok_def call_ok_def entry_ok_def
        access_list_item_ok_def)
  moreover have "sender_address ?t = None" "key_authorization ?t = None" "gas_limit ?t = 100000"
    by (simp_all add: demo_defs)
  ultimately show ?thesis
    using from_dict_roundtrip [of ?t demo_items ref_ext "\<lambda>k. k = ''chainId'' \<or> k = ''gas''"]
    by (auto simp: typed_tx_def)
qed

text \<open>
  The legacy single-call form: a dictionary without \<open>calls\<close> but with a target or a non-zero
  value is read as the one with the single call in \<open>calls\<close>; one whose only call data is \<open>data\<close>,
  with no target and no value, is read as a transaction without calls; and where \<open>calls\<close> is not
  empty the legacy keys are ignored.
\<close>

lemma from_dict_legacy_call:
  assumes "map_of d ''calls'' = None"
  shows "(truthy (get_first d [''to''] (PStr '''')) \<or> truthy (get_first d [''value''] (PInt 0)) \<longrightarrow>
      from_dict E d = from_dict E ((''calls'', PList [PDict
        [(''to'', get_first d [''to''] (PStr '''')), (''value'', get_first d [''value''] (PInt 0)),
         (''data'', get_first d [''data''] (PStr ''0x''))]]) # d)) \<and>
    (map_of d ''to'' = None \<and> map_of d ''value'' = None \<longrightarrow>
      (\<forall>p. from_dict E ((''data'', v) # d) = Inr p \<longrightarrow> p_calls p = [])) \<and>
    (cs \<noteq> [] \<longrightarrow> from_dict E ((''to'', a) # (''value'', n) # (''data'', v) # (''calls'', PList cs) # d) =
      from_dict E ((''calls'', PList cs) # d))"
proof -
  have other: "calls_data_of d1 = calls_data_of d2 \<Longrightarrow>
      \<forall>ks x. set ks \<inter> {''calls'', ''to'', ''value'', ''data''} = {} \<longrightarrow> get_first d1 ks x = get_first d2 ks x \<Longrightarrow>
      from_dict E d1 = from_dict E d2" for d1 d2
    by (simp add: from_dict_def del: get_first.simps)
  have noc: "get_first d [''calls''] x = x" for x using assms by simp
  show ?thesis
  proof (intro conjI impI allI)
    assume "truthy (get_first d [''to''] (PStr '''')) \<or> truthy (get_first d [''value''] (PInt 0))"
    then show "from_dict E d = from_dict E ((''calls'', PList [PDict
        [(''to'', get_first d [''to''] (PStr '''')), (''value'', get_first d [''value''] (PInt 0)),
         (''data'', get_first d [''data''] (PStr ''0x''))]]) # d)"
      using noc by (intro other) (auto simp: calls_data_of_def Let_def get_first_miss)
  next
    fix p assume none: "map_of d ''to'' = None \<and> map_of d ''value'' = None"
      and p: "from_dict E ((''data'', v) # d) = Inr p"
    have "calls_data_of ((''data'', v) # d) = PList []"
      using none assms by (simp add: calls_data_of_def)
    with p show "p_calls p = []"
      by (auto simp: from_dict_def map_sequence_def bindE_Inr_conv Let_def simp del: get_first.simps)
  next
    assume "cs \<noteq> []"
    then show "from_dict E ((''to'', a) # (''value'', n) # (''data'', v) # (''calls'', PList cs) # d) =
      from_dict E ((''calls'', PList cs) # d)"
      by (intro other) (auto simp: calls_data_of_def get_first_miss)
  qed
qed

end
