(* ===== verification/Initialise.thy ===== *)
theory Initialise
  imports Cli ComposeReturns
begin

text \<open>
  \<open>init\<close> from end to end: given a generator that does its part, \<open>init\<close> returns, with or without a compose
  file, and leaves the devnet that \<open>start\<close> runs, with the keys the generator made.
\<close>

section \<open>Directories that exist\<close>

lemma make_dir_keeps_dir: "make_dir p F = (Inr u, G) \<Longrightarrow> is_dir F q \<Longrightarrow> is_dir G q"
  using make_dir_Inr [of p F u G] by (auto simp: is_dir_def simp del: split_paired_All)

lemma make_dirs_from_keeps_dir: "make_dirs_from p xs F = (Inr u, G) \<Longrightarrow> is_dir F q \<Longrightarrow> is_dir G q"
proof (induction xs arbitrary: p F)
  case (Cons x xs)
  then obtain F1 where "make_dir (fst p, snd p @ [x]) F = (Inr (), F1)"
    "make_dirs_from (fst p, snd p @ [x]) xs F1 = (Inr u, G)" by (auto simp: bindA_Inr_conv)
  then show ?case using Cons.IH make_dir_keeps_dir Cons.prems(2) by blast
qed (simp add: pureA_conv)

lemma make_dirs_from_dirs:
  "make_dirs_from p xs F = (Inr u, G) \<Longrightarrow> 0 < k \<Longrightarrow> k \<le> length xs \<Longrightarrow> is_dir G (fst p, snd p @ take k xs)"
proof (induction xs arbitrary: p F k)
  case (Cons x xs)
  then obtain F1 where d: "make_dir (fst p, snd p @ [x]) F = (Inr (), F1)"
    and rest: "make_dirs_from (fst p, snd p @ [x]) xs F1 = (Inr u, G)" by (auto simp: bindA_Inr_conv)
  obtain j where j: "k = Suc j" using Cons.prems(2) by (cases k) auto
  show ?case
  proof (cases "j = 0")
    case True
    have "is_dir F1 (fst p, snd p @ [x])" using make_dir_Inr [OF d] by blast
    then show ?thesis using make_dirs_from_keeps_dir [OF rest] j True by simp
  next
    case False
    then show ?thesis using Cons.IH [OF rest, of j] Cons.prems(3) j by simp
  qed
qed simp

text \<open>Making a directory again changes nothing.\<close>

lemma make_dirs_again: "make_dirs p F = (Inr u, G) \<Longrightarrow> make_dirs p G = (Inr (), G)"
  unfolding make_dirs_def by (rule make_dirs_from_there) (rule make_dirs_from_dirs)

lemma prepared_data_dir: "prepare_data_dir D force F = (Inr u, G) \<Longrightarrow> make_dirs D G = (Inr (), G)"
  by (auto simp: prepare_data_dir_def bindA_Inr_conv intro: make_dirs_again split: if_splits)

section \<open>The layout the generator leaves\<close>

definition devnet_names :: "string list" where
  "devnet_names = ''devnet.yaml'' # devnet_files"

text \<open>
  The generator made the genesis file and a directory for every socket; nothing is under a moniker and
  no directory has the name of a file of the devnet.
\<close>

definition fresh_layout ::
    "host \<Rightarrow> devnet_config \<Rightarrow> path \<Rightarrow> bool \<Rightarrow> (string \<times> string) list \<Rightarrow> string list \<Rightarrow> fs \<Rightarrow> bool" where
  "fresh_layout H c D docker moves ns K \<longleftrightarrow>
     map (socket_name H c docker) (nodes_of_config c) = map (Inr \<circ> fst) moves \<and>
     map vc_moniker (dc_validators c) = map (PStr \<circ> snd) moves \<and>
     list_all (\<lambda>(s, m). plain_name s \<and> plain_name m \<and> m \<notin> set devnet_names) moves \<and>
     distinct (map fst moves @ map snd moves) \<and>
     list_all (\<lambda>(s, m). node_at K (sib D s) = Some Folder) moves \<and>
     list_all (\<lambda>(q, _). case child D q of None \<Rightarrow> True | Some y \<Rightarrow> y \<notin> set (map snd moves)) K \<and>
     path_exists K (sib D ''genesis.json'') \<and> writable devnet_names D [] ns K"

lemma fresh_layout_names:
  assumes "fresh_layout H c D docker moves ns K"
  shows "node_names c = map snd moves" and "list_all named_node (nodes_of_config c)"
    and "distinct (map node_name (nodes_of_config c))"
proof -
  have m: "map vc_moniker (dc_validators c) = map (PStr \<circ> snd) moves"
    and plain: "list_all (\<lambda>(s, m). plain_name m) moves" and d: "distinct (map snd moves)"
    using assms by (auto simp: fresh_layout_def list_all_iff)
  have "node_names c = map py_str (map vc_moniker (dc_validators c))" by (simp add: node_names_def)
  then show n: "node_names c = map snd moves" by (simp add: m comp_def)
  then show "distinct (map node_name (nodes_of_config c))" using d by (simp add: node_names_eq)
  have "named_node (i, v)" if "(i, v) \<in> set (nodes_of_config c)" for i v
  proof -
    have "v \<in> set (dc_validators c)" using that by (auto simp: nodes_of_config_def dest: set_zip_rightD)
    then have "vc_moniker v \<in> set (map (PStr \<circ> snd) moves)" unfolding m [symmetric] by simp
    then show ?thesis using plain by (auto simp: named_node_def list_all_iff)
  qed
  then show "list_all named_node (nodes_of_config c)" by (auto simp: list_all_iff)
qed

lemma writable_fewer: "writable W D ms ns F \<Longrightarrow> set V \<subseteq> set W \<Longrightarrow> writable V D ms ns F"
  unfolding writable_iff by blast

lemma child_SomeD: "child D p = Some y \<Longrightarrow> \<exists>rest. p = (fst D, snd D @ y # rest)"
proof -
  assume y: "child D p = Some y"
  then have "path_under D p" "length (snd D) < length (snd p)" "y = snd p ! length (snd D)"
    by (auto simp: child_def split: if_splits)
  then have "fst p = fst D" "snd p = snd D @ y # drop (Suc (length (snd D))) (snd p)"
    using id_take_nth_drop [of "length (snd D)" "snd p"] by (simp_all add: path_under_def)
  then have "p = (fst D, snd D @ y # drop (Suc (length (snd D))) (snd p))" by (metis prod.collapse)
  then show ?thesis by blast
qed

lemma child_entry: "child D (sib D x) \<in> Some ` A \<longleftrightarrow> x \<in> A"
  by auto

text \<open>Moving directories of harmless names leaves every directory writable.\<close>

lemma writable_moved:
  assumes K: "writable W D [] ns K" and names: "\<And>s m. (s, m) \<in> set moves \<Longrightarrow> m \<notin> set W"
    and dirs: "\<And>s m. (s, m) \<in> set moves \<Longrightarrow> node_at K (sib D s) = Some Folder"
    and moved: "\<And>s m rest. (s, m) \<in> set moves \<Longrightarrow>
      node_at G (fst D, snd D @ m # rest) = node_at K (fst D, snd D @ s # rest) \<and>
      node_at G (fst D, snd D @ s # rest) = None"
    and same: "\<And>q. child D q \<notin> Some ` set (map fst moves @ map snd moves) \<Longrightarrow> node_at G q = node_at K q"
  shows "writable W D (map snd moves) ns G"
  unfolding writable_iff
proof (intro conjI allI impI ballI)
  note K' = K [unfolded writable_iff]
  fix p assume p: "node_at G p = Some Folder"
  show "path_name p \<notin> set W"
  proof (cases "child D p \<in> Some ` set (map fst moves @ map snd moves)")
    case False
    then show ?thesis using same p K' by (metis (no_types))
  next
    case True
    then obtain s m y where sm: "(s, m) \<in> set moves" "child D p = Some y" "y = s \<or> y = m" by force
    obtain rest where rest: "p = (fst D, snd D @ y # rest)" using child_SomeD [OF sm(2)] by blast
    with sm(3) p moved [OF sm(1), of rest] have m: "y = m" "node_at K (fst D, snd D @ s # rest) = Some Folder" by auto
    then have "path_name (fst D, snd D @ s # rest) \<notin> set W" using K' by blast
    then show ?thesis using rest m(1) names [OF sm(1)] by (auto simp: path_name_def)
  qed
next
  fix k assume "k \<le> length (snd D)"
  then have "child D (fst D, take k (snd D)) = None" by (simp add: child_def)
  then have "node_at G (fst D, take k (snd D)) = node_at K (fst D, take k (snd D))" by (intro same) auto
  then show "is_dir G (fst D, take k (snd D))"
    using K \<open>k \<le> length (snd D)\<close> is_dir_cong by (metis writable_prefix)
next
  fix m assume "m \<in> set (map snd moves)"
  then obtain s where "(s, m) \<in> set moves" by auto
  then show "is_dir G (sib D m)" using moved [of s m "[]"] dirs by (simp add: is_dir_def sib_def)
next
  fix m assume m: "m \<in> set ns"
  then show "m \<notin> set W" using K by (simp add: writable_iff)
  have "node_at G (sib D m) = node_at K (sib D m) \<or> node_at G (sib D m) = None \<or> node_at G (sib D m) = Some Folder"
  proof (cases "child D (sib D m) \<in> Some ` set (map fst moves @ map snd moves)")
    case True
    then obtain s n where sm: "(s, n) \<in> set moves" "m = s \<or> m = n" by force
    then show ?thesis using moved [OF sm(1), of "[]"] dirs [OF sm(1)] by (auto simp: sib_def)
  qed (use same in blast)
  then show "case node_at G (sib D m) of Some (TextFile _) \<Rightarrow> False | _ \<Rightarrow> True"
    using m K by (auto simp: writable_iff)
qed

lemma layout_ready:
  assumes lay: "fresh_layout H c D docker moves ns K"
  obtains G where "prepare_layout H TempoBackend c D docker K = (Inr (), G)"
    "\<forall>(s, m) \<in> set moves. \<forall>rest. node_at G (fst D, snd D @ m # rest) = node_at K (fst D, snd D @ s # rest)"
    "writable devnet_names D (node_names c) ns G"
    "node_at G (sib D ''genesis.json'') = node_at K (sib D ''genesis.json'')"
proof -
  have K: "writable devnet_names D [] ns K" using lay by (simp add: fresh_layout_def)
  have fresh: "list_all (\<lambda>(s, m). \<forall>q. child D q = Some m \<longrightarrow> node_at K q = None) moves"
    unfolding list_all_iff
  proof (intro ballI, clarify)
    fix s m q assume sm: "(s, m) \<in> set moves" "child D q = Some m"
    have "\<forall>(q, _) \<in> set K. case child D q of None \<Rightarrow> True | Some y \<Rightarrow> y \<notin> set (map snd moves)"
      using lay unfolding fresh_layout_def list_all_iff by (elim conjE)
    then have "case child D q of None \<Rightarrow> True | Some y \<Rightarrow> y \<notin> set (map snd moves)" if "(q, n) \<in> set K" for n
      using that by blast
    moreover have "m \<in> set (map snd moves)" using sm(1) by force
    ultimately have "(q, n) \<notin> set K" for n using sm(2) by auto
    then show "node_at K q = None" using map_of_SomeD by (metis option.exhaust)
  qed
  from lay have names: "map (socket_name H c docker) (zip [0..<length (dc_validators c)] (dc_validators c)) =
      map (Inr \<circ> fst) moves" "map vc_moniker (dc_validators c) = map (PStr \<circ> snd) moves"
    and d: "distinct (map fst moves @ map snd moves)"
    and dirs: "list_all (\<lambda>(s, m). node_at K (sib D s) = Some Folder) moves"
    unfolding fresh_layout_def nodes_of_config_def by simp_all
  from lay have m: "list_all (\<lambda>(s, m). plain_name s \<and> plain_name m) moves"
    by (auto simp: fresh_layout_def list_all_iff)
  obtain G where G: "prepare_layout H TempoBackend c D docker K = (Inr (), G)"
    and moved: "\<forall>(s, m) \<in> set moves. \<forall>rest. node_at G (fst D, snd D @ m # rest) = node_at K (fst D, snd D @ s # rest) \<and>
      node_at G (fst D, snd D @ s # rest) = None"
    and same: "\<And>q. child D q \<notin> Some ` set (map fst moves @ map snd moves) \<Longrightarrow> node_at G q = node_at K q"
    using prepare_layout_done [OF names m d writable_dir [OF K] dirs fresh] unfolding case_prod_unfold by meson
  have W: "writable devnet_names D (node_names c) ns G"
    unfolding fresh_layout_names(1) [OF lay]
    by (rule writable_moved [OF K _ _ _ same])
      (use lay moved in \<open>auto simp: fresh_layout_def list_all_iff simp del: split_paired_All\<close>)
  have "''genesis.json'' \<noteq> s \<and> ''genesis.json'' \<noteq> m" if "(s, m) \<in> set moves" for s m
  proof -
    have "node_at K (sib D s) = Some Folder" using lay that by (auto simp: fresh_layout_def list_all_iff)
    then have "s \<notin> set devnet_names" using writable_no_folder [OF K, of "sib D s"] by auto
    moreover have "m \<notin> set devnet_names" using lay that by (auto simp: fresh_layout_def list_all_iff)
    ultimately show ?thesis by (auto simp: devnet_names_def devnet_file)
  qed
  then have "''genesis.json'' \<notin> set (map fst moves @ map snd moves)" by force
  then have "child D (sib D ''genesis.json'') \<notin> Some ` set (map fst moves @ map snd moves)"
    by (simp only: child_entry not_False_eq_True)
  show ?thesis by (rule that [OF G _ W same [OF \<open>child D (sib D ''genesis.json'') \<notin> _\<close>]])
      (use moved in \<open>auto simp del: split_paired_All\<close>)
qed

section \<open>The steps of \<open>init\<close>\<close>

lemma localnet_total:
  assumes "make_dirs D F0 = (Inr (), F0)" "get_backend c = Inr TempoBackend"
    and "texts_of (localnet_args TempoBackend c D override) = Inr args" "xtask H args F0 = (Inr 0, K)"
    and "prepare_layout H TempoBackend c D docker K = (Inr (), G)" "path_exists K (sib D ''genesis.json'')"
  shows "generate_localnet H c D override docker F0 = (Inr (sib D ''genesis.json''), G)"
  using assms by (simp add: generate_localnet_def file_paths bindA_def pureA_def readA_def)

lemma save_total:
  assumes "writable devnet_names D ms ns F" "config_to_dict c = Inr d" "snd (yaml_dump H True d) = None"
  obtains G where "save_config H c (sib D ''devnet.yaml'') F = (Inr (), G)" "writable devnet_names D ms ns G"
    "unchanged {sib D ''devnet.yaml''} F G"
proof -
  have "delivers (writable devnet_names D ms ns) (dump_file (sib D ''devnet.yaml'') (yaml_dump H True d))
      (\<lambda>_. writable devnet_names D ms ns)"
    by (rule delivers_dump [OF delivers_entry(1) assms(3)]) (simp add: devnet_names_def)
  from deliversE [OF this assms(1)] obtain u G where
    "dump_file (sib D ''devnet.yaml'') (yaml_dump H True d) F = (Inr u, G)" "writable devnet_names D ms ns G" .
  with unchanged_dump show ?thesis by (intro that [of G]) (simp_all add: save_config_def assms(2))
qed

lemma genesis_patchable_cong:
  "node_at G (sib D ''genesis.json'') = node_at F (sib D ''genesis.json'') \<Longrightarrow>
     launchable H c D G = launchable H c D F"
  by (simp add: launchable_def genesis_patchable_def)

lemma devnet_complete_keeps:
  assumes "devnet_complete c D F K" "keeps W K G" "''supervisord.ini'' \<notin> W" "''run.sh'' \<notin> W"
  shows "devnet_complete c D F G"
proof -
  have "node_written b c D peers G e" if "node_written b c D peers K e" for b peers e
    using that by (auto simp: node_written_def split: prod.splits dest: keeps_at [OF assms(2) _ assms(4)])
  then show ?thesis
    using assms(1) keeps_at [OF assms(2) _ assms(3)] unfolding devnet_complete_def list_all_iff by blast
qed

text \<open>What becomes of the entries of a directory that is moved to its moniker.\<close>

definition entries_moved :: "path \<Rightarrow> (string \<times> string) list \<Rightarrow> fs \<Rightarrow> fs \<Rightarrow> bool" where
  "entries_moved D moves K G \<longleftrightarrow>
     (\<forall>(s, m) \<in> set moves. \<forall>rest. node_at G (fst D, snd D @ m # rest) = node_at K (fst D, snd D @ s # rest))"

lemma entries_moved_unchanged:
  assumes "entries_moved D moves K F" "unchanged {sib D ''devnet.yaml''} F G"
    and "list_all (\<lambda>(s, m). m \<notin> set devnet_names) moves"
  shows "entries_moved D moves K G"
proof -
  have "node_at G (fst D, snd D @ m # rest) = node_at F (fst D, snd D @ m # rest)" if "(s, m) \<in> set moves" for s m rest
  proof (rule unchangedD [OF assms(2)])
    have "m \<noteq> ''devnet.yaml''" using assms(3) that by (auto simp: list_all_iff devnet_names_def)
    then show "(fst D, snd D @ m # rest) \<notin> {sib D ''devnet.yaml''}" by (simp add: sib_def)
  qed
  then show ?thesis using assms(1) by (fastforce simp: entries_moved_def)
qed

text \<open>The files of the nodes that are not written again.\<close>

definition keys_kept :: "path \<Rightarrow> (string \<times> string) list \<Rightarrow> fs \<Rightarrow> fs \<Rightarrow> bool" where
  "keys_kept D moves K G \<longleftrightarrow>
     (\<forall>(s, m) \<in> set moves. \<forall>rest n. node_at K (fst D, snd D @ s # rest) = Some n \<longrightarrow>
        n = Folder \<or> path_name (fst D, snd D @ m # rest) \<notin> supervisor_outputs \<union> compose_outputs \<longrightarrow>
        node_at G (fst D, snd D @ m # rest) = Some n)"

lemma keys_keptI:
  assumes "entries_moved D moves K F" "keeps supervisor_outputs F F2" "keeps compose_outputs F2 G"
  shows "keys_kept D moves K G"
proof -
  have "node_at G p = Some n" if "node_at F p = Some n"
    "n = Folder \<or> path_name p \<notin> supervisor_outputs \<union> compose_outputs" for p n
    using keepsD [OF assms(3) keepsD [OF assms(2) that(1)]] that(2) by blast
  then show ?thesis using assms(1) by (fastforce simp: keys_kept_def entries_moved_def)
qed

text \<open>The last two steps.\<close>

lemma compose_step_total:
  assumes "writable devnet_files D (node_names c) (if gen then map aux_name (all_aux c) else []) F"
    and "list_all named_node (nodes_of_config c)" "dc_backend c = PStr ''tempo''"
    and "gen \<longrightarrow> list_all named_aux (all_aux c) \<and> dockable H c \<and> (\<forall>doc. snd (dump doc) = None)"
  obtains G where "(if gen then bindA (generate_docker_compose H dump c D True) (\<lambda>_. pureA (Inr ()))
      else pureA (Inr ())) F = (Inr (), G)" "keeps compose_outputs F G"
    "gen \<longrightarrow> (\<exists>doc. fst (compose_document H c D F) = Inr doc \<and> compose_complete H dump c D doc F G)"
proof (cases gen)
  case False
  then show ?thesis by (intro that [of F]) (simp_all add: pureA_def kept.unchanged_ok)
next
  case True
  then have "well_named c" "dockable H c" "py_eq (dc_backend c) (PStr ''tempo'')" "service_dirs c D F"
    using assms by (simp_all add: well_named_def)
  from compose_total [OF this(4,1,2,3), of dump] True assms(4) obtain doc K G where
    g: "compose_document H c D F = (Inr doc, K)"
      "generate_docker_compose H dump c D True F = (Inr (sib D ''docker-compose.yaml''), G)"
      "compose_complete H dump c D doc F G" by auto
  have "keeps compose_outputs F G" using generate_compose_keeps [of F H dump c D True] g(2) by simp
  with True g show ?thesis by (intro that [of G]) (simp_all add: bindA_def pureA_def)
qed

section \<open>\<open>init\<close> returns\<close>

text \<open>The validators handed to the generator in Docker mode.\<close>

abbreviation genesis_validators :: "host \<Rightarrow> devnet_config \<Rightarrow> bool \<Rightarrow> string option result" where
  "genesis_validators H c gen \<equiv>
     (if gen then bindE (docker_validators_arg (other_ip H) c) (\<lambda>a. Inr (Some a)) else Inr None)"

lemma init_steps:
  assumes "check_init E H config gen overrides F = Inr c" "prepare_data_dir D force F = (Inr (), F0)"
    and "genesis_validators H c gen = Inr override"
    and "generate_localnet H c D override gen F0 = (Inr (sib D ''genesis.json''), F1)"
    and "save_config H c (sib D ''devnet.yaml'') F1 = (Inr (), F2)"
    and "generate_supervisor_config H c D True F2 = (Inr p, F3)"
    and "(if gen then bindA (generate_docker_compose H dump c D True) (\<lambda>_. pureA (Inr ())) else pureA (Inr ())) F3 =
      (Inr (), G)"
  shows "init_devnet E H dump D config force gen overrides F = (Inr (), G)"
  unfolding init_devnet_def bindA_Inr_conv readA_conv pureA_conv file_paths
  using assms by (auto simp: exit_on_runtime_error_def)

lemma init_total:
  assumes check: "check_init E H config gen overrides F = Inr c" and backend: "dc_backend c = PStr ''tempo''"
    and dir: "prepare_data_dir D force F = (Inr (), F0)"
    and override: "genesis_validators H c gen = Inr override"
    and args: "texts_of (localnet_args TempoBackend c D override) = Inr args"
    and tool: "xtask H args F0 = (Inr 0, K)"
    and layout: "fresh_layout H c D gen moves (if gen then map aux_name (all_aux c) else []) K"
    and launch: "launchable H c D K"
    and dock: "gen \<longrightarrow> list_all named_aux (all_aux c) \<and> dockable H c \<and> (\<forall>doc. snd (dump doc) = None)"
    and saved: "config_to_dict c = Inr d" "snd (yaml_dump H True d) = None"
  obtains F1 F2 G where "init_devnet E H dump D config force gen overrides F = (Inr (), G)"
    "entries_moved D moves K F1" "devnet_complete c D F1 G" "keys_kept D moves K G"
    "keeps supervisor_outputs F1 F2"
    "gen \<longrightarrow> (\<exists>doc. fst (compose_document H c D F2) = Inr doc \<and> compose_complete H dump c D doc F2 G)"
proof -
  let ?ns = "if gen then map aux_name (all_aux c) else []"
  have b: "get_backend c = Inr TempoBackend" using backend by (simp add: get_backend_def)
  have genesis: "path_exists K (sib D ''genesis.json'')" using layout by (simp add: fresh_layout_def)
  note named = fresh_layout_names(2) [OF layout]
  obtain L where L: "prepare_layout H TempoBackend c D gen K = (Inr (), L)"
    and moved: "entries_moved D moves K L" and wL: "writable devnet_names D (node_names c) ?ns L"
    and same: "node_at L (sib D ''genesis.json'') = node_at K (sib D ''genesis.json'')"
    by (rule layout_ready [OF layout, folded entries_moved_def])
  note local = localnet_total [OF prepared_data_dir [OF dir] b args tool L genesis]
  obtain F1 where save: "save_config H c (sib D ''devnet.yaml'') L = (Inr (), F1)"
    and w1: "writable devnet_names D (node_names c) ?ns F1" and un: "unchanged {sib D ''devnet.yaml''} L F1"
    using wL saved by (rule save_total)
  have "list_all (\<lambda>(s, m). m \<notin> set devnet_names) moves" using layout by (auto simp: fresh_layout_def list_all_iff)
  with moved un have moved1: "entries_moved D moves K F1" by (rule entries_moved_unchanged)
  have "node_at F1 (sib D ''genesis.json'') = node_at K (sib D ''genesis.json'')"
    using unchangedD [OF un, of "sib D ''genesis.json''"] same by simp
  from genesis_patchable_cong [OF this] launch have launch1: "launchable H c D F1" by simp
  have "writable devnet_files D (node_names c) ?ns F1"
    using w1 by (rule writable_fewer) (auto simp: devnet_names_def)
  from supervisor_total [OF this named launch1] obtain F2 where
    sup: "generate_supervisor_config H c D True F1 = (Inr (sib D ''supervisord.ini''), F2)"
    and complete: "devnet_complete c D F1 F2" and w2: "writable devnet_files D (node_names c) ?ns F2" by blast
  obtain G where tail: "(if gen then bindA (generate_docker_compose H dump c D True) (\<lambda>_. pureA (Inr ()))
      else pureA (Inr ())) F2 = (Inr (), G)" and keep: "keeps compose_outputs F2 G"
    and docked: "gen \<longrightarrow> (\<exists>doc. fst (compose_document H c D F2) = Inr doc \<and> compose_complete H dump c D doc F2 G)"
    using w2 named backend dock by (rule compose_step_total)
  have k12: "keeps supervisor_outputs F1 F2" using keeps_supervisor sup by (rule guaranteesD)
  with moved1 have kept: "keys_kept D moves K G" using keep by (rule keys_keptI)
  have "devnet_complete c D F1 G"
    using complete keep by (rule devnet_complete_keeps) (simp_all add: compose_outputs_def)
  then show ?thesis
    by (rule that [OF init_steps [OF check dir override local save sup tail] moved1 _ kept k12 docked])
qed

text \<open>
  C33. \<open>init\<close> gets a devnet going. Take a configuration of the \<open>tempo\<close> backend that passes the checks, a data
  directory that can be prepared, and a generator that succeeds and leaves a genesis file and one
  directory per validator socket. If the values can be launched (and placed, with a compose file), \<open>init\<close>
  returns; everything the generator made for a socket is under the moniker of its validator, keys
  included; the supervisor configuration and the node scripts are complete, with the peers of the
  identities the generator made; with a compose file, that is complete too; and \<open>start\<close> runs.
\<close>

theorem init_leaves_devnet:
  assumes "check_init E H config gen overrides F = Inr c" "dc_backend c = PStr ''tempo''"
    and "prepare_data_dir D force F = (Inr (), F0)"
    and "genesis_validators H c gen = Inr override"
    and "texts_of (localnet_args TempoBackend c D override) = Inr args"
    and "xtask H args F0 = (Inr 0, K)"
    and "fresh_layout H c D gen moves (if gen then map aux_name (all_aux c) else []) K"
    and "launchable H c D K"
    and "gen \<longrightarrow> list_all named_aux (all_aux c) \<and> dockable H c \<and> (\<forall>doc. snd (dump doc) = None)"
    and "config_to_dict c = Inr d" "snd (yaml_dump H True d) = None"
  shows "\<exists>F1 F2 G. init_devnet E H dump D config force gen overrides F = (Inr (), G) \<and>
    entries_moved D moves K F1 \<and> devnet_complete c D F1 G \<and> keys_kept D moves K G \<and>
    keeps supervisor_outputs F1 F2 \<and>
    (gen \<longrightarrow> (\<exists>doc. fst (compose_document H c D F2) = Inr doc \<and> compose_complete H dump c D doc F2 G)) \<and>
    start_devnet E D G =
      Inr [env_python E, ''-m'', ''supervisor.supervisord'', ''-c'', path_text (sib D ''supervisord.ini'')]"
proof -
  obtain F1 F2 G where G: "init_devnet E H dump D config force gen overrides F = (Inr (), G)"
    "entries_moved D moves K F1" "devnet_complete c D F1 G" "keys_kept D moves K G"
    "keeps supervisor_outputs F1 F2"
    "gen \<longrightarrow> (\<exists>doc. fst (compose_document H c D F2) = Inr doc \<and> compose_complete H dump c D doc F2 G)"
    using assms by (rule init_total)
  from G(3) have "path_exists G (sib D ''supervisord.ini'')" by (auto simp: devnet_complete_def path_exists_def)
  then have "start_devnet E D G =
      Inr [env_python E, ''-m'', ''supervisor.supervisord'', ''-c'', path_text (sib D ''supervisord.ini'')]"
    by (simp add: start_devnet_def SUPERVISOR_CONFIG_FILE_def file_paths)
  with G show ?thesis by blast
qed

text \<open>A generator for the devnet of \<open>demo_docker\<close>: the genesis file and the directory of the one validator.\<close>

definition demo_docker_tools :: host where
  "demo_docker_tools = demo_host\<lparr>
     xtask := (\<lambda>args F. (Inr 0, fs_put (sib demo_root ''genesis.json'') (TextFile ''{}'')
                 (fs_put (sib (sib demo_root ''0.0.0.10:8000'') ''signing.key'') (TextFile ''k'')
                   (fs_put (sib demo_root ''0.0.0.10:8000'') Folder F)))),
     yaml_load := (\<lambda>s. Inr demo_docker)\<rparr>"

lemma demo_init_ready:
  "case check_init demo_env demo_docker_tools (''/'', [''c.yaml'']) True [] demo_start_fs of
     Inl e \<Rightarrow> False
   | Inr c \<Rightarrow>
       dc_backend c = PStr ''tempo'' \<and>
       (case prepare_data_dir demo_root False demo_start_fs of
          (Inl e, F0) \<Rightarrow> False
        | (Inr u, F0) \<Rightarrow>
            (case genesis_validators demo_docker_tools c True of
               Inl e \<Rightarrow> False
             | Inr override \<Rightarrow>
                 (case texts_of (localnet_args TempoBackend c demo_root override) of
                    Inl e \<Rightarrow> False
                  | Inr args \<Rightarrow>
                      (case xtask demo_docker_tools args F0 of
                         (Inl e, K) \<Rightarrow> False
                       | (Inr code, K) \<Rightarrow>
                           code = 0 \<and> fresh_layout demo_docker_tools c demo_root True
                             [(''0.0.0.10:8000'', ''node0'')] (map aux_name (all_aux c)) K \<and>
                           launchable demo_docker_tools c demo_root K)))) \<and>
       list_all named_aux (all_aux c) \<and> dockable demo_docker_tools c \<and>
       (case config_to_dict c of Inl e \<Rightarrow> False | Inr d \<Rightarrow> snd (yaml_dump demo_docker_tools True d) = None)"
  by code_simp

lemma case_InrE: "case r of Inl e \<Rightarrow> False | Inr a \<Rightarrow> P a \<Longrightarrow> (\<And>a. r = Inr a \<Longrightarrow> P a \<Longrightarrow> thesis) \<Longrightarrow> thesis"
  by (cases r) simp_all

lemma case_actE:
  "case x of (Inl e, F) \<Rightarrow> False | (Inr a, F) \<Rightarrow> P a F \<Longrightarrow> (\<And>a F. x = (Inr a, F) \<Longrightarrow> P a F \<Longrightarrow> thesis) \<Longrightarrow> thesis"
  by (cases x; cases "fst x") auto

lemma case_unitE:
  "case x of (Inl e, F) \<Rightarrow> False | (Inr u, F) \<Rightarrow> P F \<Longrightarrow> (\<And>F. x = (Inr (), F) \<Longrightarrow> P F \<Longrightarrow> thesis) \<Longrightarrow> thesis"
  by (cases x; cases "fst x") auto

lemma demo_init_config:
  obtains c F0 override args K d where
    "check_init demo_env demo_docker_tools (''/'', [''c.yaml'']) True [] demo_start_fs = Inr c"
    "dc_backend c = PStr ''tempo''" "prepare_data_dir demo_root False demo_start_fs = (Inr (), F0)"
    "genesis_validators demo_docker_tools c True = Inr override"
    "texts_of (localnet_args TempoBackend c demo_root override) = Inr args"
    "xtask demo_docker_tools args F0 = (Inr 0, K)"
    "fresh_layout demo_docker_tools c demo_root True [(''0.0.0.10:8000'', ''node0'')] (map aux_name (all_aux c)) K"
    "launchable demo_docker_tools c demo_root K" "list_all named_aux (all_aux c)" "dockable demo_docker_tools c"
    "config_to_dict c = Inr d" "snd (yaml_dump demo_docker_tools True d) = None"
  by (rule case_InrE [OF demo_init_ready], elim conjE, erule case_InrE [where r = "config_to_dict _"], erule case_unitE,
      erule case_InrE, erule case_InrE, erule case_actE, elim conjE, hypsubst, rule that; assumption)

theorem init_leaves_devnet_witness:
  "\<exists>c F1 G. check_init demo_env demo_docker_tools (''/'', [''c.yaml'']) True [] demo_start_fs = Inr c \<and>
     init_devnet demo_env demo_docker_tools (\<lambda>doc. (''x'', None)) demo_root (''/'', [''c.yaml'']) False True []
       demo_start_fs = (Inr (), G) \<and>
     devnet_complete c demo_root F1 G \<and> \<not> isl (start_devnet demo_env demo_root G)"
proof -
  obtain c F0 override args K d where
    c: "check_init demo_env demo_docker_tools (''/'', [''c.yaml'']) True [] demo_start_fs = Inr c"
    "dc_backend c = PStr ''tempo''" "prepare_data_dir demo_root False demo_start_fs = (Inr (), F0)"
    "genesis_validators demo_docker_tools c True = Inr override"
    "texts_of (localnet_args TempoBackend c demo_root override) = Inr args"
    "xtask demo_docker_tools args F0 = (Inr 0, K)"
    "fresh_layout demo_docker_tools c demo_root True [(''0.0.0.10:8000'', ''node0'')] (map aux_name (all_aux c)) K"
    "launchable demo_docker_tools c demo_root K"
    and aux: "list_all named_aux (all_aux c)" "dockable demo_docker_tools c"
    and d: "config_to_dict c = Inr d" "snd (yaml_dump demo_docker_tools True d) = None" by (rule demo_init_config)
  let ?dump = "\<lambda>doc :: compose. (''x'', None :: py_error option)"
  have dock: "True \<longrightarrow> list_all named_aux (all_aux c) \<and> dockable demo_docker_tools c \<and> (\<forall>doc. snd (?dump doc) = None)"
    using aux by simp
  have layout: "fresh_layout demo_docker_tools c demo_root True [(''0.0.0.10:8000'', ''node0'')]
      (if True then map aux_name (all_aux c) else []) K" using c(7) by (simp only: if_True)
  from init_leaves_devnet [OF c(1-6) layout c(8) dock d] c(1) show ?thesis by fastforce
qed

end
