(* ===== verification/ModelProps.thy ===== *)
theory ModelProps
  imports Samples
begin

text \<open>
  Properties of the coercions of \<open>tempo/types.py\<close> and of the value classes of \<open>tempo/models.py\<close>.
\<close>

section \<open>Coercions\<close>

text \<open>
  The coercions agree: on every argument \<open>as_address\<close> is \<open>as_bytes\<close> restricted to 0 or 20 bytes,
  it accepts the canonical hex text of any 20 bytes and returns those bytes, \<open>as_optional_address\<close>
  turns every spelling of the empty address into \<open>None\<close> and returns nothing that is not 20 bytes,
  and what is neither text nor bytes is a \<open>TypeError\<close> for all of them.
\<close>

lemma coercions_agree:
  assumes "hexstr_ok E"
  shows "as_address E v =
      bindE (as_bytes E v) (\<lambda>b. if length b \<in> {0, 20} then Inr b
        else Inl (ValueError ''address must be 20 bytes (or empty)'')) \<and>
    (length b = 20 \<longrightarrow> as_address E (BStr (''0x'' @ bytes_hex b)) = Inr b) \<and>
    as_optional_address E (Some v) =
      bindE (as_address E v) (\<lambda>a. Inr (if a = [] then None else Some a)) \<and>
    (\<forall>a. as_optional_address E (Some v) = Inr (Some a) \<longrightarrow> length a = 20) \<and>
    as_address E (BOther t) = type_error \<and> as_bytes E (BOther t) = type_error \<and>
    as_hash32 E (BOther t) = type_error"
proof (intro conjI)
  show "as_address E v = bindE (as_bytes E v) (\<lambda>b. if length b \<in> {0, 20} then Inr b
        else Inl (ValueError ''address must be 20 bytes (or empty)''))"
    by (cases "as_bytes E v") (auto simp: as_address_via_as_bytes address_of_bytes_def)
  have "bytes_hex b \<noteq> []" if "length b = 20" using that by (cases b) auto
  then show "length b = 20 \<longrightarrow> as_address E (BStr (''0x'' @ bytes_hex b)) = Inr b"
    using assms by (simp add: as_address_def hexstr_ok_def)
  show "as_optional_address E (Some v) =
      bindE (as_address E v) (\<lambda>a. Inr (if a = [] then None else Some a))"
    by (cases "as_bytes E v")
       (auto simp: as_optional_address_def as_address_via_as_bytes address_of_bytes_def)
  show "\<forall>a. as_optional_address E (Some v) = Inr (Some a) \<longrightarrow> length a = 20"
    using as_optional_address_ok by fastforce
qed (simp_all add: as_address_def as_bytes_def as_hash32_def type_error_def)

section \<open>Calls and access lists\<close>

text \<open>
  The constructors of a call and of an access list item accept exactly what they document: a
  call with a target of 0 or 20 bytes, any data and a non-negative value; an item with a 20-byte
  address and 32-byte keys; and they store what was coerced.
\<close>

lemma model_constructors_exact:
  "(call_create E to val dat = Inr c \<longleftrightarrow>
      as_address E to = Inr (call_to c) \<and> as_bytes E dat = Inr (call_data c) \<and> call_value c = val \<and>
      0 \<le> val) \<and>
   (access_list_item_create E ad keys = Inr i \<longleftrightarrow>
      as_address E ad = Inr (al_address i) \<and> length (al_address i) = 20 \<and>
      mapE (as_hash32 E) keys = Inr (al_storage_keys i)) \<and>
   (call_create E to val dat = Inr c \<longrightarrow> call_ok c) \<and>
   (access_list_item_create E ad keys = Inr i \<longrightarrow> access_list_item_ok i)"
proof (intro conjI)
  show "call_create E to val dat = Inr c \<longleftrightarrow>
      as_address E to = Inr (call_to c) \<and> as_bytes E dat = Inr (call_data c) \<and> call_value c = val \<and>
      0 \<le> val"
    by (cases c) (auto simp: call_create_def call_init_def bindE_Inr_conv)
  show "access_list_item_create E ad keys = Inr i \<longleftrightarrow>
      as_address E ad = Inr (al_address i) \<and> length (al_address i) = 20 \<and>
      mapE (as_hash32 E) keys = Inr (al_storage_keys i)"
    by (cases i) (auto simp: access_list_item_create_def access_list_item_init_def bindE_Inr_conv
        mapE_hash32_lengths)
qed (auto simp: call_create_def call_init_ok access_list_item_create_def bindE_Inr_conv
      dest: access_list_item_init_ok)

section \<open>The 65-byte signature\<close>

text \<open>
  C16. A signature and its 65 bytes determine each other: every signature the class can hold encodes,
  \<open>from_bytes\<close> reads it back, and whatever \<open>from_bytes\<close> accepts encodes to the same bytes; so no
  second byte string, high-s or with another recovery id, parses to the same signature.
\<close>

theorem signature_bytes_roundtrip:
  "(signature_ok sg \<longrightarrow> (\<exists>b. sig_to_bytes sg = Inr b \<and> length b = 65 \<and> sig_from_bytes b = Inr sg)) \<and>
   (sig_from_bytes b = Inr sg \<longrightarrow> signature_ok sg \<and> sig_to_bytes sg = Inr b) \<and>
   (sig_from_bytes b = Inr sg \<and> sig_from_bytes c = Inr sg \<longrightarrow> b = c)"
proof (intro conjI impI)
  assume "signature_ok sg"
  then show "\<exists>b. sig_to_bytes sg = Inr b \<and> length b = 65 \<and> sig_from_bytes b = Inr sg"
    using sig65.enc_total sig65.dec_enc by blast
next
  assume "sig_from_bytes b = Inr sg"
  then show "signature_ok sg" "sig_to_bytes sg = Inr b" using sig65.dec_ok by blast+
next
  assume "sig_from_bytes b = Inr sg \<and> sig_from_bytes c = Inr sg"
  then show "b = c" using sig65.dec_inj by blast
qed

theorem signature_bytes_roundtrip_witness:
  "\<exists>b. sig_to_bytes demo_sig = Inr b \<and> sig_from_bytes b = Inr demo_sig"
  using signature_bytes_roundtrip [of demo_sig] by (metis demo_sig_ok)

end
