(* ===== verification/Session.thy ===== *)
theory Session
  imports Cluster
begin

text \<open>
  A \<open>ClusterCLI\<close> object over time: its public methods in any order, with the files and the processes
  changing between the calls, as a step relation on the files and the object.
\<close>

section \<open>The methods that use the configuration\<close>

definition session_rpc_url ::
    "host \<Rightarrow> fs \<Rightarrow> path \<Rightarrow> pyval \<Rightarrow> 'w session \<Rightarrow> string result \<times> 'w session" where
  "session_rpc_url H F D moniker s =
     (case session_config H F D s of
        (Inl e, t) \<Rightarrow> (Inl e, t) | (Inr c, t) \<Rightarrow> (node_rpc_url c moniker, t))"

definition session_ws_url ::
    "host \<Rightarrow> fs \<Rightarrow> path \<Rightarrow> pyval \<Rightarrow> 'w session \<Rightarrow> string result \<times> 'w session" where
  "session_ws_url H F D moniker s =
     (case session_config H F D s of
        (Inl e, t) \<Rightarrow> (Inl e, t) | (Inr c, t) \<Rightarrow> (node_ws_url c moniker, t))"

section \<open>Steps\<close>

inductive session_step ::
    "host \<Rightarrow> 'w rpc \<Rightarrow> path \<Rightarrow> fs \<times> 'w session \<Rightarrow> fs \<times> 'w session \<Rightarrow> bool" for H R D where
  others: "session_step H R D (F, s) (G, s\<lparr>se_world := w\<rparr>)"
| config: "session_config H F D s = (r, t) \<Longrightarrow> session_step H R D (F, s) (F, t)"
| rpc_url: "session_rpc_url H F D m s = (u, t) \<Longrightarrow> session_step H R D (F, s) (F, t)"
| ws_url: "session_ws_url H F D m s = (u, t) \<Longrightarrow> session_step H R D (F, s) (F, t)"
| status: "Cluster.status R s = (infos, t) \<Longrightarrow> session_step H R D (F, s) (F, t)"
| start: "start_node R m s = (v, t) \<Longrightarrow> session_step H R D (F, s) (F, t)"
| stop: "stop_node R m s = (v, t) \<Longrightarrow> session_step H R D (F, s) (F, t)"
| start_every: "start_all R s = (b, t) \<Longrightarrow> session_step H R D (F, s) (F, t)"
| stop_every: "stop_all R s = (b, t) \<Longrightarrow> session_step H R D (F, s) (F, t)"
| restart: "restart_node R m s = (v, t) \<Longrightarrow> session_step H R D (F, s) (F, t)"
| summarise: "summary H R F D s = (x, t) \<Longrightarrow> session_step H R D (F, s) (F, t)"

inductive_cases session_stepE: "session_step H R D (F, s) (G, t)"

abbreviation session_steps ::
    "host \<Rightarrow> 'w rpc \<Rightarrow> path \<Rightarrow> fs \<times> 'w session \<Rightarrow> fs \<times> 'w session \<Rightarrow> bool" where
  "session_steps H R D \<equiv> (session_step H R D)\<^sup>*\<^sup>*"

section \<open>What the methods do to the configuration\<close>

text \<open>The process calls do not touch it.\<close>

lemma with_proxy_config: "with_proxy call s = (r, t) \<Longrightarrow> se_config t = se_config s"
  by (auto simp: with_proxy_def split: prod.splits)

lemma node_calls_config:
  "start_node R m s = (v, t) \<Longrightarrow> se_config t = se_config s"
  "stop_node R m s = (v, t) \<Longrightarrow> se_config t = se_config s"
  by (auto simp: start_node_def stop_node_def dest: with_proxy_config)

lemma status_config: "Cluster.status R s = (infos, t) \<Longrightarrow> se_config t = se_config s"
  by (auto simp: status_def dest!: with_proxy_config split: prod.splits sum.splits)

lemma loops_config:
  "start_stopped R infos s = (b, t) \<Longrightarrow> se_config t = se_config s"
  "stop_each R infos s = (b, t) \<Longrightarrow> se_config t = se_config s"
  by (induction infos arbitrary: s)
    (auto split: sum.splits prod.splits if_splits dest!: node_calls_config)

lemmas process_config = node_calls_config status_config loops_config

lemma all_calls_config:
  "start_all R s = (b, t) \<Longrightarrow> se_config t = se_config s"
  "stop_all R s = (b, t) \<Longrightarrow> se_config t = se_config s"
  "restart_node R m s = (v, t) \<Longrightarrow> se_config t = se_config s"
  by (auto simp: start_all_def stop_all_def restart_node_def split: sum.splits prod.splits if_splits
      dest!: process_config)

text \<open>Reading the configuration keeps it, or takes it from the files.\<close>

definition config_from :: "host \<Rightarrow> path \<Rightarrow> fs \<Rightarrow> devnet_config option \<Rightarrow> devnet_config option \<Rightarrow> bool" where
  "config_from H D F before after \<longleftrightarrow>
     after = before \<or> before = None \<and> (case find_config H F D of Inl e \<Rightarrow> False | Inr c \<Rightarrow> after = Some c)"

lemma session_config_from:
  "session_config H F D s = (r, t) \<Longrightarrow> config_from H D F (se_config s) (se_config t)"
  by (auto simp: session_config_def config_from_def split: option.splits sum.splits)

lemma urls_from:
  "session_rpc_url H F D m s = (u, t) \<Longrightarrow> config_from H D F (se_config s) (se_config t)"
  "session_ws_url H F D m s = (u, t) \<Longrightarrow> config_from H D F (se_config s) (se_config t)"
  by (auto simp: session_rpc_url_def session_ws_url_def split: prod.splits sum.splits dest: session_config_from)

lemma summary_from: "summary H R F D s = (x, t) \<Longrightarrow> config_from H D F (se_config s) (se_config t)"
  by (auto simp: summary_def split: prod.splits sum.splits dest!: session_config_from status_config)

lemma session_step_from:
  "session_step H R D (F, s) (G, t) \<Longrightarrow> config_from H D F (se_config s) (se_config t)"
  by (erule session_stepE)
    (auto dest: session_config_from urls_from summary_from process_config all_calls_config simp: config_from_def)

lemma session_keeps:
  assumes "session_steps H R D (F, s) (G, t)" "se_config s = Some c"
  shows "se_config t = Some c"
  using assms
proof (induction rule: rtranclp_induct2)
  case (step K u L v)
  from session_step_from [OF step(2)] step show ?case by (auto simp: config_from_def)
qed

lemma session_origin:
  assumes "session_steps H R D (F, session_init c0 w) (G, t)"
  shows "se_config t = c0 \<or> c0 = None \<and> (\<exists>K c. find_config H K D = Inr c \<and> se_config t = Some c)"
  using assms
proof (induction rule: rtranclp_induct2)
  case refl
  then show ?case by (simp add: session_init_def)
next
  case (step K u L v)
  from session_step_from [OF step(2)] step.IH show ?case
    by (auto simp: config_from_def split: sum.splits)
qed

text \<open>
  C40. A session reads its configuration at most once: whatever calls are made, in any order and whether
  they raise or not, and however files and processes change meanwhile, the configuration a session
  returns is the one it was created with, or else one that \<open>devnet.yaml\<close> or the node directories gave at
  some moment; from then on it never changes, and every later request of it, or of a URL, uses it
  without looking at the files.
\<close>

theorem session_reads_config_once:
  assumes "session_steps H R D (F, session_init c0 w) (G, s0)" "session_config H G D s0 = (Inr c, s)"
    and "session_steps H R D (G, s) (K, t)"
  shows "(c0 = Some c \<or> c0 = None \<and> (\<exists>L. find_config H L D = Inr c)) \<and>
    session_config H K D t = (Inr c, t) \<and> session_rpc_url H K D m t = (node_rpc_url c m, t) \<and>
    session_ws_url H K D m t = (node_ws_url c m, t)"
proof -
  have c: "se_config s = Some c"
    using assms(2) by (auto simp: session_config_def split: option.splits sum.splits)
  have "session_steps H R D (F, session_init c0 w) (G, s)"
    using assms(1) session_step.config [OF assms(2)] by (rule rtranclp.rtrancl_into_rtrancl)
  from session_origin [OF this] session_keeps [OF assms(3) c] c show ?thesis
    by (auto simp: session_config_def session_rpc_url_def session_ws_url_def)
qed

text \<open>The saved configuration is read, then the files disappear.\<close>

definition idle_rpc :: "unit rpc" where
  "idle_rpc = \<lparr>rpc_info = (\<lambda>w. (Inr [], w)), rpc_start = (\<lambda>m w. (Inr (PBool True), w)),
     rpc_stop = (\<lambda>m w. (Inr (PBool True), w))\<rparr>"

theorem session_reads_config_once_witness:
  "\<exists>c t. find_config demo_host [(sib demo_root ''devnet.yaml'', TextFile ''x'')] demo_root = Inr c \<and>
     session_steps demo_host idle_rpc demo_root
       ([(sib demo_root ''devnet.yaml'', TextFile ''x'')], session_init None ()) ([], t) \<and>
     session_config demo_host [] demo_root t = (Inr c, t)"
proof -
  let ?F = "[(sib demo_root ''devnet.yaml'', TextFile ''x'')]" and ?step = "session_step demo_host idle_rpc demo_root"
  have "case find_config demo_host ?F demo_root of Inl e \<Rightarrow> False | Inr c \<Rightarrow> True" by code_simp
  then obtain c where c: "find_config demo_host ?F demo_root = Inr c" by (auto split: sum.splits)
  let ?s = "(session_init None ())\<lparr>se_config := Some c\<rparr>"
  have read: "session_config demo_host ?F demo_root (session_init None ()) = (Inr c, ?s)"
    using c by (simp add: session_config_def session_init_def)
  have "?step (?F, ?s) ([], ?s\<lparr>se_world := ()\<rparr>)" by (rule session_step.others)
  then have gone: "?step\<^sup>*\<^sup>* (?F, ?s) ([], ?s\<lparr>se_world := ()\<rparr>)" by (rule r_into_rtranclp)
  have "?step\<^sup>*\<^sup>* (?F, session_init None ()) ([], ?s\<lparr>se_world := ()\<rparr>)"
    using session_step.config [OF read] gone by (rule converse_rtranclp_into_rtranclp)
  with session_reads_config_once [OF rtranclp.rtrancl_refl read gone] c show ?thesis by blast
qed

end
