(* ===== verification/Spec2Isabelle.thy ===== *)
theory Spec2Isabelle
  imports Abi AccessKeys Backends Builder Cli Cluster Commands Compose ComposeReturns
    ComposeScripts Config Constants Contracts DevnetConfig Exports External Files Frames
    FromDict Initialise Ipv4 KeyAuth KeychainSig ModelProps Models P256 P256Signing Payloads
    Ports Prelude Progress Provision PyValue Reference Samples Serialize Session Shell Signer
    Signing Stdlib Supervisor TxModel Types
begin

text \<open>
  A verification library for \<open>tempo-py\<close>: the Python package \<open>tempo\<close> builds, encodes, signs and verifies
  Tempo transactions (transaction type 0x76), manages access keys, and generates and controls local
  test networks. Every theory translates the code as it is written, under \<open>src/tempo/\<close>, and proves
  what makes it correct. Properties carry an id \<open>Cn\<close>; a property with hypotheses is followed by a
  witness that applies it to a concrete input.

  \<^bold>\<open>How the program is put together.\<close> \<open>types.py\<close> coerces arguments to bytes; \<open>models.py\<close> has the value
  classes; \<open>transaction.py\<close> turns a transaction into the field list of its RLP encoding, from which the
  sender payload, the fee payer payload and the broadcast form are made, and signs and verifies it with
  \<open>signer.py\<close> (secp256k1) or \<open>p256.py\<close> (P-256 and WebAuthn); \<open>keychain.py\<close> wraps the signature of an access
  key with the root account it acts for, and encodes the authorization that a root signs. On the other
  side, \<open>devnet/config.py\<close> reads the description of a test network, \<open>devnet/backends.py\<close> runs the genesis
  generator and names the node directories, \<open>devnet/supervisor.py\<close> writes the scripts, the supervisor
  configuration and the compose file, \<open>devnet/cluster.py\<close> talks to the running processes and
  \<open>devnet/cli.py\<close> puts the steps together.

  \<^bold>\<open>Conventions.\<close> A fallible function returns \<open>'a result = py_error + 'a\<close>, \<open>Inl\<close> being the exception;
  exceptions keep their class and the fixed part of their message, not interpolated values. Classes
  declared with \<open>attrs.define(frozen=True)\<close> are records with a constructor \<open>..._init\<close> that runs converters,
  validators and \<open>__attrs_post_init__\<close> in the order of the code, and a predicate \<open>..._ok\<close> that it
  establishes. Python integers are \<open>int\<close>, byte strings lists of \<open>8 word\<close>, text is a list of characters
  below 256. Where the code accepts any object (dictionaries read from YAML or JSON) the model uses
  the datatype \<open>pyval\<close>. An operation on files is an action \<open>fs \<Rightarrow> 'a result \<times> fs\<close>, which leaves a file
  system also when it raises.

  \<^bold>\<open>Shared theories.\<close>
  \<^item> \<open>Prelude\<close>: exceptions, the error monad, bytes and hex text, big-endian numbers, and their lemmas.
  \<^item> \<open>External\<close>: the record \<open>ext\<close> of third-party functions (\<open>rlp\<close>, \<open>eth_utils\<close>, \<open>eth_account\<close>, \<open>pycryptodome\<close>,
    \<open>eth_contract\<close>) with the documented behaviour the package relies on as the predicates
    \<open>rlp_faithful\<close>, \<open>keccak_ok\<close>, \<open>hexstr_ok\<close>, \<open>checksum_ok\<close>, \<open>account_ok\<close>, \<open>ecdsa_ok\<close>, \<open>p256_ok\<close>; and the
    locales \<open>rlp_encoder\<close> and \<open>exact_rlp_encoder\<close>, the contract of a \<open>to_rlp\<close> method.
  \<^item> \<open>Reference\<close>: one instance \<open>ref_ext\<close> of that record with all predicates proved, for witnesses; \<open>Samples\<close>:
    the transactions the witnesses use.
  \<^item> \<open>Stdlib\<close>: SHA-256, base64url, JSON strings, \<open>str.strip\<close> and \<open>int(s, 16)\<close>; \<open>PyValue\<close>: truth, \<open>str\<close>, \<open>repr\<close>
    and equality of Python values; \<open>Ipv4\<close>: networks and addresses of \<open>ipaddress\<close>; \<open>Files\<close>: paths, file systems
    and actions; \<open>Frames\<close>: what actions leave alone, as the locale \<open>guarantee\<close>; \<open>Progress\<close>: triples for actions
    that return (total correctness), and the directories in which files can be written.

  \<^bold>\<open>Transactions.\<close>
  \<^item> \<open>Types\<close> (\<open>types.py\<close>), \<open>Models\<close> and \<open>TxModel\<close> (\<open>models.py\<close>: calls, access lists, signatures, the transaction
    class, \<open>create\<close>, \<open>clone\<close>), \<open>FromDict\<close> (\<open>from_dict\<close>) and \<open>ModelProps\<close>: coercions agree, a
    signature and its 65 bytes determine each other, a dictionary reads back.
  \<^item> \<open>Serialize\<close> and \<open>Payloads\<close> (\<open>transaction.py\<close>): the field list and the three encodings; each payload
    determines the fields it should bind, sender and fee payer payloads cannot be confused, integers
    are minimal.
  \<^item> \<open>Signer\<close> (\<open>signer.py\<close>) and \<open>Signing\<close> (\<open>transaction.py\<close>): a signed or sponsored transaction verifies as its
    signers; recovery refuses malleable signatures. \<open>Builder\<close>: the builder refines \<open>create\<close>.
  \<^item> \<open>P256\<close> and \<open>P256Signing\<close> (\<open>p256.py\<close>): signatures are canonical, verify and have the documented layout;
    the WebAuthn client data binds the hash.
  \<^item> \<open>KeychainSig\<close>, \<open>KeyAuth\<close>, \<open>AccessKeys\<close> (\<open>keychain.py\<close>): the envelope, one contract (\<open>sig_envelope\<close>) for three
    schemes; the authorization and its trailing-canonical encoding, which determines it; signing with
    a new or a registered key. \<open>Contracts\<close> (\<open>contracts/keychain.py\<close>): the precompile calls. \<open>Abi\<close>
    (\<open>contracts/keychain.py\<close>, \<open>contracts/tip20.py\<close>): the ABI texts, a reader of them, and that the builders pass
    what is declared. \<open>Constants\<close> (\<open>constants.py\<close>): chain ids and addresses. \<open>Exports\<close>
    (\<open>__init__.py\<close> of the three packages): what is imported is what is exported.

  \<^bold>\<open>Test networks.\<close>
  \<^item> \<open>Ports\<close> (\<open>devnet/ports.py\<close>), \<open>Config\<close> and \<open>DevnetConfig\<close> (\<open>devnet/config.py\<close>): reading and writing the
    configuration is a round trip; the addresses of containers; an ephemeral network gets free ports.
  \<^item> \<open>Shell\<close>: the wrapper scripts, against a reader of POSIX simple commands: the shell runs exactly the
    given arguments. \<open>Backends\<close> (\<open>devnet/backends.py\<close>): arguments of nodes and generators, and the renaming
    of the node directories, which moves their contents and nothing else.
  \<^item> \<open>Supervisor\<close> and \<open>Compose\<close> (\<open>devnet/supervisor.py\<close>): a successful run leaves one program and one script
    per validator; a compose file isolates the validators and never replaces a key; what depends on what.
    \<open>ComposeScripts\<close>: every container finds the script of its command. \<open>Provision\<close> and \<open>ComposeReturns\<close>: exactly
    for which configurations the two generators return, by the rules of \<open>Progress\<close> in one direction and
    by what a returned run has done in the other.
  \<^item> \<open>Cluster\<close> (\<open>devnet/cluster.py\<close>): URLs name the ports the nodes are started with; starting and
    stopping against any process manager. \<open>Session\<close>: any sequence of its calls, as a step relation; the
    configuration is read once. \<open>Cli\<close> (\<open>devnet/cli.py\<close>): \<open>init\<close> refuses before it touches
    anything, and the other commands find what it leaves. \<open>Commands\<close>: the class \<open>CLI\<close> as a language of
    commands; no sequence of them that does not force loses a devnet. \<open>Initialise\<close>: \<open>init\<close> from end to end, given a
    generator that does its part: it returns, and the devnet it leaves is complete and keeps the keys.

  \<^bold>\<open>Bounds.\<close> The search for free ports makes 200 attempts, as in the code, and raises after them;
    no other loop of the package is unbounded, so every function here is total and needs no fuel.
    IPv4 addresses are natural numbers below \<open>2 ^ 32\<close> with the check of \<open>ipaddress\<close> written out.

  \<^bold>\<open>Parameters.\<close> Besides \<open>ext\<close>: the record \<open>host\<close> (genesis generator, JSON, TOML and YAML libraries, random
  key bytes, the \<open>p2p enode\<close> tool, addresses on subnets that are not IPv4), the record \<open>rpc\<close> (the process
  manager, on a state of any type), the record \<open>shell_env\<close> (search path, executables, assignments to
  structured attributes), port probes, and the randomness of P-256. Nothing is assumed of them but what a
  theorem states.

  \<^bold>\<open>Not modelled.\<close> Messages that are printed; file
  modes, links and concurrent changes of files; text beyond 8-bit characters; floats inside
  dictionaries; IPv6 and pairs as subnets; the argument parser of the command line and replacing the
  process (\<open>os.execvp\<close>), of which the argument list is modelled.
\<close>

end
